(* ===== verification/Prelude.thy ===== *)
theory Prelude
  imports Main "HOL-Library.Word" "HOL-Library.Code_Target_Numeral"
begin

text \<open>
  Shared vocabulary of the development: the machine types of the canonical ABI
  (\<open>u8\<close>, \<open>u32\<close>, \<open>i32\<close> as words, \<open>usize\<close> as \<open>nat\<close>), the casts the generated
  bindings write with \<open>as\<close>, the error values that stand for the \<open>wasmtime::Trap\<close>s and
  Rust panics of the code, the \<open>?\<close> operator on results, and the lemma collections the
  component theories fill.
\<close>

section \<open>Machine types\<close>

type_synonym byte = "8 word"
type_synonym bytes = "byte list"
type_synonym u32 = "32 word"
type_synonym i32 = "32 word"

text \<open>
  \<open>i32\<close> and \<open>u32\<close> share one representation; \<open>x as u32\<close> and \<open>as_i32\<close> between them
  keep the bits and are the identity here. What differs is how a value is widened to
  \<open>usize\<close>: a \<open>u32\<close> zero-extends (\<open>unat\<close>); an \<open>i32\<close> sign-extends on the 64-bit host
  (\<open>host_usize_of_i32\<close>) and zero-extends on the wasm32 guest (\<open>unat\<close>).
\<close>

definition host_usize_of_i32 :: "i32 \<Rightarrow> nat" where
  "host_usize_of_i32 x = (if sint x < 0 then nat (sint x + 2 ^ 64) else nat (sint x))"

definition i32_of_usize :: "nat \<Rightarrow> i32" where
  "i32_of_usize n = word_of_nat n"

definition u32_of_usize :: "nat \<Rightarrow> u32" where
  "u32_of_usize n = word_of_nat n"

text \<open>Rust's \<open>u32::checked_add(1)\<close>, the refcount increment.\<close>

definition checked_inc :: "u32 \<Rightarrow> u32 option" where
  "checked_inc x = (if unat x + 1 < 2 ^ 32 then Some (x + 1) else None)"

section \<open>Errors\<close>

text \<open>
  One constructor per trap message of the bindings and their runtime, \<open>Panic\<close> for a Rust
  panic (an \<open>assert!\<close>, an out-of-range index, \<open>unwrap\<close>/\<open>expect\<close>), and \<open>GuestTrap\<close> for a
  trap raised while guest code runs.
\<close>

datatype error =
    InvalidHandle        \<comment> \<open>IndexSlab: "invalid index specified for handle"\<close>
  | InvalidHandleIndex   \<comment> \<open>host import: "invalid handle index"\<close>
  | RemoveHandleFailed   \<comment> \<open>host import: "failed to remove handle"\<close>
  | ResourceOverflow     \<comment> \<open>ResourceSlab::clone: "resource index overflow"\<close>
  | OutOfBounds          \<comment> \<open>BorrowChecker::slice: "out of bounds"\<close>
  | InvalidUtf8          \<comment> \<open>BorrowChecker::slice_str: "invalid utf-8"\<close>
  | OutOfBoundsWrite     \<comment> \<open>RawMem::store_many: "out of bounds write"\<close>
  | LinkError string     \<comment> \<open>\<open>Linker::func_wrap\<close>: an import defined twice\<close>
  | Panic string
  | GuestTrap string

type_synonym 'a res = "error + 'a"

text \<open>Rust's \<open>?\<close> on a \<open>Result\<close>: an error returns at once, a value goes on.\<close>

definition bind_res :: "'a res \<Rightarrow> ('a \<Rightarrow> 'b res) \<Rightarrow> 'b res" where
  "bind_res m f = (case m of Inl e \<Rightarrow> Inl e | Inr a \<Rightarrow> f a)"

named_theorems wf_preserved "lemmas stating that an operation keeps a well-formedness invariant"
named_theorems abs_simps "how an operation changes the abstraction of its state"

lemma bind_res_Inl [simp]: "bind_res (Inl e) f = Inl e"
  by (simp add: bind_res_def)

lemma bind_res_Inr [simp]: "bind_res (Inr a) f = f a"
  by (simp add: bind_res_def)

lemma bind_res_eq_Inr:
  "bind_res m f = Inr b \<longleftrightarrow> (\<exists>a. m = Inr a \<and> f a = Inr b)"
  by (cases m) simp_all

lemma bind_res_eq_Inl:
  "bind_res m f = Inl e \<longleftrightarrow> m = Inl e \<or> (\<exists>a. m = Inr a \<and> f a = Inl e)"
  by (cases m) simp_all

section \<open>Casts\<close>

lemma unat_u32_of_usize [simp]: "n < 2 ^ 32 \<Longrightarrow> unat (u32_of_usize n) = n"
  by (simp add: u32_of_usize_def unat_of_nat)

lemma unat_u32_less: "unat (x :: u32) < 2 ^ 32"
  using unsigned_less [of x] by simp

lemmas unat_u32_less_num [simp] = unat_u32_less [simplified]

lemma u32_of_usize_unat [simp]: "u32_of_usize (unat x) = x"
  by (simp add: u32_of_usize_def)

lemma host_usize_of_i32_of_usize [simp]:
  assumes "n < 2 ^ 31"
  shows "host_usize_of_i32 (i32_of_usize n) = n"
proof -
  have "sint (word_of_nat n :: i32) = int n"
    using assms by (simp add: signed_of_nat signed_take_bit_int_eq_self)
  then show ?thesis
    by (simp add: host_usize_of_i32_def i32_of_usize_def)
qed

lemma i32_of_usize_Suc: "i32_of_usize n + 1 = i32_of_usize (Suc n)"
  by (simp add: i32_of_usize_def)

lemma checked_inc_Some [simp]:
  "unat x + 1 < 2 ^ 32 \<Longrightarrow> checked_inc x = Some (x + 1)"
  by (simp add: checked_inc_def)

lemma u32_inc_nonzero: "x \<noteq> - 1 \<Longrightarrow> x + 1 \<noteq> (0 :: u32)"
  by (metis add_diff_cancel_right' diff_0)

lemma u32_no_overflow_iff: "unat (x :: u32) + 1 < 2 ^ 32 \<longleftrightarrow> x \<noteq> - 1"
proof
  assume "unat x + 1 < 2 ^ 32"
  then have "unat (x + 1) = unat x + 1" by (simp add: unat_word_ariths)
  then have "x + 1 \<noteq> 0" by (metis add_eq_0_iff_both_eq_0 one_neq_zero unat_0)
  then show "x \<noteq> - 1" by auto
next
  assume "x \<noteq> - 1"
  then have ne: "x + 1 \<noteq> 0" by (rule u32_inc_nonzero)
  have lt: "unat x < 2 ^ 32" by (rule unat_u32_less)
  show "unat x + 1 < 2 ^ 32"
  proof (rule ccontr)
    assume "\<not> unat x + 1 < 2 ^ 32"
    with lt have "unat x + 1 = 2 ^ 32" by linarith
    then have "unat (x + 1) = 0" by (simp add: unat_word_ariths)
    with ne show False by (simp add: unat_0_iff)
  qed
qed

lemma checked_inc_None: "checked_inc x = None \<longleftrightarrow> x = - 1"
  unfolding checked_inc_def u32_no_overflow_iff by simp

lemma checked_inc_eq: "checked_inc x = (if x = - 1 then None else Some (x + 1))"
  unfolding checked_inc_def u32_no_overflow_iff by simp

lemma unat_inc_u32:
  "unat (x :: u32) + 1 < 2 ^ 32 \<Longrightarrow> unat (x + 1) = Suc (unat x)"
  by (simp add: unat_word_ariths)

lemma unat_inc_nonmax:
  assumes "x \<noteq> - 1" shows "unat (x + 1) = Suc (unat (x :: u32))"
proof (rule unat_inc_u32)
  show "unat x + 1 < 2 ^ 32" using assms u32_no_overflow_iff [of x] by blast
qed

lemma unat_dec_u32:
  "x \<noteq> (0 :: u32) \<Longrightarrow> unat (x - 1) = unat x - 1"
  by (simp add: unat_minus_one)

lemma unat_eq_one_iff: "unat (x :: u32) = Suc 0 \<longleftrightarrow> x = 1"
  by (auto simp: word_unat_eq_iff)

lemma unat_count: "k < 2 ^ 32 - 1 \<Longrightarrow> unat (1 + of_nat k :: u32) = Suc k"
proof -
  assume "k < 2 ^ 32 - 1"
  moreover have "(1 + of_nat k :: u32) = of_nat (Suc k)" by simp
  ultimately show ?thesis by (simp only: unat_of_nat) simp
qed

end
