(* ===== verification/Guest_Memory.thy ===== *)
theory Guest_Memory
  imports Prelude
begin

text \<open>
  The memory marshaler of the canonical ABI, which both directions of the bridge use on the
  guest's linear memory (a byte list here). Reading: \<open>BorrowChecker::slice\<close> and
  \<open>slice_str\<close> of \<open>wit_bindgen_wasmtime\<close> copy the range \<open>[ptr, ptr+len)\<close> out of
  memory or trap \<open>out of bounds\<close>; \<open>slice_str\<close> then validates the bytes with
  \<open>std::str::from_utf8\<close>. Writing: \<open>RawMem::store_many\<close> copies bytes to an offset or
  traps \<open>out of bounds write\<close>. The runtime crate is not part of the repository; these
  definitions follow spec section 4.3 and the crate's layout (the borrow checker's
  bookkeeping of mutable borrows is left out: the bindings only take shared slices). The
  lemmas give each operation's result on every branch, the write/read round trip, and
  the agreement of a guest-side slice with what the host reads back.
\<close>

section \<open>Reading guest memory: \<open>BorrowChecker\<close>\<close>

text \<open>\<open>ptr as u32\<close> and \<open>len as u32\<close>; the end of the region is a \<open>u32::checked_add\<close>
  and must not pass the end of memory; a slice of length 0 is checked the same way.\<close>

definition bc_slice :: "bytes \<Rightarrow> i32 \<Rightarrow> i32 \<Rightarrow> bytes res" where
  "bc_slice mem ptr len =
     (let start = unat ptr; n = unat len
      in if start + n < 2 ^ 32 \<and> start + n \<le> length mem
         then Inr (take n (drop start mem))
         else Inl OutOfBounds)"

text \<open>\<open>std::str::from_utf8\<close>: the well-formed byte sequences of Unicode (Table 3-7). A lead
  byte fixes the width of its sequence; the second byte's range depends on the lead
  (no overlong forms, no surrogates, nothing above U+10FFFF); the others are continuation
  bytes.\<close>

definition utf8_width :: "byte \<Rightarrow> nat" where
  "utf8_width b =
     (if b < 0x80 then 1 else if 0xC2 \<le> b \<and> b \<le> 0xDF then 2
      else if 0xE0 \<le> b \<and> b \<le> 0xEF then 3 else if 0xF0 \<le> b \<and> b \<le> 0xF4 then 4 else 0)"

definition utf8_cont :: "byte \<Rightarrow> bool" where
  "utf8_cont c = (0x80 \<le> c \<and> c \<le> 0xBF)"

definition utf8_second_ok :: "byte \<Rightarrow> byte \<Rightarrow> bool" where
  "utf8_second_ok b c =
     (if b = 0xE0 then 0xA0 \<le> c \<and> c \<le> 0xBF
      else if b = 0xED then 0x80 \<le> c \<and> c \<le> 0x9F
      else if b = 0xF0 then 0x90 \<le> c \<and> c \<le> 0xBF
      else if b = 0xF4 then 0x80 \<le> c \<and> c \<le> 0x8F
      else utf8_cont c)"

definition utf8_tail_ok :: "byte \<Rightarrow> bytes \<Rightarrow> bool" where
  "utf8_tail_ok b cs = (case cs of [] \<Rightarrow> True | c # r \<Rightarrow> utf8_second_ok b c \<and> list_all utf8_cont r)"

function utf8_valid :: "bytes \<Rightarrow> bool" where
  "utf8_valid [] = True"
| "utf8_valid (b # bs) =
     (let n = utf8_width b
      in 0 < n \<and> n - 1 \<le> length bs \<and> utf8_tail_ok b (take (n - 1) bs)
         \<and> utf8_valid (drop (n - 1) bs))"
  by pat_completeness auto
termination
  by (relation "measure length") auto

definition bc_slice_str :: "bytes \<Rightarrow> i32 \<Rightarrow> i32 \<Rightarrow> bytes res" where
  "bc_slice_str mem ptr len =
     bind_res (bc_slice mem ptr len) (\<lambda>bs. if utf8_valid bs then Inr bs else Inl InvalidUtf8)"

text \<open>A guest value of type \<open>&[u8]\<close> or \<open>&str\<close>: the bytes \<open>bs\<close> at address \<open>ptr\<close> of the
  guest's linear memory (its \<open>as_ptr() as i32\<close> and \<open>len()\<close>).\<close>

definition slice_at :: "bytes \<Rightarrow> i32 \<Rightarrow> bytes \<Rightarrow> bool" where
  "slice_at mem ptr bs =
     (unat ptr + length bs \<le> length mem \<and> take (length bs) (drop (unat ptr) mem) = bs)"

text \<open>A load of the guest's own code from its linear memory (the bytes a \<open>Vec::from_raw_parts\<close>
  of the guest bindings reads): past the end of memory, wasm traps.\<close>

definition wasm_load :: "bytes \<Rightarrow> i32 \<Rightarrow> nat \<Rightarrow> bytes res" where
  "wasm_load mem ptr len =
     (if unat ptr + len \<le> length mem then Inr (take len (drop (unat ptr) mem))
      else Inl (GuestTrap ''out of bounds memory access''))"

section \<open>Writing guest memory: \<open>RawMem::store_many\<close>\<close>

text \<open>\<open>mem.get_mut(offset as u32 as usize..)\<close> and then \<open>.get_mut(..val.len())\<close>.\<close>

definition store_many :: "bytes \<Rightarrow> i32 \<Rightarrow> bytes \<Rightarrow> bytes res" where
  "store_many mem off bs =
     (if unat off \<le> length mem \<and> length bs \<le> length mem - unat off
      then Inr (take (unat off) mem @ bs @ drop (unat off + length bs) mem)
      else Inl OutOfBoundsWrite)"

lemma bc_slice_Inr:
  "bc_slice mem ptr len = Inr bs \<longleftrightarrow>
     unat ptr + unat len < 2 ^ 32 \<and> unat ptr + unat len \<le> length mem
     \<and> bs = take (unat len) (drop (unat ptr) mem)"
  by (auto simp: bc_slice_def Let_def)

lemma bc_slice_length: "bc_slice mem ptr len = Inr bs \<Longrightarrow> length bs = unat len"
  by (auto simp: bc_slice_Inr)

lemma bc_slice_Inl: "bc_slice mem ptr len = Inl e \<Longrightarrow> e = OutOfBounds"
  by (auto simp: bc_slice_def Let_def split: if_splits)

lemma bc_slice_str_Inr:
  "bc_slice_str mem ptr len = Inr bs \<longleftrightarrow> bc_slice mem ptr len = Inr bs \<and> utf8_valid bs"
  by (cases "bc_slice mem ptr len") (auto simp: bc_slice_str_def)

lemma utf8_valid_append:
  "utf8_valid xs \<Longrightarrow> utf8_valid ys \<Longrightarrow> utf8_valid (xs @ ys)"
proof (induction xs rule: utf8_valid.induct)
  case 1 then show ?case by simp
next
  case (2 b bs)
  let ?k = "utf8_width b - 1"
  from "2.prems"(1) have "?k \<le> length bs" by (simp add: Let_def)
  then have "take ?k (bs @ ys) = take ?k bs" and "drop ?k (bs @ ys) = drop ?k bs @ ys"
    by simp_all
  with 2 show ?case by (simp add: Let_def del: take_append drop_append)
qed

lemma utf8_valid_ascii: "\<forall>b\<in>set bs. b < 0x80 \<Longrightarrow> utf8_valid bs"
  by (induction bs) (auto simp: utf8_width_def utf8_tail_ok_def)

lemma store_many_length: "store_many mem off bs = Inr mem' \<Longrightarrow> length mem' = length mem"
  by (auto simp: store_many_def split: if_splits)

lemma store_many_Inr:
  "store_many mem off bs = Inr mem' \<longleftrightarrow>
     unat off + length bs \<le> length mem
     \<and> mem' = take (unat off) mem @ bs @ drop (unat off + length bs) mem"
  by (auto simp: store_many_def)

lemma store_many_slice:
  assumes st: "store_many mem off bs = Inr mem'" and fits: "unat off + length bs < 2 ^ 32"
  shows "bc_slice mem' off (word_of_nat (length bs)) = Inr bs"
proof -
  from st have le: "unat off + length bs \<le> length mem"
    and m: "mem' = take (unat off) mem @ bs @ drop (unat off + length bs) mem"
    by (simp_all add: store_many_Inr)
  from fits have n: "unat (word_of_nat (length bs) :: i32) = length bs"
    by (simp add: unat_of_nat)
  from le have "drop (unat off) mem' = bs @ drop (unat off + length bs) mem"
    by (simp add: m)
  with le fits n show ?thesis
    by (simp add: bc_slice_Inr m)
qed

lemma slice_at_bc_slice:
  assumes "slice_at mem ptr bs" and "length mem < 2 ^ 32"
  shows "bc_slice mem ptr (i32_of_usize (length bs)) = Inr bs"
proof -
  from assms have "length bs < 2 ^ 32" by (simp add: slice_at_def)
  then have "unat (i32_of_usize (length bs)) = length bs"
    by (simp add: i32_of_usize_def unat_of_nat)
  with assms show ?thesis by (simp add: bc_slice_Inr slice_at_def)
qed

lemma slice_at_bc_slice_str:
  "slice_at mem ptr bs \<Longrightarrow> length mem < 2 ^ 32 \<Longrightarrow> utf8_valid bs \<Longrightarrow>
   bc_slice_str mem ptr (i32_of_usize (length bs)) = Inr bs"
  by (simp add: bc_slice_str_def slice_at_bc_slice)

lemma bc_slice_str_cases:
  "(\<exists>bs. bc_slice_str mem ptr len = Inr bs \<and> bc_slice mem ptr len = Inr bs \<and> utf8_valid bs)
   \<or> bc_slice_str mem ptr len = Inl OutOfBounds \<and> bc_slice mem ptr len = Inl OutOfBounds
   \<or> bc_slice_str mem ptr len = Inl InvalidUtf8
       \<and> (\<exists>cs. bc_slice mem ptr len = Inr cs \<and> \<not> utf8_valid cs)"
  by (cases "bc_slice mem ptr len") (auto simp: bc_slice_str_def dest: bc_slice_Inl)

lemma store_many_load:
  assumes "store_many mem off bs = Inr mem'"
  shows "wasm_load mem' off (length bs) = Inr bs"
proof -
  from assms have le: "unat off + length bs \<le> length mem"
    and m: "mem' = take (unat off) mem @ bs @ drop (unat off + length bs) mem"
    by (simp_all add: store_many_Inr)
  from le have "drop (unat off) mem' = bs @ drop (unat off + length bs) mem" by (simp add: m)
  with le show ?thesis by (simp add: wasm_load_def m)
qed

end
