(* ===== verification/Slab.thy ===== *)
theory Slab
  imports Prelude
begin

text \<open>
  The handle table of the bindings' runtime (\<open>wit_bindgen_wasmtime::rt::IndexSlab\<close>,
  used as \<open>index_slab0\<close> in \<open>src/host/bindings.rs\<close>, and \<open>wit_bindgen_wasmtime::Table\<close>,
  used as \<open>wapc_table\<close>). Both are a vector of entries, each taken by a value or empty,
  with the empty entries threaded into a free list through their \<open>next\<close> field and its
  head in the slab's \<open>next\<close>. A handle is an entry's position. The runtime crate is not
  part of the repository: its operations follow the contract of the spec (4.1) and the
  free-list layout of the crate.

  The theory gives the operations, the well-formedness of the free list (\<open>slab_wf\<close>), the
  abstraction to a partial map from handles to values (\<open>slab_lookup\<close>), and the
  refinement of the handle-table contract by the slab.
\<close>

section \<open>Data and operations\<close>

datatype 'a slab_entry = Empty nat | Taken 'a

record 'a slab =
  slab_entries :: "'a slab_entry list"
  slab_next :: nat

definition slab_default :: "'a slab" where
  "slab_default = \<lparr>slab_entries = [], slab_next = 0\<rparr>"

definition is_free :: "'a slab_entry \<Rightarrow> bool" where
  "is_free e = (case e of Empty _ \<Rightarrow> True | Taken _ \<Rightarrow> False)"

text \<open>\<open>Table::get\<close>: the value an in-range taken entry holds; \<open>None\<close> otherwise.\<close>

definition slab_lookup :: "'a slab \<Rightarrow> nat \<Rightarrow> 'a option" where
  "slab_lookup s i =
     (if i < length (slab_entries s)
      then (case slab_entries s ! i of Taken v \<Rightarrow> Some v | Empty _ \<Rightarrow> None)
      else None)"

text \<open>
  \<open>IndexSlab::insert\<close>: when the free list is empty (\<open>next = len\<close>) push an empty entry
  pointing one past the end; take the head entry, whose link becomes the new head. The
  \<open>unreachable!()\<close> on a taken head and \<open>u32::try_from(ret).unwrap()\<close> are panics.
\<close>

definition slab_insert :: "'a slab \<Rightarrow> 'a \<Rightarrow> (u32 \<times> 'a slab) res" where
  "slab_insert s v =
     (let es = (if slab_next s = length (slab_entries s)
                then slab_entries s @ [Empty (Suc (slab_next s))] else slab_entries s);
          ret = slab_next s
      in if length es \<le> ret then Inl (Panic ''index out of bounds'')
         else (case es ! ret of
                 Taken _ \<Rightarrow> Inl (Panic ''internal error: entered unreachable code'')
               | Empty nxt \<Rightarrow>
                   if ret < 2 ^ 32
                   then Inr (u32_of_usize ret, \<lparr>slab_entries = es[ret := Taken v], slab_next = nxt\<rparr>)
                   else Inl (Panic ''too many handles'')))"

text \<open>\<open>IndexSlab::get\<close>: an unknown or removed handle is a trap, never a default.\<close>

definition slab_get :: "'a slab \<Rightarrow> u32 \<Rightarrow> 'a res" where
  "slab_get s h = (case slab_lookup s (unat h) of Some v \<Rightarrow> Inr v | None \<Rightarrow> Inl InvalidHandle)"

text \<open>Freeing entry \<open>i\<close>: it becomes the head of the free list.\<close>

definition slab_release :: "'a slab \<Rightarrow> nat \<Rightarrow> 'a slab" where
  "slab_release s i =
     \<lparr>slab_entries = (slab_entries s)[i := Empty (slab_next s)], slab_next = i\<rparr>"

text \<open>\<open>IndexSlab::remove\<close>: \<open>self.get(slab_idx)?\<close>, then free the entry.\<close>

definition slab_remove :: "'a slab \<Rightarrow> u32 \<Rightarrow> ('a \<times> 'a slab) res" where
  "slab_remove s h = bind_res (slab_get s h) (\<lambda>v. Inr (v, slab_release s (unat h)))"

text \<open>\<open>Table::get\<close> and \<open>Table::remove\<close> (its \<open>RemoveError\<close> is reported by the caller).\<close>

definition table_get :: "'a slab \<Rightarrow> u32 \<Rightarrow> 'a option" where
  "table_get t h = slab_lookup t (unat h)"

definition table_remove :: "'a slab \<Rightarrow> u32 \<Rightarrow> ('a \<times> 'a slab) res" where
  "table_remove t h =
     (case slab_lookup t (unat h) of
        None \<Rightarrow> Inl RemoveHandleFailed
      | Some v \<Rightarrow> Inr (v, slab_release t (unat h)))"

section \<open>Well-formedness of the free list\<close>

text \<open>
  Following the links from \<open>next\<close> must visit empty entries only, end exactly at the
  length of the vector, visit each entry once, and visit every empty entry. The walk is
  bounded by fuel; the length of the vector is enough (\<open>slab_wf_iff\<close>).
\<close>

fun free_walk :: "'a slab_entry list \<Rightarrow> nat \<Rightarrow> nat \<Rightarrow> nat list option" where
  "free_walk es n 0 = (if n = length es then Some [] else None)"
| "free_walk es n (Suc f) =
     (if n = length es then Some []
      else if n < length es
      then (case es ! n of Empty m \<Rightarrow> map_option (Cons n) (free_walk es m f) | Taken _ \<Rightarrow> None)
      else None)"

definition free_slots :: "'a slab_entry list \<Rightarrow> nat list" where
  "free_slots es = filter (\<lambda>i. is_free (es ! i)) [0..<length es]"

definition slab_wf :: "'a slab \<Rightarrow> bool" where
  "slab_wf s =
     (case free_walk (slab_entries s) (slab_next s) (length (slab_entries s)) of
        None \<Rightarrow> False
      | Some fl \<Rightarrow> distinct fl \<and> set fl = set (free_slots (slab_entries s)))"

text \<open>The free list as a relation on an explicit list of positions, for proofs.\<close>

fun free_chain :: "'a slab_entry list \<Rightarrow> nat \<Rightarrow> nat list \<Rightarrow> bool" where
  "free_chain es n [] = (n = length es)"
| "free_chain es n (i # is) =
     (i = n \<and> i < length es \<and> (case es ! i of Empty m \<Rightarrow> free_chain es m is | Taken _ \<Rightarrow> False))"

section \<open>The handle-table contract\<close>

datatype 'a table_op = TInsert 'a | TGet u32 | TRemove u32
datatype 'a table_ret = RHandle u32 | RValue 'a | RFailed error

text \<open>One call on the slab as the runtime's callers see it: a trap of \<open>get\<close> and \<open>remove\<close>
  is a returned error; a panic aborts (\<open>Inl\<close>).\<close>

definition slab_step :: "'a slab \<Rightarrow> 'a table_op \<Rightarrow> ('a table_ret \<times> 'a slab) res" where
  "slab_step s op =
     (case op of
        TInsert v \<Rightarrow> bind_res (slab_insert s v) (\<lambda>(h, s'). Inr (RHandle h, s'))
      | TGet h \<Rightarrow> (case slab_get s h of Inl e \<Rightarrow> Inr (RFailed e, s) | Inr v \<Rightarrow> Inr (RValue v, s))
      | TRemove h \<Rightarrow>
          (case slab_remove s h of Inl e \<Rightarrow> Inr (RFailed e, s) | Inr (v, s') \<Rightarrow> Inr (RValue v, s')))"

text \<open>The contract of spec 4.1 on an abstract table \<open>nat \<rightharpoonup> 'a\<close>: insert picks any handle
  not in use; get and remove fail with \<open>InvalidHandle\<close> on a handle not in use.\<close>

inductive table_spec :: "(nat \<rightharpoonup> 'a) \<Rightarrow> 'a table_op \<Rightarrow> 'a table_ret \<Rightarrow> (nat \<rightharpoonup> 'a) \<Rightarrow> bool" where
  spec_insert: "m (unat h) = None \<Longrightarrow> table_spec m (TInsert v) (RHandle h) (m(unat h \<mapsto> v))"
| spec_get: "m (unat h) = Some v \<Longrightarrow> table_spec m (TGet h) (RValue v) m"
| spec_get_err: "m (unat h) = None \<Longrightarrow> table_spec m (TGet h) (RFailed InvalidHandle) m"
| spec_remove: "m (unat h) = Some v \<Longrightarrow> table_spec m (TRemove h) (RValue v) (m(unat h := None))"
| spec_remove_err: "m (unat h) = None \<Longrightarrow> table_spec m (TRemove h) (RFailed InvalidHandle) m"

inductive_cases table_spec_removeE: "table_spec m (TRemove h) r m'"
inductive_cases table_spec_getE: "table_spec m (TGet h) r m'"


section \<open>Lemmas\<close>

subsection \<open>The free list\<close>

lemma is_free_simps [simp]: "is_free (Empty n)" "\<not> is_free (Taken v)"
  by (simp_all add: is_free_def)

lemma set_free_slots [simp]:
  "set (free_slots es) = {i. i < length es \<and> is_free (es ! i)}"
  by (auto simp: free_slots_def)

lemma free_walk_chain: "free_walk es n f = Some fl \<Longrightarrow> free_chain es n fl"
  by (induction es n f arbitrary: fl rule: free_walk.induct)
     (auto split: if_splits slab_entry.splits)

lemma free_chain_walk: "free_chain es n fl \<Longrightarrow> length fl \<le> f \<Longrightarrow> free_walk es n f = Some fl"
proof (induction fl arbitrary: n f)
  case Nil
  then show ?case by (cases f) auto
next
  case (Cons i fl)
  then obtain f' where "f = Suc f'" by (cases f) auto
  with Cons show ?case by (auto split: slab_entry.splits)
qed

lemma free_chain_lt: "free_chain es n fl \<Longrightarrow> i \<in> set fl \<Longrightarrow> i < length es"
  by (induction fl arbitrary: n) (auto split: slab_entry.splits)

lemma free_chain_free: "free_chain es n fl \<Longrightarrow> i \<in> set fl \<Longrightarrow> is_free (es ! i)"
  by (induction fl arbitrary: n) (auto split: slab_entry.splits)

lemma free_chain_update:
  "free_chain es n fl \<Longrightarrow> i \<notin> set fl \<Longrightarrow> free_chain (es[i := x]) n fl"
  by (induction fl arbitrary: n) (auto split: slab_entry.splits)

lemma free_slots_update_taken:
  assumes "\<not> is_free (es ! i)" and "\<not> is_free x"
  shows "free_slots (es[i := x]) = free_slots es"
  unfolding free_slots_def
proof (rule filter_cong)
  show "[0..<length (es[i := x])] = [0..<length es]" by simp
next
  fix j
  assume "j \<in> set [0..<length es]"
  then have "j < length es" by simp
  then show "is_free (es[i := x] ! j) = is_free (es ! j)"
    using assms by (cases "i = j") (simp_all add: nth_list_update)
qed
lemma free_slots_update_free:
  "i < length es \<Longrightarrow> is_free x \<Longrightarrow> set (free_slots (es[i := x])) = insert i (set (free_slots es))"
  by (auto simp: free_slots_def nth_list_update)
lemma free_slots_take_free:
  "i < length es \<Longrightarrow> \<not> is_free x \<Longrightarrow> set (free_slots (es[i := x])) = set (free_slots es) - {i}"
  by (auto simp: free_slots_def nth_list_update)

lemma slab_wf_iff:
  "slab_wf s \<longleftrightarrow> (\<exists>fl. free_chain (slab_entries s) (slab_next s) fl \<and> distinct fl
                      \<and> set fl = set (free_slots (slab_entries s)))"
proof
  assume "slab_wf s"
  then show "\<exists>fl. free_chain (slab_entries s) (slab_next s) fl \<and> distinct fl
                 \<and> set fl = set (free_slots (slab_entries s))"
    unfolding slab_wf_def by (auto split: option.splits dest: free_walk_chain)
next
  assume "\<exists>fl. free_chain (slab_entries s) (slab_next s) fl \<and> distinct fl
              \<and> set fl = set (free_slots (slab_entries s))"
  then obtain fl where c: "free_chain (slab_entries s) (slab_next s) fl" and d: "distinct fl"
    and st: "set fl = set (free_slots (slab_entries s))" by blast
  have "set fl \<subseteq> {..<length (slab_entries s)}"
    using c free_chain_lt by blast
  then have "card (set fl) \<le> length (slab_entries s)"
    using card_mono [of "{..<length (slab_entries s)}"] by fastforce
  with d have "length fl \<le> length (slab_entries s)"
    by (simp add: distinct_card)
  with c have "free_walk (slab_entries s) (slab_next s) (length (slab_entries s)) = Some fl"
    by (rule free_chain_walk)
  with d st show "slab_wf s" by (simp add: slab_wf_def)
qed

lemma slab_wf_next_le:
  assumes "slab_wf s" shows "slab_next s \<le> length (slab_entries s)"
proof -
  from assms obtain fl where "free_chain (slab_entries s) (slab_next s) fl"
    by (auto simp: slab_wf_iff)
  then show ?thesis by (cases fl) auto
qed

lemma slab_insert_Inr_cases:
  assumes "slab_insert s v = Inr (h, s')"
  obtains (push) "slab_next s = length (slab_entries s)" "slab_next s < 2 ^ 32"
      "h = u32_of_usize (slab_next s)"
      "s' = \<lparr>slab_entries = slab_entries s @ [Taken v], slab_next = Suc (slab_next s)\<rparr>"
  | (pop) m where "slab_next s < length (slab_entries s)" "slab_next s < 2 ^ 32"
      "slab_entries s ! slab_next s = Empty m" "h = u32_of_usize (slab_next s)"
      "s' = \<lparr>slab_entries = (slab_entries s)[slab_next s := Taken v], slab_next = m\<rparr>"
proof (cases "slab_next s = length (slab_entries s)")
  case True
  with assms show ?thesis
    by (intro that(1)) (auto simp: slab_insert_def Let_def split: if_splits)
next
  case False
  with assms show ?thesis
    by (cases "slab_entries s ! slab_next s") (auto simp: slab_insert_def Let_def intro: that(2) split: if_splits)
qed

lemma slab_insert_lookup:
  assumes "slab_insert s v = Inr (h, s')"
  shows "slab_lookup s (unat h) = None \<and> slab_lookup s' = (slab_lookup s)(unat h \<mapsto> v)"
  using assms
proof (cases rule: slab_insert_Inr_cases)
  case push
  then show ?thesis
    by (auto simp: slab_lookup_def nth_append fun_eq_iff)
next
  case (pop m)
  then show ?thesis
    by (auto simp: slab_lookup_def fun_eq_iff nth_list_update)
qed

lemma slab_insert_wf [wf_preserved]:
  assumes "slab_wf s" and "slab_insert s v = Inr (h, s')"
  shows "slab_wf s'"
  using assms(2)
proof (cases rule: slab_insert_Inr_cases)
  case push
  from assms(1) obtain fl where c: "free_chain (slab_entries s) (slab_next s) fl"
    and st: "set fl = set (free_slots (slab_entries s))" by (auto simp: slab_wf_iff)
  have "fl = []" using c push(1) by (cases fl) auto
  with st have nf: "\<And>i. i < length (slab_entries s) \<Longrightarrow> \<not> is_free (slab_entries s ! i)"
    by auto
  have "set (free_slots (slab_entries s @ [Taken v])) = {}"
    using nf by (auto simp: nth_append less_Suc_eq)
  moreover have "free_chain (slab_entries s @ [Taken v]) (Suc (slab_next s)) []"
    using push(1) by simp
  ultimately show ?thesis
    unfolding slab_wf_iff push(4) by (intro exI [of _ "[]"]) simp
next
  case (pop m)
  from assms(1) obtain fl where c: "free_chain (slab_entries s) (slab_next s) fl"
    and d: "distinct fl" and st: "set fl = set (free_slots (slab_entries s))"
    by (auto simp: slab_wf_iff)
  from c pop(1,3) obtain fl' where fl: "fl = slab_next s # fl'"
    and c': "free_chain (slab_entries s) m fl'"
    by (cases fl) auto
  from d fl have nin: "slab_next s \<notin> set fl'" by simp
  with c' have c'': "free_chain ((slab_entries s)[slab_next s := Taken v]) m fl'"
    by (rule free_chain_update)
  have "set fl' = set fl - {slab_next s}" using fl d by auto
  also have "\<dots> = set (free_slots ((slab_entries s)[slab_next s := Taken v]))"
    using st pop(1) by (auto simp: nth_list_update)
  finally have "set fl' = set (free_slots ((slab_entries s)[slab_next s := Taken v]))" .
  with c'' d fl show ?thesis
    unfolding slab_wf_iff pop(5) by (intro exI [of _ fl']) simp
qed

lemma slab_insert_total:
  assumes "slab_wf s" and "length (slab_entries s) < 2 ^ 32"
  shows "\<exists>h s'. slab_insert s v = Inr (h, s')"
proof -
  from assms(1) obtain fl where c: "free_chain (slab_entries s) (slab_next s) fl"
    by (auto simp: slab_wf_iff)
  show ?thesis
  proof (cases fl)
    case Nil
    with c assms(2) show ?thesis by (simp add: slab_insert_def Let_def)
  next
    case (Cons i fl')
    with c obtain m where "slab_next s < length (slab_entries s)"
      and "slab_entries s ! slab_next s = Empty m"
      by (auto split: slab_entry.splits)
    with assms(2) show ?thesis by (simp add: slab_insert_def Let_def)
  qed
qed

lemma slab_get_Inr: "slab_get s h = Inr v \<longleftrightarrow> slab_lookup s (unat h) = Some v"
  by (simp add: slab_get_def split: option.splits)

lemma slab_get_Inl: "slab_get s h = Inl e \<longleftrightarrow> slab_lookup s (unat h) = None \<and> e = InvalidHandle"
  by (auto simp: slab_get_def split: option.splits)

lemma slab_remove_Inr:
  "slab_remove s h = Inr (v, s') \<longleftrightarrow>
     slab_lookup s (unat h) = Some v \<and> s' = slab_release s (unat h)"
  by (auto simp: slab_remove_def bind_res_eq_Inr slab_get_Inr)

lemma slab_remove_Inl:
  "slab_remove s h = Inl e \<longleftrightarrow> slab_lookup s (unat h) = None \<and> e = InvalidHandle"
  by (auto simp: slab_remove_def bind_res_eq_Inl slab_get_Inl)

lemma slab_lookup_release [abs_simps]:
  "slab_lookup (slab_release s i) = (slab_lookup s)(i := None)"
  by (auto simp: slab_lookup_def slab_release_def fun_eq_iff nth_list_update)

lemma slab_lookup_Some_lt: "slab_lookup s i = Some v \<Longrightarrow> i < length (slab_entries s)"
  by (simp add: slab_lookup_def split: if_splits)

lemma slab_lookup_Some_taken:
  "slab_lookup s i = Some v \<Longrightarrow> slab_entries s ! i = Taken v"
  by (simp add: slab_lookup_def split: if_splits slab_entry.splits)

lemma slab_release_wf [wf_preserved]:
  assumes "slab_wf s" and "slab_lookup s i = Some v"
  shows "slab_wf (slab_release s i)"
proof -
  from assms(1) obtain fl where c: "free_chain (slab_entries s) (slab_next s) fl"
    and d: "distinct fl" and st: "set fl = set (free_slots (slab_entries s))"
    by (auto simp: slab_wf_iff)
  have lt: "i < length (slab_entries s)" and tk: "slab_entries s ! i = Taken v"
    using assms(2) by (auto dest: slab_lookup_Some_lt slab_lookup_Some_taken)
  have nin: "i \<notin> set fl"
    using st tk by auto
  have "free_chain ((slab_entries s)[i := Empty (slab_next s)]) (slab_next s) fl"
    using c nin by (rule free_chain_update)
  then have c': "free_chain ((slab_entries s)[i := Empty (slab_next s)]) i (i # fl)"
    using lt by simp
  have "set (i # fl) = set (free_slots ((slab_entries s)[i := Empty (slab_next s)]))"
    using st lt by (auto simp: nth_list_update)
  with c' d nin lt show ?thesis
    unfolding slab_wf_iff slab_release_def by (intro exI [of _ "i # fl"]) simp
qed

lemma slab_retake_lookup [abs_simps]:
  "slab_lookup s i = Some a \<Longrightarrow>
   slab_lookup (s\<lparr>slab_entries := (slab_entries s)[i := Taken b]\<rparr>) = (slab_lookup s)(i \<mapsto> b)"
  by (auto simp: slab_lookup_def fun_eq_iff nth_list_update split: if_splits)

lemma slab_retake_wf [wf_preserved]:
  assumes "slab_wf s" and "slab_lookup s i = Some a"
  shows "slab_wf (s\<lparr>slab_entries := (slab_entries s)[i := Taken b]\<rparr>)"
proof -
  from assms(1) obtain fl where c: "free_chain (slab_entries s) (slab_next s) fl"
    and d: "distinct fl" and st: "set fl = set (free_slots (slab_entries s))"
    by (auto simp: slab_wf_iff)
  have tk: "slab_entries s ! i = Taken a"
    using assms(2) by (rule slab_lookup_Some_taken)
  have nin: "i \<notin> set fl" using st tk by auto
  with c have "free_chain ((slab_entries s)[i := Taken b]) (slab_next s) fl"
    by (rule free_chain_update)
  moreover have "free_slots ((slab_entries s)[i := Taken b]) = free_slots (slab_entries s)"
    using tk by (simp add: free_slots_update_taken)
  ultimately show ?thesis
    using d st unfolding slab_wf_iff by (intro exI [of _ fl]) simp
qed

lemma slab_remove_wf [wf_preserved]:
  "slab_wf s \<Longrightarrow> slab_remove s h = Inr (v, s') \<Longrightarrow> slab_wf s'"
  by (auto simp: slab_remove_Inr intro: slab_release_wf)

lemma slab_remove_reinsert:
  assumes "slab_remove s h = Inr (v, s1)" and "slab_insert s1 v' = Inr (h', s2)"
  shows "h' = h \<and> slab_get s2 h = Inr v'"
proof -
  from assms(1) have s1: "s1 = slab_release s (unat h)" and lk: "slab_lookup s (unat h) = Some v"
    by (simp_all add: slab_remove_Inr)
  from lk have lt: "unat h < length (slab_entries s)" by (rule slab_lookup_Some_lt)
  have "slab_insert s1 v' = Inr (h, \<lparr>slab_entries = (slab_entries s)[unat h := Taken v'],
                                         slab_next = slab_next s\<rparr>)"
    using lt by (simp add: s1 slab_insert_def slab_release_def Let_def)
  with assms(2) have "h' = h" and "slab_lookup s2 (unat h) = Some v'"
    using lt by (auto simp: slab_lookup_def)
  then show ?thesis by (simp add: slab_get_Inr)
qed

theorem slab_step_refines:
  assumes "slab_wf s" and "length (slab_entries s) < 2 ^ 32"
  shows "\<exists>r s'. slab_step s op = Inr (r, s') \<and>
           table_spec (slab_lookup s) op r (slab_lookup s') \<and> slab_wf s'"
proof (cases op)
  case (TInsert v)
  from slab_insert_total [OF assms] obtain h s' where ins: "slab_insert s v = Inr (h, s')"
    by blast
  from slab_insert_lookup [OF ins]
  have "table_spec (slab_lookup s) (TInsert v) (RHandle h) (slab_lookup s')"
    by (simp add: spec_insert)
  with ins slab_insert_wf [OF assms(1) ins] TInsert show ?thesis
    by (simp add: slab_step_def)
next
  case (TGet h)
  show ?thesis
  proof (cases "slab_lookup s (unat h)")
    case None
    then have "slab_get s h = Inl InvalidHandle" by (simp add: slab_get_def)
    with None TGet assms(1) show ?thesis
      by (simp add: slab_step_def spec_get_err)
  next
    case (Some v)
    then have "slab_get s h = Inr v" by (simp add: slab_get_def)
    with Some TGet assms(1) show ?thesis
      by (simp add: slab_step_def spec_get)
  qed
next
  case (TRemove h)
  show ?thesis
  proof (cases "slab_lookup s (unat h)")
    case None
    then have "slab_remove s h = Inl InvalidHandle" by (simp add: slab_remove_Inl)
    with None TRemove assms(1) show ?thesis
      by (simp add: slab_step_def spec_remove_err)
  next
    case (Some v)
    then have "slab_remove s h = Inr (v, slab_release s (unat h))" by (simp add: slab_remove_Inr)
    with Some TRemove slab_release_wf [OF assms(1) Some] show ?thesis
      by (simp add: slab_step_def slab_lookup_release spec_remove)
  qed
qed

lemma table_spec_remove_then_get:
  "table_spec m (TRemove h) (RValue v) m' \<Longrightarrow> table_spec m' (TGet h) r m'' \<Longrightarrow> r = RFailed InvalidHandle"
  by (auto elim!: table_spec_removeE table_spec_getE)

lemma slab_get_after_remove:
  "slab_remove s h = Inr (v, s') \<Longrightarrow> slab_get s' h = Inl InvalidHandle"
  by (simp add: slab_remove_Inr slab_get_Inl slab_lookup_release)


lemma slab_insert_get: "slab_insert s v = Inr (h, s') \<Longrightarrow> slab_get s' h = Inr v"
  by (simp add: slab_get_Inr slab_insert_lookup)


lemma count_list_pos: "x \<in> set xs \<Longrightarrow> 0 < count_list xs x"
  by (induction xs) auto

lemma count_list_update:
  "i < length xs \<Longrightarrow>
   count_list (xs[i := y]) z =
     count_list xs z - (if xs ! i = z then 1 else 0) + (if y = z then 1 else 0)"
proof (induction xs arbitrary: i)
  case Nil
  then show ?case by simp
next
  case (Cons x xs)
  show ?case
  proof (cases i)
    case 0
    then show ?thesis by simp
  next
    case (Suc j)
    with Cons.prems have j: "j < length xs" by simp
    have "xs ! j = z \<Longrightarrow> 0 < count_list xs z"
      using count_list_pos [OF nth_mem [OF j]] by simp
    with Cons.IH [OF j] Suc show ?thesis by auto
  qed
qed

lemma slab_insert_count:
  assumes "slab_insert s v = Inr (h, s')"
  shows "count_list (slab_entries s') (Taken x) =
           count_list (slab_entries s) (Taken x) + (if v = x then 1 else 0)"
  using assms
proof (cases rule: slab_insert_Inr_cases)
  case push
  then show ?thesis by simp
next
  case (pop m)
  then show ?thesis by (simp add: count_list_update)
qed

lemma slab_release_count:
  assumes "slab_lookup s i = Some v"
  shows "count_list (slab_entries (slab_release s i)) (Taken x) =
           count_list (slab_entries s) (Taken x) - (if v = x then 1 else 0)"
proof -
  have "i < length (slab_entries s)" and "slab_entries s ! i = Taken v"
    using assms by (auto dest: slab_lookup_Some_lt slab_lookup_Some_taken)
  then show ?thesis by (simp add: slab_release_def count_list_update)
qed

lemma slab_insert_length:
  "slab_insert s v = Inr (h, s') \<Longrightarrow> length (slab_entries s') \<le> Suc (length (slab_entries s))"
  by (erule slab_insert_Inr_cases) simp_all

lemma taken_lookup:
  "Taken ri \<in> set (slab_entries s) \<longleftrightarrow> (\<exists>h. slab_lookup s h = Some ri)"
proof
  assume "Taken ri \<in> set (slab_entries s)"
  then obtain i where "i < length (slab_entries s)" and "slab_entries s ! i = Taken ri"
    by (auto simp: in_set_conv_nth)
  then have "slab_lookup s i = Some ri" by (simp add: slab_lookup_def)
  then show "\<exists>h. slab_lookup s h = Some ri" ..
next
  assume "\<exists>h. slab_lookup s h = Some ri"
  then obtain h where "slab_lookup s h = Some ri" ..
  then have "h < length (slab_entries s)" and "slab_entries s ! h = Taken ri"
    by (auto dest: slab_lookup_Some_lt slab_lookup_Some_taken)
  then show "Taken ri \<in> set (slab_entries s)" by (metis nth_mem)
qed

lemma slab_insert_release_lookup:
  "slab_insert s v = Inr (h, s') \<Longrightarrow> slab_lookup (slab_release s' (unat h)) = slab_lookup s"
  by (simp add: slab_lookup_release slab_insert_lookup fun_upd_idem)

lemma slab_insert_release_count:
  assumes "slab_insert s v = Inr (h, s')"
  shows "count_list (slab_entries (slab_release s' (unat h))) (Taken x) = count_list (slab_entries s) (Taken x)"
  using slab_release_count [of s' "unat h" v x] slab_insert_count [OF assms, of x] slab_insert_lookup [OF assms]
  by simp

lemma release_other:
  assumes "h' \<noteq> h"
  shows "slab_lookup (slab_release s (unat h)) (unat h') = slab_lookup s (unat h')"
proof -
  from assms have "unat h' \<noteq> unat h" by (simp add: word_unat_eq_iff)
  then show ?thesis by (simp add: slab_lookup_release)
qed

end
