(* ===== verification/Resource_Slab.thy ===== *)
theory Resource_Slab
  imports Slab
begin

text \<open>
  The refcounted resource store of the bindings' runtime
  (\<open>wit_bindgen_wasmtime::rt::ResourceSlab\<close>, the \<open>resource_slab0\<close> of
  \<open>WapcGuestData\<close> in \<open>src/host/bindings.rs\<close>). A slot holds the guest's \<open>i32\<close>
  representation of a resource and a \<open>u32\<close> reference count. A slot with count 0 is
  free; its \<open>wasm\<close> field then holds the next free slot, cast with \<open>as i32\<close> and back
  with \<open>as usize\<close>. The crate is not part of the repository: the operations follow the
  contract of spec 4.2 and the crate's layout.

  Seen through \<open>rs_view\<close>, a resource slab is a slab of \<open>(wasm, refcnt)\<close> pairs, so
  its well-formedness and its abstraction \<open>rs_lookup\<close> come from \<open>Slab\<close>.
\<close>

section \<open>Data and operations\<close>

record resource =
  wasm :: i32
  refcnt :: u32

record resource_slab =
  rs_slab :: "resource list"
  rs_next :: nat

text \<open>\<open>ResourceIndex(u32)\<close>.\<close>

type_synonym resource_index = u32

definition resource_slab_default :: resource_slab where
  "resource_slab_default = \<lparr>rs_slab = [], rs_next = 0\<rparr>"

text \<open>
  \<open>ResourceSlab::insert\<close>: push a free slot linking one past the end when the free list
  is empty (\<open>self.next as i32 + 1\<close>), assert the head slot is free, store the value with
  count 1 and follow the head's link (\<open>slot.wasm as usize\<close>).
\<close>

definition rs_insert :: "resource_slab \<Rightarrow> i32 \<Rightarrow> (resource_index \<times> resource_slab) res" where
  "rs_insert s w =
     (let sl = (if rs_next s = length (rs_slab s)
                then rs_slab s @ [\<lparr>wasm = i32_of_usize (rs_next s) + 1, refcnt = 0\<rparr>]
                else rs_slab s);
          ret = rs_next s
      in if length sl \<le> ret then Inl (Panic ''index out of bounds'')
         else if refcnt (sl ! ret) \<noteq> 0 then Inl (Panic ''assertion failed: slot.refcnt == 0'')
         else Inr (u32_of_usize ret,
                   \<lparr>rs_slab = sl[ret := \<lparr>wasm = w, refcnt = 1\<rparr>],
                    rs_next = host_usize_of_i32 (wasm (sl ! ret))\<rparr>))"

text \<open>\<open>&self.slab[idx.0 as usize]\<close> followed by \<open>assert!(slot.refcnt > 0)\<close>, shared by
  \<open>get\<close>, \<open>clone\<close> and \<open>drop\<close>.\<close>

definition rs_slot :: "resource_slab \<Rightarrow> resource_index \<Rightarrow> resource res" where
  "rs_slot s idx =
     (if unat idx < length (rs_slab s)
      then (if refcnt (rs_slab s ! unat idx) = 0
            then Inl (Panic ''assertion failed: slot.refcnt > 0'')
            else Inr (rs_slab s ! unat idx))
      else Inl (Panic ''index out of bounds''))"

definition rs_get :: "resource_slab \<Rightarrow> resource_index \<Rightarrow> i32 res" where
  "rs_get s idx = bind_res (rs_slot s idx) (\<lambda>r. Inr (wasm r))"

text \<open>\<open>ResourceSlab::clone\<close>: \<open>refcnt.checked_add(1)\<close>, a trap on overflow.\<close>

definition rs_clone :: "resource_slab \<Rightarrow> resource_index \<Rightarrow> resource_slab res" where
  "rs_clone s idx =
     bind_res (rs_slot s idx) (\<lambda>r.
       case checked_inc (refcnt r) of
         None \<Rightarrow> Inl ResourceOverflow
       | Some n \<Rightarrow> Inr (s\<lparr>rs_slab := (rs_slab s)[unat idx := r\<lparr>refcnt := n\<rparr>]\<rparr>))"

text \<open>
  \<open>ResourceSlab::drop\<close>: decrement; while the count is positive return \<open>None\<close>; at 0
  return the value for the destructor and push the slot on the free list
  (\<open>slot.wasm = self.next as i32\<close>).
\<close>

definition rs_drop :: "resource_slab \<Rightarrow> resource_index \<Rightarrow> (i32 option \<times> resource_slab) res" where
  "rs_drop s idx =
     bind_res (rs_slot s idx) (\<lambda>r.
       let r' = r\<lparr>refcnt := refcnt r - 1\<rparr>
       in if refcnt r' \<noteq> 0
          then Inr (None, s\<lparr>rs_slab := (rs_slab s)[unat idx := r']\<rparr>)
          else Inr (Some (wasm r'),
                    \<lparr>rs_slab = (rs_slab s)[unat idx := r'\<lparr>wasm := i32_of_usize (rs_next s)\<rparr>],
                     rs_next = unat idx\<rparr>))"

section \<open>Abstraction and well-formedness\<close>

definition rs_view :: "resource \<Rightarrow> (i32 \<times> u32) slab_entry" where
  "rs_view r = (if refcnt r = 0 then Empty (host_usize_of_i32 (wasm r)) else Taken (wasm r, refcnt r))"

definition rs_as_slab :: "resource_slab \<Rightarrow> (i32 \<times> u32) slab" where
  "rs_as_slab s = \<lparr>slab_entries = map rs_view (rs_slab s), slab_next = rs_next s\<rparr>"

text \<open>The live slots: index \<open>\<mapsto>\<close> (value, reference count).\<close>

definition rs_lookup :: "resource_slab \<Rightarrow> nat \<Rightarrow> (i32 \<times> u32) option" where
  "rs_lookup s i = slab_lookup (rs_as_slab s) i"

text \<open>The free list is well formed, and short enough that its links survive the round trip
  through \<open>i32\<close>.\<close>

definition rs_wf :: "resource_slab \<Rightarrow> bool" where
  "rs_wf s = (slab_wf (rs_as_slab s) \<and> length (rs_slab s) < 2 ^ 31)"


section \<open>Lemmas\<close>


text \<open>The slot of a live resource with its count set to \<open>n\<close>.\<close>

abbreviation count_up :: "resource_slab \<Rightarrow> resource_index \<Rightarrow> i32 \<Rightarrow> u32 \<Rightarrow> resource_slab" where
  "count_up rs ri v n \<equiv> rs\<lparr>rs_slab := (rs_slab rs)[unat ri := \<lparr>wasm = v, refcnt = n\<rparr>]\<rparr>"

lemma rs_lookup_eq:
  "rs_lookup s i =
     (if i < length (rs_slab s) \<and> refcnt (rs_slab s ! i) \<noteq> 0
      then Some (wasm (rs_slab s ! i), refcnt (rs_slab s ! i)) else None)"
  by (simp add: rs_lookup_def slab_lookup_def rs_as_slab_def rs_view_def)

lemma rs_as_slab_update:
  "rs_as_slab (s\<lparr>rs_slab := (rs_slab s)[i := r]\<rparr>) =
   (rs_as_slab s)\<lparr>slab_entries := (slab_entries (rs_as_slab s))[i := rs_view r]\<rparr>"
  by (simp add: rs_as_slab_def map_update)

lemma rs_lookup_fun: "rs_lookup s = slab_lookup (rs_as_slab s)"
  by (simp add: fun_eq_iff rs_lookup_def)

lemma rs_slot_live:
  assumes "rs_lookup s (unat i) = Some (v, n)"
  shows "rs_slot s i = Inr \<lparr>wasm = v, refcnt = n\<rparr>"
  using assms by (auto simp: rs_lookup_eq rs_slot_def split: if_splits)

lemma rs_slot_dead:
  assumes "rs_lookup s (unat i) = None"
  shows "\<exists>msg. rs_slot s i = Inl (Panic msg)"
  using assms by (auto simp: rs_lookup_eq rs_slot_def split: if_splits)

lemma rs_clone_live:
  assumes "rs_lookup s (unat i) = Some (v, n)" and "n \<noteq> - 1"
  shows "rs_clone s i = Inr (s\<lparr>rs_slab := (rs_slab s)[unat i := \<lparr>wasm = v, refcnt = n + 1\<rparr>]\<rparr>)"
proof -
  have "checked_inc n = Some (n + 1)"
    using assms(2) by (simp add: checked_inc_eq)
  with rs_slot_live [OF assms(1)] show ?thesis by (simp add: rs_clone_def)
qed

lemma rs_clone_overflow:
  "rs_lookup s (unat i) = Some (v, - 1) \<Longrightarrow> rs_clone s i = Inl ResourceOverflow"
  by (simp add: rs_clone_def rs_slot_live checked_inc_eq)

lemma rs_set_count:
  assumes "rs_lookup s (unat i) = Some (v, n)" and "m \<noteq> 0"
    and "s' = s\<lparr>rs_slab := (rs_slab s)[unat i := \<lparr>wasm = v, refcnt = m\<rparr>]\<rparr>"
  shows "rs_lookup s' = (rs_lookup s)(unat i \<mapsto> (v, m)) \<and> (rs_wf s \<longrightarrow> rs_wf s')"
proof -
  have lk: "slab_lookup (rs_as_slab s) (unat i) = Some (v, n)"
    using assms(1) by (simp add: rs_lookup_def)
  have abs: "rs_as_slab s' =
      (rs_as_slab s)\<lparr>slab_entries := (slab_entries (rs_as_slab s))[unat i := Taken (v, m)]\<rparr>"
    using assms(2) by (simp add: assms(3) rs_as_slab_update rs_view_def)
  have "rs_lookup s' = (rs_lookup s)(unat i \<mapsto> (v, m))"
    unfolding rs_lookup_fun abs using slab_retake_lookup [OF lk] by simp
  moreover have "rs_wf s \<longrightarrow> rs_wf s'"
  proof
    assume wf: "rs_wf s"
    then have "slab_wf (rs_as_slab s')"
      unfolding abs using slab_retake_wf [OF _ lk] by (simp add: rs_wf_def)
    moreover have "length (rs_slab s') = length (rs_slab s)" by (simp add: assms(3))
    ultimately show "rs_wf s'" using wf by (simp add: rs_wf_def)
  qed
  ultimately show ?thesis by simp
qed

lemma rs_clone_lookup:
  assumes "rs_lookup s (unat i) = Some (v, n)" and "n \<noteq> - 1" and "rs_clone s i = Inr s'"
  shows "rs_lookup s' = (rs_lookup s)(unat i \<mapsto> (v, n + 1)) \<and> (rs_wf s \<longrightarrow> rs_wf s')"
proof (rule rs_set_count [OF assms(1)])
  show "n + 1 \<noteq> 0" using assms(2) by (rule u32_inc_nonzero)
  show "s' = s\<lparr>rs_slab := (rs_slab s)[unat i := \<lparr>wasm = v, refcnt = n + 1\<rparr>]\<rparr>"
    using assms(3) rs_clone_live [OF assms(1,2)] by simp
qed

lemma rs_wf_next: "rs_wf s \<Longrightarrow> rs_next s < 2 ^ 31"
  using slab_wf_next_le [of "rs_as_slab s"] by (simp add: rs_wf_def rs_as_slab_def)

lemma rs_drop_shared:
  assumes "rs_lookup s (unat i) = Some (v, n)" and "n \<noteq> 1"
  shows "rs_drop s i = Inr (None, s\<lparr>rs_slab := (rs_slab s)[unat i := \<lparr>wasm = v, refcnt = n - 1\<rparr>]\<rparr>)"
  using assms by (simp add: rs_drop_def rs_slot_live)

lemma rs_drop_last:
  assumes "rs_lookup s (unat i) = Some (v, 1)"
  shows "rs_drop s i = Inr (Some v, \<lparr>rs_slab = (rs_slab s)[unat i := \<lparr>wasm = i32_of_usize (rs_next s), refcnt = 0\<rparr>],
                                     rs_next = unat i\<rparr>)"
  using assms by (simp add: rs_drop_def rs_slot_live)

lemma rs_drop_shared_lookup:
  assumes "rs_lookup s (unat i) = Some (v, n)" and "n \<noteq> 1" and "rs_drop s i = Inr (fin, s')"
  shows "fin = None \<and> rs_lookup s' = (rs_lookup s)(unat i \<mapsto> (v, n - 1)) \<and> (rs_wf s \<longrightarrow> rs_wf s')"
proof -
  from assms(3) rs_drop_shared [OF assms(1,2)]
  have fin: "fin = None" and s': "s' = s\<lparr>rs_slab := (rs_slab s)[unat i := \<lparr>wasm = v, refcnt = n - 1\<rparr>]\<rparr>"
    by simp_all
  have "n - 1 \<noteq> 0" using assms(2) by simp
  with rs_set_count [OF assms(1) _ s'] fin show ?thesis by simp
qed

lemma rs_drop_last_lookup:
  assumes "rs_wf s" and "rs_lookup s (unat i) = Some (v, 1)" and "rs_drop s i = Inr (fin, s')"
  shows "fin = Some v \<and> rs_lookup s' = (rs_lookup s)(unat i := None) \<and> rs_wf s'"
proof -
  from assms(3) rs_drop_last [OF assms(2)]
  have fin: "fin = Some v"
    and s': "s' = \<lparr>rs_slab = (rs_slab s)[unat i := \<lparr>wasm = i32_of_usize (rs_next s), refcnt = 0\<rparr>],
                    rs_next = unat i\<rparr>"
    by simp_all
  have lk: "slab_lookup (rs_as_slab s) (unat i) = Some (v, 1)"
    using assms(2) by (simp add: rs_lookup_def)
  have "rs_view \<lparr>wasm = i32_of_usize (rs_next s), refcnt = 0\<rparr> = Empty (rs_next s)"
    using rs_wf_next [OF assms(1)] by (simp add: rs_view_def)
  then have abs: "rs_as_slab s' = slab_release (rs_as_slab s) (unat i)"
    by (simp add: s' rs_as_slab_def slab_release_def map_update)
  have "rs_lookup s' = (rs_lookup s)(unat i := None)"
    unfolding rs_lookup_fun abs by (rule slab_lookup_release)
  moreover have "slab_wf (rs_as_slab s')"
    unfolding abs using assms(1) lk by (simp add: rs_wf_def slab_release_wf)
  moreover have "length (rs_slab s') = length (rs_slab s)" by (simp add: s')
  ultimately show ?thesis
    using fin assms(1) by (simp add: rs_wf_def)
qed

lemma rs_insert_refines:
  assumes "rs_wf s" and "Suc (length (rs_slab s)) < 2 ^ 31"
  shows "\<exists>ri s'. rs_insert s w = Inr (ri, s') \<and>
                 slab_insert (rs_as_slab s) (w, 1) = Inr (ri, rs_as_slab s')"
proof -
  from assms(1) obtain fl where c: "free_chain (map rs_view (rs_slab s)) (rs_next s) fl"
    by (auto simp: rs_wf_def slab_wf_iff rs_as_slab_def)
  show ?thesis
  proof (cases fl)
    case Nil
    with c have nx: "rs_next s = length (rs_slab s)" by simp
    have lk: "host_usize_of_i32 (i32_of_usize (rs_next s) + 1) = Suc (rs_next s)"
      using assms(2) nx by (simp add: i32_of_usize_Suc)
    show ?thesis
      using nx lk assms(2)
      by (simp add: rs_insert_def slab_insert_def rs_as_slab_def rs_view_def Let_def map_update
          nth_append list_update_append)
  next
    case (Cons j fl')
    with c obtain m where lt: "rs_next s < length (rs_slab s)"
      and e: "rs_view (rs_slab s ! rs_next s) = Empty m"
      by (auto split: slab_entry.splits)
    from e have z: "refcnt (rs_slab s ! rs_next s) = 0"
      and m: "m = host_usize_of_i32 (wasm (rs_slab s ! rs_next s))"
      by (simp_all add: rs_view_def split: if_splits)
    show ?thesis
      using lt z m assms(2)
      by (simp add: rs_insert_def slab_insert_def rs_as_slab_def rs_view_def Let_def map_update)
  qed
qed


lemma rs_insert_get:
  assumes "rs_insert s w = Inr (ri, s')" and "length (rs_slab s) < 2 ^ 31"
  shows "rs_get s' ri = Inr w"
proof -
  let ?sl = "if rs_next s = length (rs_slab s)
             then rs_slab s @ [\<lparr>wasm = i32_of_usize (rs_next s) + 1, refcnt = 0\<rparr>] else rs_slab s"
  from assms(1) have lt: "rs_next s < length ?sl"
    and ri: "ri = u32_of_usize (rs_next s)"
    and s': "rs_slab s' = ?sl[rs_next s := \<lparr>wasm = w, refcnt = 1\<rparr>]"
    by (auto simp: rs_insert_def Let_def split: if_splits)
  have "rs_next s < 2 ^ 32"
    using lt assms(2) by (simp split: if_splits)
  then have "unat ri = rs_next s" by (simp add: ri)
  with lt s' show ?thesis
    by (simp add: rs_get_def rs_slot_def)
qed

lemma rs_drop_length: "rs_drop s i = Inr (fin, s') \<Longrightarrow> length (rs_slab s') = length (rs_slab s)"
  by (auto simp: rs_drop_def bind_res_eq_Inr Let_def split: if_splits)


lemma rs_insert_lookup:
  assumes "rs_wf s" and "Suc (length (rs_slab s)) < 2 ^ 31" and "rs_insert s w = Inr (ri, s')"
  shows "rs_lookup s (unat ri) = None \<and> rs_lookup s' = (rs_lookup s)(unat ri \<mapsto> (w, 1)) \<and> rs_wf s'"
proof -
  from rs_insert_refines [OF assms(1,2), of w] assms(3)
  have sl: "slab_insert (rs_as_slab s) (w, 1) = Inr (ri, rs_as_slab s')" by auto
  have "slab_wf (rs_as_slab s')"
    using assms(1) by (intro slab_insert_wf [OF _ sl]) (simp add: rs_wf_def)
  moreover have "length (rs_slab s') < 2 ^ 31"
    using slab_insert_length [OF sl] assms(2) by (simp add: rs_as_slab_def)
  ultimately show ?thesis
    using slab_insert_lookup [OF sl] by (simp add: rs_lookup_fun rs_wf_def)
qed

lemma rs_lookup_nonzero: "rs_lookup s i = Some (v, n) \<Longrightarrow> n \<noteq> 0"
  by (simp add: rs_lookup_eq split: if_splits)

lemma rs_drop_live:
  assumes "rs_lookup s (unat i) = Some (v, n)"
  shows "\<exists>fin s'. rs_drop s i = Inr (fin, s')"
  using rs_drop_shared [OF assms] rs_drop_last [of s i v] assms by (cases "n = 1") auto

lemma rs_insert_total:
  assumes "rs_wf s" and "Suc (length (rs_slab s)) < 2 ^ 31"
  shows "\<exists>ri s'. rs_insert s w = Inr (ri, s')"
  using rs_insert_refines [OF assms] by blast

end
