(* ===== verification/Host_Intrinsics.thy ===== *)
theory Host_Intrinsics
  imports Resource_Slab
begin

text \<open>
  The canonical-ABI resource intrinsics that the host registers for the guest-exported
  resource \<open>wapc\<close> (\<open>src/host/bindings.rs\<close>, \<open>wapc_guest::WapcGuest::add_to_linker\<close>,
  lines 38--80) and the host-side \<open>WapcGuest::drop_wapc\<close> (lines 268--281), over the
  per-instance state \<open>WapcGuestData\<close> (lines 13--18). The guest reaches them through
  the handle wrappers of \<open>src/guest/bindings.rs\<close> (\<open>HandleType\<close> and \<open>LocalHandle\<close>
  for \<open>super::Wapc\<close>, lines 126--204), which \<open>guest_intrinsic\<close> dispatches.

  The guest's destructor export \<open>canonical_abi_drop_wapc\<close> is a parameter \<open>dtor\<close>: the
  bindings call it and nothing else about it is fixed here.
\<close>

section \<open>State\<close>

record wapc_guest_data =
  index_slab0 :: "resource_index slab"
  resource_slab0 :: resource_slab
  dtor0 :: bool   \<comment> \<open>\<open>Option<TypedFunc>\<close>: whether \<open>WapcGuest::new\<close> has set it\<close>

definition wapc_guest_data_default :: wapc_guest_data where
  "wapc_guest_data_default =
     \<lparr>index_slab0 = slab_default, resource_slab0 = resource_slab_default, dtor0 = False\<rparr>"

text \<open>The store of one instance: the guest's linear memory, the host's auxiliary data for
  the guest exports, and the rest of the guest's state.\<close>

record 'g world =
  w_mem :: bytes
  w_data :: wapc_guest_data
  w_guest :: 'g

type_synonym 'g dtor_fn = "'g world \<Rightarrow> i32 \<Rightarrow> 'g world res"

definition set_data :: "'g world \<Rightarrow> resource_index slab \<Rightarrow> resource_slab \<Rightarrow> 'g world" where
  "set_data w is rs = w\<lparr>w_data := (w_data w)\<lparr>index_slab0 := is, resource_slab0 := rs\<rparr>\<rparr>"

section \<open>The intrinsics\<close>

text \<open>
  \<open>resource_drop_wapc\<close>: remove the handle (\<open>?\<close>), drop one reference, and when that was
  the last one call the guest's destructor, which must have been set
  (\<open>expect("destructor not set yet")\<close>).
\<close>

definition resource_drop_wapc :: "'g dtor_fn \<Rightarrow> 'g world \<Rightarrow> u32 \<Rightarrow> 'g world res" where
  "resource_drop_wapc dtor w idx =
     bind_res (slab_remove (index_slab0 (w_data w)) idx) (\<lambda>(ri, is).
     bind_res (rs_drop (resource_slab0 (w_data w)) ri) (\<lambda>(fin, rs).
       let w' = set_data w is rs
       in case fin of
            None \<Rightarrow> Inr w'
          | Some v \<Rightarrow>
              if dtor0 (w_data w) then dtor w' v else Inl (Panic ''destructor not set yet'')))"

text \<open>\<open>resource_clone_wapc\<close>: look the handle up (\<open>?\<close>), add a reference (\<open>?\<close>), hand out a
  new handle to the same resource.\<close>

definition resource_clone_wapc :: "'g world \<Rightarrow> u32 \<Rightarrow> ('g world \<times> u32) res" where
  "resource_clone_wapc w idx =
     bind_res (slab_get (index_slab0 (w_data w)) idx) (\<lambda>ri.
     bind_res (rs_clone (resource_slab0 (w_data w)) ri) (\<lambda>rs.
     bind_res (slab_insert (index_slab0 (w_data w)) ri) (\<lambda>(h, is).
       Inr (set_data w is rs, h))))"

text \<open>\<open>resource_get_wapc\<close>: the guest's representation of the resource, no count change.\<close>

definition resource_get_wapc :: "'g world \<Rightarrow> u32 \<Rightarrow> i32 res" where
  "resource_get_wapc w idx =
     bind_res (slab_get (index_slab0 (w_data w)) idx) (\<lambda>ri.
       rs_get (resource_slab0 (w_data w)) ri)"

text \<open>\<open>resource_new_wapc\<close>: store a fresh resource with count 1 and hand out its handle.\<close>

definition resource_new_wapc :: "'g world \<Rightarrow> i32 \<Rightarrow> ('g world \<times> u32) res" where
  "resource_new_wapc w val =
     bind_res (rs_insert (resource_slab0 (w_data w)) val) (\<lambda>(ri, rs).
     bind_res (slab_insert (index_slab0 (w_data w)) ri) (\<lambda>(h, is).
       Inr (set_data w is rs, h)))"

text \<open>\<open>WapcGuest::drop_wapc\<close>: the host gives up its own reference \<open>val: Wapc\<close>; at the
  last reference the destructor runs (\<open>dtor0.unwrap()\<close>).\<close>

definition host_drop_wapc :: "'g dtor_fn \<Rightarrow> 'g world \<Rightarrow> resource_index \<Rightarrow> 'g world res" where
  "host_drop_wapc dtor w val =
     bind_res (rs_drop (resource_slab0 (w_data w)) val) (\<lambda>(fin, rs).
       let w' = w\<lparr>w_data := (w_data w)\<lparr>resource_slab0 := rs\<rparr>\<rparr>
       in case fin of
            None \<Rightarrow> Inr w'
          | Some v \<Rightarrow>
              if dtor0 (w_data w) then dtor w' v
              else Inl (Panic ''called `Option::unwrap()` on a `None` value''))"

section \<open>The guest's calls\<close>

text \<open>
  The guest's side of a handle (\<open>src/guest/bindings.rs\<close>): \<open>LocalHandle::new\<close> and
  \<open>get\<close>, \<open>HandleType::clone\<close> and \<open>drop\<close> each call one \<open>canonical_abi\<close> import
  with the raw \<open>i32\<close> handle; the host receives it as \<open>u32\<close>.
\<close>

datatype guest_call = CallNew i32 | CallGet u32 | CallClone u32 | CallDrop u32

definition guest_intrinsic :: "'g dtor_fn \<Rightarrow> 'g world \<Rightarrow> guest_call \<Rightarrow> ('g world \<times> i32) res" where
  "guest_intrinsic dtor w c =
     (case c of
        CallNew v \<Rightarrow> resource_new_wapc w v
      | CallGet h \<Rightarrow> bind_res (resource_get_wapc w h) (\<lambda>v. Inr (w, v))
      | CallClone h \<Rightarrow> resource_clone_wapc w h
      | CallDrop h \<Rightarrow> bind_res (resource_drop_wapc dtor w h) (\<lambda>w'. Inr (w', 0)))"

fun guest_run :: "'g dtor_fn \<Rightarrow> 'g world \<Rightarrow> guest_call list \<Rightarrow> ('g world \<times> i32 list) res" where
  "guest_run dtor w [] = Inr (w, [])"
| "guest_run dtor w (c # cs) =
     bind_res (guest_intrinsic dtor w c) (\<lambda>(w', r).
     bind_res (guest_run dtor w' cs) (\<lambda>(w'', rs). Inr (w'', r # rs)))"

section \<open>Contracts and invariant\<close>

text \<open>A destructor that leaves the host's handle tables alone.\<close>

definition keeps_data :: "'g dtor_fn \<Rightarrow> bool" where
  "keeps_data dtor = (\<forall>w v w'. dtor w v = Inr w' \<longrightarrow> w_data w' = w_data w)"



text \<open>
  Every live handle names a live resource whose count is at least the number of handles
  naming it (the rest of the count is held by the host's own \<open>Wapc\<close> values): a handle
  never outlives its resource. Both slabs are well formed.
\<close>

definition handle_count :: "resource_index slab \<Rightarrow> resource_index \<Rightarrow> nat" where
  "handle_count is ri = count_list (slab_entries is) (Taken ri)"

definition handles_backed :: "wapc_guest_data \<Rightarrow> bool" where
  "handles_backed d =
     list_all (\<lambda>e. case e of
                     Empty _ \<Rightarrow> True
                   | Taken ri \<Rightarrow>
                       (case rs_lookup (resource_slab0 d) (unat ri) of
                          None \<Rightarrow> False
                        | Some (_, n) \<Rightarrow> handle_count (index_slab0 d) ri \<le> unat n))
       (slab_entries (index_slab0 d))"

definition gd_wf :: "wapc_guest_data \<Rightarrow> bool" where
  "gd_wf d = (slab_wf (index_slab0 d) \<and> rs_wf (resource_slab0 d) \<and> handles_backed d)"


section \<open>Lemmas\<close>

lemma resource_drop_wapc_Inr:
  assumes "keeps_data dtor" and "resource_drop_wapc dtor w h = Inr w1"
  obtains ri isl fin rs where "slab_remove (index_slab0 (w_data w)) h = Inr (ri, isl)"
    "rs_drop (resource_slab0 (w_data w)) ri = Inr (fin, rs)"
    "w_data w1 = (w_data w)\<lparr>index_slab0 := isl, resource_slab0 := rs\<rparr>"
  using assms
  by (auto simp: resource_drop_wapc_def bind_res_eq_Inr keeps_data_def set_data_def Let_def
      split: option.splits if_splits)


lemma handles_backed_iff:
  "handles_backed d \<longleftrightarrow>
     (\<forall>ri. Taken ri \<in> set (slab_entries (index_slab0 d)) \<longrightarrow>
        (\<exists>v n. rs_lookup (resource_slab0 d) (unat ri) = Some (v, n)
               \<and> handle_count (index_slab0 d) ri \<le> unat n))"
  unfolding handles_backed_def list_all_iff
  by (fastforce split: slab_entry.splits option.splits)

lemma handle_count_pos: "Taken x \<in> set (slab_entries s) \<longleftrightarrow> 0 < handle_count s x"
proof
  assume "Taken x \<in> set (slab_entries s)"
  then show "0 < handle_count s x" unfolding handle_count_def by (rule count_list_pos)
next
  assume "0 < handle_count s x"
  then have "count_list (slab_entries s) (Taken x) \<noteq> 0" by (simp add: handle_count_def)
  then show "Taken x \<in> set (slab_entries s)" by (simp add: count_list_0_iff)
qed

lemma handles_backed_update:
  assumes backed: "handles_backed d"
    and cnt: "\<And>x. x \<noteq> ri \<Longrightarrow> handle_count is' x = handle_count (index_slab0 d) x"
    and lk: "\<And>x. x \<noteq> ri \<Longrightarrow> rs_lookup rs' (unat x) = rs_lookup (resource_slab0 d) (unat x)"
    and here: "Taken ri \<in> set (slab_entries is') \<Longrightarrow>
       \<exists>v n. rs_lookup rs' (unat ri) = Some (v, n) \<and> handle_count is' ri \<le> unat n"
  shows "handles_backed (d\<lparr>index_slab0 := is', resource_slab0 := rs'\<rparr>)"
  unfolding handles_backed_iff
proof (intro allI impI)
  fix x
  assume x: "Taken x \<in> set (slab_entries (index_slab0 (d\<lparr>index_slab0 := is', resource_slab0 := rs'\<rparr>)))"
  show "\<exists>v n. rs_lookup (resource_slab0 (d\<lparr>index_slab0 := is', resource_slab0 := rs'\<rparr>)) (unat x) = Some (v, n) \<and>
          handle_count (index_slab0 (d\<lparr>index_slab0 := is', resource_slab0 := rs'\<rparr>)) x \<le> unat n"
  proof (cases "x = ri")
    case True
    with x here show ?thesis by simp
  next
    case False
    with x cnt have "Taken x \<in> set (slab_entries (index_slab0 d))"
      by (simp add: handle_count_pos)
    with backed obtain v n where "rs_lookup (resource_slab0 d) (unat x) = Some (v, n)"
      and "handle_count (index_slab0 d) x \<le> unat n"
      by (auto simp: handles_backed_iff)
    with False cnt lk show ?thesis by simp
  qed
qed

lemma gd_wfD:
  assumes "gd_wf d"
  shows "slab_wf (index_slab0 d)" "rs_wf (resource_slab0 d)" "handles_backed d"
  using assms by (simp_all add: gd_wf_def)

lemma backed_handle:
  assumes "handles_backed d" and "slab_get (index_slab0 d) h = Inr ri"
  obtains v n where "rs_lookup (resource_slab0 d) (unat ri) = Some (v, n)"
    "0 < handle_count (index_slab0 d) ri" "handle_count (index_slab0 d) ri \<le> unat n"
proof -
  from assms(2) have "Taken ri \<in> set (slab_entries (index_slab0 d))"
    by (auto simp: slab_get_Inr taken_lookup)
  with assms(1) that show ?thesis
    by (auto simp: handles_backed_iff handle_count_pos)
qed

lemma resource_new_wapc_wf:
  assumes wf: "gd_wf (w_data w)" and cap: "Suc (length (rs_slab (resource_slab0 (w_data w)))) < 2 ^ 31"
    and ok: "resource_new_wapc w v = Inr (w', h)"
  shows "gd_wf (w_data w')"
proof -
  let ?d = "w_data w"
  from ok obtain ri rs isl where ins: "rs_insert (resource_slab0 ?d) v = Inr (ri, rs)"
    and ix: "slab_insert (index_slab0 ?d) ri = Inr (h, isl)" and w': "w' = set_data w isl rs"
    by (auto simp: resource_new_wapc_def bind_res_eq_Inr)
  note d = gd_wfD [OF wf]
  from rs_insert_lookup [OF d(2) cap ins]
  have new: "rs_lookup (resource_slab0 ?d) (unat ri) = None"
    and lk: "rs_lookup rs = (rs_lookup (resource_slab0 ?d))(unat ri \<mapsto> (v, 1))"
    and rw: "rs_wf rs" by auto
  have notin: "Taken ri \<notin> set (slab_entries (index_slab0 ?d))"
    using d(3) new by (auto simp: handles_backed_iff)
  have cnt: "\<And>x. handle_count isl x = handle_count (index_slab0 ?d) x + (if ri = x then 1 else 0)"
    using slab_insert_count [OF ix] by (simp add: handle_count_def)
  have "handles_backed (?d\<lparr>index_slab0 := isl, resource_slab0 := rs\<rparr>)"
  proof (rule handles_backed_update [OF d(3)])
    fix x assume "x \<noteq> ri"
    then show "handle_count isl x = handle_count (index_slab0 ?d) x" using cnt by simp
  next
    fix x assume "x \<noteq> ri"
    then show "rs_lookup rs (unat x) = rs_lookup (resource_slab0 ?d) (unat x)"
      using lk by (simp add: word_unat_eq_iff)
  next
    have "handle_count isl ri = 1"
      using cnt [of ri] notin by (simp add: handle_count_pos)
    then show "\<exists>v' n. rs_lookup rs (unat ri) = Some (v', n) \<and> handle_count isl ri \<le> unat n"
      using lk by simp
  qed
  then show ?thesis
    using slab_insert_wf [OF d(1) ix] rw by (simp add: gd_wf_def w' set_data_def)
qed

lemma resource_clone_wapc_wf:
  assumes wf: "gd_wf (w_data w)" and ok: "resource_clone_wapc w h = Inr (w', h')"
  shows "gd_wf (w_data w')"
proof -
  let ?d = "w_data w"
  from ok obtain ri rs isl where g: "slab_get (index_slab0 ?d) h = Inr ri"
    and cl: "rs_clone (resource_slab0 ?d) ri = Inr rs"
    and ix: "slab_insert (index_slab0 ?d) ri = Inr (h', isl)" and w': "w' = set_data w isl rs"
    by (auto simp: resource_clone_wapc_def bind_res_eq_Inr)
  note d = gd_wfD [OF wf]
  from d(3) g obtain v n where lk0: "rs_lookup (resource_slab0 ?d) (unat ri) = Some (v, n)"
    and c0: "handle_count (index_slab0 ?d) ri \<le> unat n"
    by (rule backed_handle)
  have nmax: "n \<noteq> - 1"
    using cl lk0 rs_clone_overflow by force
  from rs_clone_lookup [OF lk0 nmax cl] d(2)
  have lk: "rs_lookup rs = (rs_lookup (resource_slab0 ?d))(unat ri \<mapsto> (v, n + 1))"
    and rw: "rs_wf rs" by auto
  have cnt: "\<And>x. handle_count isl x = handle_count (index_slab0 ?d) x + (if ri = x then 1 else 0)"
    using slab_insert_count [OF ix] by (simp add: handle_count_def)
  have "handles_backed (?d\<lparr>index_slab0 := isl, resource_slab0 := rs\<rparr>)"
  proof (rule handles_backed_update [OF d(3)])
    fix x assume "x \<noteq> ri"
    then show "handle_count isl x = handle_count (index_slab0 ?d) x" using cnt by simp
  next
    fix x assume "x \<noteq> ri"
    then show "rs_lookup rs (unat x) = rs_lookup (resource_slab0 ?d) (unat x)"
      using lk by (simp add: word_unat_eq_iff)
  next
    have "unat (n + 1) = Suc (unat n)"
      using nmax by (rule unat_inc_nonmax)
    then show "\<exists>v' m. rs_lookup rs (unat ri) = Some (v', m) \<and> handle_count isl ri \<le> unat m"
      using lk c0 cnt [of ri] by simp
  qed
  then show ?thesis
    using slab_insert_wf [OF d(1) ix] rw by (simp add: gd_wf_def w' set_data_def)
qed


lemma drop_keeps_backed:
  fixes isl :: "resource_index slab"
  assumes d: "gd_wf dd" and lk0: "rs_lookup (resource_slab0 dd) (unat ri) = Some (v, n)"
    and cnt: "\<And>x. x \<noteq> ri \<Longrightarrow> handle_count isl x = handle_count (index_slab0 dd) x"
    and lt: "handle_count isl ri < unat n"
    and dr: "rs_drop (resource_slab0 dd) ri = Inr (fin, rs)"
  shows "handles_backed (dd\<lparr>index_slab0 := isl, resource_slab0 := rs\<rparr>) \<and> rs_wf rs"
proof (cases "n = 1")
  case True
  from rs_drop_last_lookup [OF gd_wfD(2) [OF d] lk0 [unfolded True] dr]
  have lk: "rs_lookup rs = (rs_lookup (resource_slab0 dd))(unat ri := None)" and rw: "rs_wf rs"
    by auto
  have "handles_backed (dd\<lparr>index_slab0 := isl, resource_slab0 := rs\<rparr>)"
  proof (rule handles_backed_update [OF gd_wfD(3) [OF d] cnt])
    fix x assume "x \<noteq> ri"
    then show "rs_lookup rs (unat x) = rs_lookup (resource_slab0 dd) (unat x)"
      using lk by (simp add: word_unat_eq_iff)
  next
    assume "Taken ri \<in> set (slab_entries isl)"
    moreover have "handle_count isl ri = 0" using lt True by simp
    ultimately show "\<exists>v' m. rs_lookup rs (unat ri) = Some (v', m) \<and> handle_count isl ri \<le> unat m"
      by (simp add: handle_count_pos)
  qed
  with rw show ?thesis by simp
next
  case False
  from rs_drop_shared_lookup [OF lk0 False dr] gd_wfD(2) [OF d]
  have lk: "rs_lookup rs = (rs_lookup (resource_slab0 dd))(unat ri \<mapsto> (v, n - 1))" and rw: "rs_wf rs"
    by auto
  have dec: "unat (n - 1) = unat n - 1"
    using rs_lookup_nonzero [OF lk0] by (rule unat_dec_u32)
  have "handles_backed (dd\<lparr>index_slab0 := isl, resource_slab0 := rs\<rparr>)"
  proof (rule handles_backed_update [OF gd_wfD(3) [OF d] cnt])
    fix x assume "x \<noteq> ri"
    then show "rs_lookup rs (unat x) = rs_lookup (resource_slab0 dd) (unat x)"
      using lk by (simp add: word_unat_eq_iff)
  next
    show "\<exists>v' m. rs_lookup rs (unat ri) = Some (v', m) \<and> handle_count isl ri \<le> unat m"
      using lk lt dec by auto
  qed
  with rw show ?thesis by simp
qed

lemma resource_drop_wapc_wf:
  assumes wf: "gd_wf (w_data w)" and kd: "keeps_data dtor" and ok: "resource_drop_wapc dtor w h = Inr w'"
  shows "gd_wf (w_data w')"
proof -
  let ?d = "w_data w"
  from kd ok obtain ri isl fin rs where rm: "slab_remove (index_slab0 ?d) h = Inr (ri, isl)"
    and dr: "rs_drop (resource_slab0 ?d) ri = Inr (fin, rs)"
    and d': "w_data w' = ?d\<lparr>index_slab0 := isl, resource_slab0 := rs\<rparr>"
    by (rule resource_drop_wapc_Inr)
  from rm have g: "slab_get (index_slab0 ?d) h = Inr ri"
    and lkh: "slab_lookup (index_slab0 ?d) (unat h) = Some ri"
    and isl: "isl = slab_release (index_slab0 ?d) (unat h)"
    by (simp_all add: slab_remove_Inr slab_get_Inr)
  note d = gd_wfD [OF wf]
  from d(3) g obtain v n where lk0: "rs_lookup (resource_slab0 ?d) (unat ri) = Some (v, n)"
    and p0: "0 < handle_count (index_slab0 ?d) ri" and c0: "handle_count (index_slab0 ?d) ri \<le> unat n"
    by (rule backed_handle)
  have cnt: "\<And>x. handle_count isl x = handle_count (index_slab0 ?d) x - (if ri = x then 1 else 0)"
    using slab_release_count [OF lkh] by (simp add: handle_count_def isl)
  have lt: "handle_count isl ri < unat n" using cnt [of ri] p0 c0 by simp
  have "\<And>x. x \<noteq> ri \<Longrightarrow> handle_count isl x = handle_count (index_slab0 ?d) x"
    using cnt by simp
  from drop_keeps_backed [OF wf lk0 this lt dr]
  have "handles_backed (?d\<lparr>index_slab0 := isl, resource_slab0 := rs\<rparr>) \<and> rs_wf rs" .
  moreover have "slab_wf isl" using slab_release_wf [OF d(1) lkh] by (simp add: isl)
  ultimately show ?thesis by (simp add: gd_wf_def d')
qed


lemma host_drop_wapc_wf:
  assumes wf: "gd_wf (w_data w)" and kd: "keeps_data dtor"
    and own: "rs_lookup (resource_slab0 (w_data w)) (unat ri) = Some (v, n)"
    and hold: "handle_count (index_slab0 (w_data w)) ri < unat n"
    and ok: "host_drop_wapc dtor w ri = Inr w'"
  shows "gd_wf (w_data w')"
proof -
  let ?d = "w_data w"
  from ok kd obtain fin rs where dr: "rs_drop (resource_slab0 ?d) ri = Inr (fin, rs)"
    and d': "w_data w' = ?d\<lparr>resource_slab0 := rs\<rparr>"
    by (auto simp: host_drop_wapc_def bind_res_eq_Inr keeps_data_def Let_def
        split: option.splits if_splits)
  from drop_keeps_backed [OF wf own _ hold dr]
  have "handles_backed (?d\<lparr>index_slab0 := index_slab0 ?d, resource_slab0 := rs\<rparr>) \<and> rs_wf rs"
    by blast
  with gd_wfD(1) [OF wf] show ?thesis by (simp add: gd_wf_def d')
qed

text \<open>Which traps each intrinsic can raise on a well-formed state; once \<open>dtor0\<close> is set, none is a panic.\<close>

lemma backed_live:
  "handles_backed d \<Longrightarrow> slab_get (index_slab0 d) h = Inr ri \<Longrightarrow>
   \<exists>v n. rs_lookup (resource_slab0 d) (unat ri) = Some (v, n)"
  by (meson backed_handle)

lemma resource_new_wapc_total:
  assumes "gd_wf (w_data w)" and "Suc (length (rs_slab (resource_slab0 (w_data w)))) < 2 ^ 31"
    and "length (slab_entries (index_slab0 (w_data w))) < 2 ^ 32"
  shows "\<exists>w' h. resource_new_wapc w v = Inr (w', h)"
proof -
  note d = gd_wfD [OF assms(1)]
  obtain ri rs where "rs_insert (resource_slab0 (w_data w)) v = Inr (ri, rs)"
    using rs_insert_total [OF d(2) assms(2)] by blast
  moreover obtain h is1 where "slab_insert (index_slab0 (w_data w)) ri = Inr (h, is1)"
    using slab_insert_total [OF d(1) assms(3)] by blast
  ultimately show ?thesis by (simp add: resource_new_wapc_def)
qed

lemma resource_get_wapc_Inl:
  assumes "handles_backed (w_data w)" and "resource_get_wapc w h = Inl e"
  shows "e = InvalidHandle"
proof (cases "slab_get (index_slab0 (w_data w)) h")
  case (Inl e')
  with assms(2) show ?thesis by (auto simp: resource_get_wapc_def slab_get_Inl)
next
  case (Inr ri)
  with backed_live [OF assms(1)] obtain v n
    where "rs_lookup (resource_slab0 (w_data w)) (unat ri) = Some (v, n)" by blast
  with Inr assms(2) show ?thesis by (simp add: resource_get_wapc_def rs_get_def rs_slot_live)
qed

lemma resource_clone_wapc_Inl:
  assumes "handles_backed (w_data w)" and "slab_wf (index_slab0 (w_data w))"
    and "length (slab_entries (index_slab0 (w_data w))) < 2 ^ 32"
    and "resource_clone_wapc w h = Inl e"
  shows "e = InvalidHandle \<or> e = ResourceOverflow"
proof (cases "slab_get (index_slab0 (w_data w)) h")
  case (Inl e')
  with assms(4) show ?thesis by (auto simp: resource_clone_wapc_def slab_get_Inl)
next
  case (Inr ri)
  with backed_live [OF assms(1)] obtain v n
    where lk: "rs_lookup (resource_slab0 (w_data w)) (unat ri) = Some (v, n)" by blast
  obtain h' is1 where "slab_insert (index_slab0 (w_data w)) ri = Inr (h', is1)"
    using slab_insert_total [OF assms(2,3)] by blast
  with lk Inr assms(4) show ?thesis
    by (cases "n = - 1") (simp_all add: resource_clone_wapc_def rs_clone_overflow rs_clone_live)
qed

lemma resource_drop_wapc_Inl:
  assumes "handles_backed (w_data w)" and "dtor0 (w_data w)" and "resource_drop_wapc dtor w h = Inl e"
  shows "e = InvalidHandle \<or> (\<exists>w' v. dtor w' v = Inl e)"
proof (cases "slab_remove (index_slab0 (w_data w)) h")
  case (Inl e')
  with assms(3) show ?thesis by (auto simp: resource_drop_wapc_def slab_remove_Inl)
next
  case (Inr p)
  then obtain ri is1 where rm: "slab_remove (index_slab0 (w_data w)) h = Inr (ri, is1)" by (cases p) auto
  then have "slab_get (index_slab0 (w_data w)) h = Inr ri" by (simp add: slab_remove_Inr slab_get_Inr)
  with backed_live [OF assms(1)] obtain v n
    where "rs_lookup (resource_slab0 (w_data w)) (unat ri) = Some (v, n)" by blast
  then obtain fin rs where "rs_drop (resource_slab0 (w_data w)) ri = Inr (fin, rs)"
    using rs_drop_live by blast
  with rm assms(2,3) show ?thesis
    by (auto simp: resource_drop_wapc_def Let_def split: option.splits)
qed

end
