(* ===== verification/Guest_Calls.thy ===== *)
theory Guest_Calls
  imports Host_Intrinsics Guest_Memory
begin

text \<open>
  The host-to-guest direction: the methods of \<open>wapc_guest::WapcGuest\<close> in
  \<open>src/host/bindings.rs\<close> that call the guest's exports, and the export shims of
  \<open>src/guest/bindings.rs\<close> that receive those calls. A call into wasm returns the store
  together with its result, and a trap keeps the store as the trap found it
  (\<open>outcome\<close>, \<open>bind_out\<close>): the host's \<open>?\<close> after a failed guest call does not undo
  what the host did before it. The guest's functions are parameters: its allocator
  \<open>canonical_abi_realloc\<close> and its exports in the record \<open>wapc_guest\<close>, the user's trait
  implementations in \<open>wapc_guest_impl\<close>. Each host method lends the guest a fresh handle
  to the resource (\<open>lend_handle\<close>: \<open>ResourceSlab::clone\<close>, then \<open>IndexSlab::insert\<close>),
  copies the strings and bytes into memory the guest allocates (\<open>write_bytes\<close>), and
  calls the export; the shim reads the buffers, calls the user's method and then drops the
  temporary \<open>Handle\<close>, which returns the lent handle through \<open>resource_drop_wapc\<close>
  (\<open>release_handle\<close>). The lemmas show that lending and returning a handle restores
  both tables.
\<close>

section \<open>Calls into wasm\<close>

text \<open>The store after a call and the call's result; an error keeps the store.\<close>

type_synonym ('w, 'a) outcome = "'w \<times> 'a res"

definition bind_out :: "('w, 'a) outcome \<Rightarrow> ('w \<Rightarrow> 'a \<Rightarrow> ('w, 'b) outcome) \<Rightarrow> ('w, 'b) outcome" where
  "bind_out r f = (case r of (w, Inl e) \<Rightarrow> (w, Inl e) | (w, Inr a) \<Rightarrow> f w a)"

section \<open>The host's handle on the guest: \<open>WapcGuest\<close>\<close>

text \<open>The typed functions \<open>WapcGuest<T>\<close> keeps of the instance: the allocator and the three
  exports (\<open>get_state\<close> is the projection \<open>w_data\<close>, \<open>memory\<close> is \<open>w_mem\<close>).\<close>

record 'g wapc_guest =
  canonical_abi_realloc :: "'g world \<Rightarrow> i32 \<Rightarrow> i32 \<Rightarrow> i32 \<Rightarrow> i32 \<Rightarrow> ('g world, i32) outcome"
  wapc_init_guest_request_fn ::
    "'g world \<Rightarrow> i32 \<Rightarrow> i32 \<Rightarrow> i32 \<Rightarrow> i32 \<Rightarrow> i32 \<Rightarrow> ('g world, i32) outcome"
  wapc_on_host_error_fn :: "'g world \<Rightarrow> i32 \<Rightarrow> i32 \<Rightarrow> i32 \<Rightarrow> i32 \<Rightarrow> ('g world, unit) outcome"
  wapc_on_host_response_fn ::
    "'g world \<Rightarrow> i32 \<Rightarrow> i32 \<Rightarrow> i32 \<Rightarrow> i32 \<Rightarrow> i32 \<Rightarrow> ('g world, unit) outcome"

text \<open>\<open>resource_slab0.clone(obj0.0)?\<close>, then \<open>index_slab0.insert(obj0.0)\<close>: the handle
  the guest will receive.\<close>

definition lend_handle :: "'g world \<Rightarrow> resource_index \<Rightarrow> ('g world, u32) outcome" where
  "lend_handle w obj0 =
     (case rs_clone (resource_slab0 (w_data w)) obj0 of
        Inl e \<Rightarrow> (w, Inl e)
      | Inr rs \<Rightarrow>
          (let w1 = w\<lparr>w_data := (w_data w)\<lparr>resource_slab0 := rs\<rparr>\<rparr>
           in case slab_insert (index_slab0 (w_data w1)) obj0 of
                Inl e \<Rightarrow> (w1, Inl e)
              | Inr (handle0, is0) \<Rightarrow> (w1\<lparr>w_data := (w_data w1)\<lparr>index_slab0 := is0\<rparr>\<rparr>, Inr handle0)))"

text \<open>\<open>canonical_abi_realloc.call(&mut caller, (0, 0, 1, len))?\<close>, then
  \<open>memory.store_many(ptr, bytes)?\<close>; the address is what the guest receives.\<close>

definition write_bytes :: "'g wapc_guest \<Rightarrow> 'g world \<Rightarrow> bytes \<Rightarrow> ('g world, i32) outcome" where
  "write_bytes G w vec =
     bind_out (canonical_abi_realloc G w 0 0 1 (i32_of_usize (length vec) * 1)) (\<lambda>w1 ptr.
       case store_many (w_mem w1) ptr vec of
         Inl e \<Rightarrow> (w1, Inl e)
       | Inr m \<Rightarrow> (w1\<lparr>w_mem := m\<rparr>, Inr ptr))"

text \<open>The three methods, each: lend, copy every buffer, call the export.\<close>

definition wapc_init_guest_request ::
  "'g wapc_guest \<Rightarrow> 'g world \<Rightarrow> resource_index \<Rightarrow> bytes \<Rightarrow> bytes \<Rightarrow> ('g world, u32) outcome" where
  "wapc_init_guest_request G w self0 operation payload =
     bind_out (lend_handle w self0) (\<lambda>w1 handle0.
     bind_out (write_bytes G w1 operation) (\<lambda>w2 ptr1.
     bind_out (write_bytes G w2 payload) (\<lambda>w3 ptr2.
     bind_out (wapc_init_guest_request_fn G w3 handle0 ptr1 (i32_of_usize (length operation))
                 ptr2 (i32_of_usize (length payload))) (\<lambda>w4 result3_0.
       (w4, Inr result3_0)))))"

definition wapc_on_host_response ::
  "'g wapc_guest \<Rightarrow> 'g world \<Rightarrow> resource_index \<Rightarrow> u32 \<Rightarrow> u32 \<Rightarrow> bytes \<Rightarrow> ('g world, unit) outcome" where
  "wapc_on_host_response G w self0 id0 code bytes =
     bind_out (lend_handle w self0) (\<lambda>w1 handle0.
     bind_out (write_bytes G w1 bytes) (\<lambda>w2 ptr1.
       wapc_on_host_response_fn G w2 handle0 id0 code ptr1 (i32_of_usize (length bytes))))"

definition wapc_on_host_error ::
  "'g wapc_guest \<Rightarrow> 'g world \<Rightarrow> resource_index \<Rightarrow> u32 \<Rightarrow> bytes \<Rightarrow> ('g world, unit) outcome" where
  "wapc_on_host_error G w self0 id0 bytes =
     bind_out (lend_handle w self0) (\<lambda>w1 handle0.
     bind_out (write_bytes G w1 bytes) (\<lambda>w2 ptr1.
       wapc_on_host_error_fn G w2 handle0 id0 ptr1 (i32_of_usize (length bytes))))"

section \<open>The guest's exports\<close>

text \<open>The user's implementation on the guest side: trait \<open>Wapc\<close> (its \<open>&self\<close> is the
  borrowed \<open>Handle\<close>, its number here) and \<open>WapcGuest::drop_wapc\<close>.\<close>

record 'g wapc_guest_impl =
  init_guest_request_impl :: "'g world \<Rightarrow> u32 \<Rightarrow> bytes \<Rightarrow> bytes \<Rightarrow> ('g world, u32) outcome"
  on_host_response_impl :: "'g world \<Rightarrow> u32 \<Rightarrow> u32 \<Rightarrow> u32 \<Rightarrow> bytes \<Rightarrow> ('g world, unit) outcome"
  on_host_error_impl :: "'g world \<Rightarrow> u32 \<Rightarrow> u32 \<Rightarrow> bytes \<Rightarrow> ('g world, unit) outcome"
  drop_wapc_guest_impl :: "'g world \<Rightarrow> i32 \<Rightarrow> ('g world, unit) outcome"

text \<open>The temporary \<open>Handle::from_raw(arg0)\<close> of a shim is dropped at the end of its
  statement: \<open>HandleType::drop\<close> calls the intrinsic \<open>resource_drop_wapc\<close> on it.\<close>

definition release_handle :: "'g dtor_fn \<Rightarrow> 'g world \<Rightarrow> i32 \<Rightarrow> 'a \<Rightarrow> ('g world, 'a) outcome" where
  "release_handle dtor w h r =
     (case resource_drop_wapc dtor w h of Inl e \<Rightarrow> (w, Inl e) | Inr w' \<Rightarrow> (w', Inr r))"

text \<open>\<open>String::from_utf8(..).unwrap()\<close>.\<close>

definition utf8_unwrap :: "bytes \<Rightarrow> bytes res" where
  "utf8_unwrap bs =
     (if utf8_valid bs then Inr bs
      else Inl (Panic ''called `Result::unwrap()` on an `Err` value''))"

text \<open>The export shims \<open>wapc::init-guest-request\<close>, \<open>wapc::on-host-response\<close>,
  \<open>wapc::on-host-error\<close>: arguments are evaluated left to right, so the operation is read
  and checked before the payload; the user's method runs, then the handle is released.\<close>

definition export_init_guest_request ::
  "'g wapc_guest_impl \<Rightarrow> 'g dtor_fn \<Rightarrow> 'g world \<Rightarrow> i32 \<Rightarrow> i32 \<Rightarrow> i32 \<Rightarrow> i32 \<Rightarrow> i32 \<Rightarrow>
   ('g world, i32) outcome" where
  "export_init_guest_request U dtor w arg0 arg1 arg2 arg3 arg4 =
     bind_out (w, bind_res (wasm_load (w_mem w) arg1 (unat arg2)) utf8_unwrap) (\<lambda>w operation.
     bind_out (w, wasm_load (w_mem w) arg3 (unat arg4)) (\<lambda>w payload.
     bind_out (init_guest_request_impl U w arg0 operation payload) (\<lambda>w1 result.
       release_handle dtor w1 arg0 result)))"

definition export_on_host_response ::
  "'g wapc_guest_impl \<Rightarrow> 'g dtor_fn \<Rightarrow> 'g world \<Rightarrow> i32 \<Rightarrow> i32 \<Rightarrow> i32 \<Rightarrow> i32 \<Rightarrow> i32 \<Rightarrow>
   ('g world, unit) outcome" where
  "export_on_host_response U dtor w arg0 arg1 arg2 arg3 arg4 =
     bind_out (w, wasm_load (w_mem w) arg3 (unat arg4)) (\<lambda>w bytes.
     bind_out (on_host_response_impl U w arg0 arg1 arg2 bytes) (\<lambda>w1 result.
       release_handle dtor w1 arg0 result))"

definition export_on_host_error ::
  "'g wapc_guest_impl \<Rightarrow> 'g dtor_fn \<Rightarrow> 'g world \<Rightarrow> i32 \<Rightarrow> i32 \<Rightarrow> i32 \<Rightarrow> i32 \<Rightarrow>
   ('g world, unit) outcome" where
  "export_on_host_error U dtor w arg0 arg1 arg2 arg3 =
     bind_out (w, wasm_load (w_mem w) arg2 (unat arg3)) (\<lambda>w bytes.
     bind_out (on_host_error_impl U w arg0 arg1 bytes) (\<lambda>w1 result.
       release_handle dtor w1 arg0 result))"

text \<open>The export \<open>canonical_abi_drop_wapc\<close>, the destructor the host calls through
  \<open>dtor0\<close>.\<close>

definition export_drop_wapc :: "'g wapc_guest_impl \<Rightarrow> 'g dtor_fn" where
  "export_drop_wapc U w v =
     (case drop_wapc_guest_impl U w v of (w', Inl e) \<Rightarrow> Inl e | (w', Inr ()) \<Rightarrow> Inr w')"

text \<open>Guest code that does not call the handle intrinsics leaves the host's tables alone;
  the lending properties assume it of the allocator and of the user's method.\<close>

definition realloc_keeps_data :: "'g wapc_guest \<Rightarrow> bool" where
  "realloc_keeps_data G =
     (\<forall>w a b c d. w_data (fst (canonical_abi_realloc G w a b c d)) = w_data w)"

definition response_keeps_data :: "'g wapc_guest_impl \<Rightarrow> bool" where
  "response_keeps_data U =
     (\<forall>w h i c b. w_data (fst (on_host_response_impl U w h i c b)) = w_data w)"

definition request_keeps_data :: "'g wapc_guest_impl \<Rightarrow> bool" where
  "request_keeps_data U =
     (\<forall>w h op pl. w_data (fst (init_guest_request_impl U w h op pl)) = w_data w)"

lemma bind_out_Inl [simp]: "bind_out (w, Inl e) f = (w, Inl e)"
  by (simp add: bind_out_def)

lemma bind_out_Inr [simp]: "bind_out (w, Inr a) f = f w a"
  by (simp add: bind_out_def)

lemma lend_handle_Inr:
  assumes "lend_handle w ri = (w', Inr h)"
  obtains rs is1 where "rs_clone (resource_slab0 (w_data w)) ri = Inr rs"
    "slab_insert (index_slab0 (w_data w)) ri = Inr (h, is1)" "w' = set_data w is1 rs"
  using assms by (auto simp: lend_handle_def set_data_def Let_def split: sum.splits prod.splits)

lemma lend_handle_live:
  assumes "rs_lookup (resource_slab0 (w_data w)) (unat ri) = Some (v, n)" and "n \<noteq> - 1"
    and "slab_insert (index_slab0 (w_data w)) ri = Inr (h, is1)"
  shows "lend_handle w ri = (set_data w is1 (count_up (resource_slab0 (w_data w)) ri v (n + 1)), Inr h)"
  using assms by (simp add: lend_handle_def rs_clone_live set_data_def)

lemma return_lent_handle:
  assumes lk: "rs_lookup rs0 (unat ri) = Some (v, n)" and nmax: "n \<noteq> - 1"
    and ins: "slab_insert is0 ri = Inr (h, is1)"
    and d: "index_slab0 (w_data w1) = is1" "resource_slab0 (w_data w1) = count_up rs0 ri v (n + 1)"
  shows "resource_drop_wapc dtor w1 h = Inr (set_data w1 (slab_release is1 (unat h)) rs0)"
proof -
  have rm: "slab_remove is1 h = Inr (ri, slab_release is1 (unat h))"
    using slab_insert_lookup [OF ins] by (simp add: slab_remove_Inr)
  have lk1: "rs_lookup (count_up rs0 ri v (n + 1)) (unat ri) = Some (v, n + 1)"
    using rs_set_count [OF lk u32_inc_nonzero [OF nmax] refl] by simp
  have "n \<noteq> 0" using lk by (rule rs_lookup_nonzero)
  then have "n + 1 \<noteq> 1" by simp
  note dr = rs_drop_shared [OF lk1 this]
  have same: "count_up rs0 ri v n = rs0"
  proof -
    obtain a c where sl: "rs_slab rs0 ! unat ri = \<lparr>wasm = a, refcnt = c\<rparr>"
      by (cases "rs_slab rs0 ! unat ri") simp
    with lk have "a = v" "c = n" by (simp_all add: rs_lookup_eq split: if_splits)
    with sl have "\<lparr>wasm = v, refcnt = n\<rparr> = rs_slab rs0 ! unat ri" by simp
    then show ?thesis by simp
  qed
  have "rs_drop (count_up rs0 ri v (n + 1)) ri = Inr (None, rs0)"
    using dr same by simp
  with rm d show ?thesis by (simp add: resource_drop_wapc_def)
qed

lemma bind_out_eq_Inr:
  assumes "bind_out m f = (w', Inr b)"
  obtains w1 a where "m = (w1, Inr a)" and "f w1 a = (w', Inr b)"
  using assms by (cases m) (auto simp: bind_out_def split: sum.splits)

lemma write_bytes_Inr:
  assumes "write_bytes G w vec = (w', Inr p)" and "realloc_keeps_data G"
  shows "w_data w' = w_data w \<and> wasm_load (w_mem w') p (length vec) = Inr vec"
proof -
  from assms(1) obtain w1 a
    where r: "canonical_abi_realloc G w 0 0 1 (i32_of_usize (length vec)) = (w1, Inr a)"
      and st: "(case store_many (w_mem w1) a vec of Inl e \<Rightarrow> (w1, Inl e)
                | Inr m \<Rightarrow> (w1\<lparr>w_mem := m\<rparr>, Inr a)) = (w', Inr p)"
    unfolding write_bytes_def by (auto elim: bind_out_eq_Inr)
  from st obtain m where "store_many (w_mem w1) p vec = Inr m" and w': "w' = w1\<lparr>w_mem := m\<rparr>"
    by (auto split: sum.splits)
  moreover have "w_data w1 = w_data w"
    using assms(2) r unfolding realloc_keeps_data_def by (metis fst_conv)
  ultimately show ?thesis by (simp add: store_many_load)
qed

lemma release_handle_Inr:
  "release_handle dtor w h a = (w', Inr b) \<longleftrightarrow> b = a \<and> resource_drop_wapc dtor w h = Inr w'"
  by (auto simp: release_handle_def split: sum.splits)

lemma lend_handle_live_Inr:
  assumes "lend_handle w ri = (w1, Inr h)"
    and "rs_lookup (resource_slab0 (w_data w)) (unat ri) = Some (v, n)" and "n \<noteq> - 1"
  obtains is1 where "slab_insert (index_slab0 (w_data w)) ri = Inr (h, is1)"
    and "w1 = set_data w is1 (count_up (resource_slab0 (w_data w)) ri v (n + 1))"
proof -
  from assms(1) obtain rs is1 where cl: "rs_clone (resource_slab0 (w_data w)) ri = Inr rs"
    and ins: "slab_insert (index_slab0 (w_data w)) ri = Inr (h, is1)" and w1: "w1 = set_data w is1 rs"
    by (rule lend_handle_Inr)
  from cl rs_clone_live [OF assms(2,3)] w1 ins that show ?thesis by simp
qed

lemma release_lent_handle:
  assumes "rs_lookup (resource_slab0 (w_data w)) (unat ri) = Some (v, n)" and "n \<noteq> - 1"
    and ins: "slab_insert (index_slab0 (w_data w)) ri = Inr (h, is1)"
    and d: "w_data w3 = w_data (set_data w is1 (count_up (resource_slab0 (w_data w)) ri v (n + 1)))"
  shows "release_handle dtor w3 h r =
           (set_data w3 (slab_release is1 (unat h)) (resource_slab0 (w_data w)), Inr r)"
proof -
  have "resource_drop_wapc dtor w3 h =
          Inr (set_data w3 (slab_release is1 (unat h)) (resource_slab0 (w_data w)))"
    by (rule return_lent_handle [OF assms(1,2) ins]) (simp_all add: d set_data_def)
  then show ?thesis by (simp add: release_handle_def)
qed

lemma lent_handle_names:
  "slab_insert (index_slab0 (w_data w)) ri = Inr (h, is1) \<Longrightarrow> w_data w2 = w_data (set_data w is1 rs) \<Longrightarrow>
   slab_get (index_slab0 (w_data w2)) h = Inr ri"
  by (simp add: set_data_def slab_insert_get)

lemma restored_tables:
  "slab_insert (index_slab0 (w_data w)) ri = Inr (h, is1) \<Longrightarrow>
   w' = set_data w3 (slab_release is1 (unat h)) (resource_slab0 (w_data w)) \<Longrightarrow>
   resource_slab0 (w_data w') = resource_slab0 (w_data w)
   \<and> slab_lookup (index_slab0 (w_data w')) = slab_lookup (index_slab0 (w_data w))"
  by (simp add: set_data_def slab_insert_release_lookup)

lemma unat_len_i32: "length bs < 2 ^ 32 \<Longrightarrow> unat (i32_of_usize (length bs)) = length bs"
  by (simp add: i32_of_usize_def unat_of_nat)

end
