(* ===== verification/Lifecycle.thy ===== *)
theory Lifecycle
  imports Host_Intrinsics
begin

text \<open>
  The life of one resource of the guest-exported type under the guest's calls
  (\<open>guest_run\<close> of \<open>Host_Intrinsics\<close>): a clone adds a fresh handle and a reference; a
  drop removes a handle and a reference and, at the last reference, runs the destructor.
  The destructor \<open>log_dtor\<close> only appends the value it is given to the guest state, so the
  guest state of a run records every finalisation. \<open>clones_run\<close>: \<open>k\<close> clones of one
  handle yield \<open>k\<close> distinct fresh handles naming the resource and a count raised by
  \<open>k\<close>. \<open>drops_finalize_once\<close>: dropping exactly the handles that hold the references,
  in any order, finalises the resource once, on the last drop, and never before.
\<close>

text \<open>A destructor that records its argument (the guest's \<open>canonical_abi_drop_wapc\<close> seen
  from outside).\<close>

definition log_dtor :: "i32 list dtor_fn" where
  "log_dtor w v = Inr (w\<lparr>w_guest := w_guest w @ [v]\<rparr>)"

lemma drop_step_shared:
  assumes "slab_lookup (index_slab0 (w_data w)) (unat h) = Some ri"
    and "rs_lookup (resource_slab0 (w_data w)) (unat ri) = Some (v, n)" and "n \<noteq> 1"
  shows "guest_intrinsic dtor w (CallDrop h) =
           Inr (set_data w (slab_release (index_slab0 (w_data w)) (unat h))
                  (count_up (resource_slab0 (w_data w)) ri v (n - 1)), 0)"
proof -
  have rm: "slab_remove (index_slab0 (w_data w)) h = Inr (ri, slab_release (index_slab0 (w_data w)) (unat h))"
    using assms(1) by (simp add: slab_remove_Inr)
  from rs_drop_shared [OF assms(2,3)] rm show ?thesis
    by (simp add: guest_intrinsic_def resource_drop_wapc_def)
qed

lemma drop_step_last:
  assumes "slab_lookup (index_slab0 (w_data w)) (unat h) = Some ri"
    and "rs_lookup (resource_slab0 (w_data w)) (unat ri) = Some (v, 1)" and "dtor0 (w_data w)"
  shows "\<exists>rs. guest_intrinsic dtor w (CallDrop h) =
           bind_res (dtor (set_data w (slab_release (index_slab0 (w_data w)) (unat h)) rs) v)
             (\<lambda>w'. Inr (w', 0))
         \<and> rs_lookup rs (unat ri) = None"
proof -
  let ?rs = "\<lparr>rs_slab = (rs_slab (resource_slab0 (w_data w)))[unat ri :=
               \<lparr>wasm = i32_of_usize (rs_next (resource_slab0 (w_data w))), refcnt = 0\<rparr>],
             rs_next = unat ri\<rparr>"
  have rm: "slab_remove (index_slab0 (w_data w)) h = Inr (ri, slab_release (index_slab0 (w_data w)) (unat h))"
    using assms(1) by (simp add: slab_remove_Inr)
  have "rs_lookup ?rs (unat ri) = None" by (simp add: rs_lookup_eq)
  with rs_drop_last [OF assms(2)] rm assms(3) show ?thesis
    by (intro exI [of _ ?rs]) (simp add: guest_intrinsic_def resource_drop_wapc_def)
qed

lemma drops_finalize_once:
  assumes "rs_lookup (resource_slab0 (w_data w)) (unat ri) = Some (v, n)"
    and "unat n = length hs" and "distinct hs"
    and "\<forall>h\<in>set hs. slab_lookup (index_slab0 (w_data w)) (unat h) = Some ri"
    and "dtor0 (w_data w)"
  shows "(\<exists>w' rs. guest_run log_dtor w (map CallDrop hs) = Inr (w', rs)
            \<and> w_guest w' = w_guest w @ [v] \<and> rs_lookup (resource_slab0 (w_data w')) (unat ri) = None)
       \<and> (\<forall>k<length hs. \<exists>w' rs. guest_run log_dtor w (map CallDrop (take k hs)) = Inr (w', rs)
            \<and> w_guest w' = w_guest w)"
  using assms
proof (induction hs arbitrary: w n)
  case Nil
  from Nil.prems(1) have "n \<noteq> 0" by (rule rs_lookup_nonzero)
  with Nil.prems(2) show ?case by (simp add: unat_eq_zero)
next
  case (Cons h hs)
  then have hl: "slab_lookup (index_slab0 (w_data w)) (unat h) = Some ri" by simp
  show ?case
  proof (cases "hs = []")
    case True
    with Cons.prems(2) have "n = 1" by (simp add: unat_eq_one_iff)
    with drop_step_last [OF hl _ Cons.prems(5), of v log_dtor] Cons.prems(1) obtain rs
      where "guest_intrinsic log_dtor w (CallDrop h) =
               Inr ((set_data w (slab_release (index_slab0 (w_data w)) (unat h)) rs)\<lparr>w_guest := w_guest w @ [v]\<rparr>, 0)"
        and "rs_lookup rs (unat ri) = None"
      by (auto simp: log_dtor_def set_data_def)
    with True show ?thesis by (simp add: set_data_def)
  next
    case False
    with Cons.prems(2) have n1: "n \<noteq> 1" by (auto simp: unat_eq_one_iff)
    let ?w1 = "set_data w (slab_release (index_slab0 (w_data w)) (unat h))
                 (count_up (resource_slab0 (w_data w)) ri v (n - 1))"
    have step: "guest_intrinsic log_dtor w (CallDrop h) = Inr (?w1, 0)"
      by (rule drop_step_shared [OF hl Cons.prems(1) n1])
    have n0: "n \<noteq> 0" using Cons.prems(1) by (rule rs_lookup_nonzero)
    then have "n - 1 \<noteq> 0" using n1 by simp
    from rs_set_count [OF Cons.prems(1) this refl]
    have lk1: "rs_lookup (resource_slab0 (w_data ?w1)) (unat ri) = Some (v, n - 1)"
      by (simp add: set_data_def)
    have c1: "unat (n - 1) = length hs"
      using Cons.prems(2) n0 by (simp add: unat_minus_one)
    have hs1: "\<forall>h'\<in>set hs. slab_lookup (index_slab0 (w_data ?w1)) (unat h') = Some ri"
    proof
      fix h' assume h': "h' \<in> set hs"
      with Cons.prems(3) have "h' \<noteq> h" by auto
      with h' Cons.prems(4) show "slab_lookup (index_slab0 (w_data ?w1)) (unat h') = Some ri"
        by (simp add: set_data_def release_other)
    qed
    from Cons.IH [OF lk1 c1 _ hs1] Cons.prems(3,5)
    have ih: "(\<exists>w' rs. guest_run log_dtor ?w1 (map CallDrop hs) = Inr (w', rs)
            \<and> w_guest w' = w_guest ?w1 @ [v] \<and> rs_lookup (resource_slab0 (w_data w')) (unat ri) = None)
       \<and> (\<forall>k<length hs. \<exists>w' rs. guest_run log_dtor ?w1 (map CallDrop (take k hs)) = Inr (w', rs)
            \<and> w_guest w' = w_guest ?w1)"
      by (simp add: set_data_def)
    have g1: "w_guest ?w1 = w_guest w" by (simp add: set_data_def)
    show ?thesis
    proof
      from ih step g1 show "\<exists>w' rs. guest_run log_dtor w (map CallDrop (h # hs)) = Inr (w', rs)
            \<and> w_guest w' = w_guest w @ [v] \<and> rs_lookup (resource_slab0 (w_data w')) (unat ri) = None"
        by auto
      show "\<forall>k<length (h # hs). \<exists>w' rs. guest_run log_dtor w (map CallDrop (take k (h # hs))) = Inr (w', rs)
              \<and> w_guest w' = w_guest w"
      proof (intro allI impI)
        fix k assume k: "k < length (h # hs)"
        show "\<exists>w' rs. guest_run log_dtor w (map CallDrop (take k (h # hs))) = Inr (w', rs)
              \<and> w_guest w' = w_guest w"
        proof (cases k)
          case 0 then show ?thesis by simp
        next
          case (Suc k')
          with k ih step g1 show ?thesis by auto
        qed
      qed
    qed
  qed
qed

lemma clone_step:
  assumes "slab_lookup (index_slab0 (w_data w)) (unat h0) = Some ri"
    and "rs_lookup (resource_slab0 (w_data w)) (unat ri) = Some (v, n)" and "n \<noteq> - 1"
    and "slab_insert (index_slab0 (w_data w)) ri = Inr (h, is1)"
  shows "guest_intrinsic dtor w (CallClone h0) =
           Inr (set_data w is1 (count_up (resource_slab0 (w_data w)) ri v (n + 1)), h)"
proof -
  have "slab_get (index_slab0 (w_data w)) h0 = Inr ri" using assms(1) by (simp add: slab_get_Inr)
  with rs_clone_live [OF assms(2,3)] assms(4) show ?thesis
    by (simp add: guest_intrinsic_def resource_clone_wapc_def)
qed

lemma clones_run:
  assumes "slab_lookup (index_slab0 (w_data w)) (unat h0) = Some ri"
    and "rs_lookup (resource_slab0 (w_data w)) (unat ri) = Some (v, n)"
    and "unat n + k < 2 ^ 32"
    and "slab_wf (index_slab0 (w_data w))"
    and "length (slab_entries (index_slab0 (w_data w))) + k < 2 ^ 32"
  shows "\<exists>w' hs. guest_run dtor w (replicate k (CallClone h0)) = Inr (w', hs)
     \<and> length hs = k \<and> distinct hs
     \<and> (\<forall>h\<in>set hs. slab_lookup (index_slab0 (w_data w)) (unat h) = None
                   \<and> slab_lookup (index_slab0 (w_data w')) (unat h) = Some ri)
     \<and> (\<forall>x. slab_lookup (index_slab0 (w_data w)) x \<noteq> None \<longrightarrow>
              slab_lookup (index_slab0 (w_data w')) x = slab_lookup (index_slab0 (w_data w)) x)
     \<and> rs_lookup (resource_slab0 (w_data w')) (unat ri) = Some (v, n + of_nat k)
     \<and> w_guest w' = w_guest w \<and> dtor0 (w_data w') = dtor0 (w_data w)"
  using assms
proof (induction k arbitrary: w n)
  case 0
  then show ?case by simp
next
  case (Suc k)
  let ?idx = "index_slab0 (w_data w)"
  have nmax: "n \<noteq> - 1"
    using Suc.prems(3) u32_no_overflow_iff [of n] by simp
  from slab_insert_total [of ?idx ri] Suc.prems(4,5) obtain h is1
    where ins: "slab_insert ?idx ri = Inr (h, is1)" by fastforce
  from slab_insert_lookup [OF ins]
  have fresh: "slab_lookup ?idx (unat h) = None" and lk: "slab_lookup is1 = (slab_lookup ?idx)(unat h \<mapsto> ri)"
    by auto
  let ?w1 = "set_data w is1 (count_up (resource_slab0 (w_data w)) ri v (n + 1))"
  have step: "guest_intrinsic dtor w (CallClone h0) = Inr (?w1, h)"
    by (rule clone_step [OF Suc.prems(1,2) nmax ins])
  have l0: "slab_lookup (index_slab0 (w_data ?w1)) (unat h0) = Some ri"
    using Suc.prems(1) fresh by (auto simp: set_data_def lk)
  have r1: "rs_lookup (resource_slab0 (w_data ?w1)) (unat ri) = Some (v, n + 1)"
    using rs_set_count [OF Suc.prems(2) u32_inc_nonzero [OF nmax] refl] by (simp add: set_data_def)
  have c1: "unat (n + 1) + k < 2 ^ 32"
    using Suc.prems(3) unat_inc_nonmax [OF nmax] by simp
  have wf1: "slab_wf (index_slab0 (w_data ?w1))"
    using slab_insert_wf [OF Suc.prems(4) ins] by (simp add: set_data_def)
  have len1: "length (slab_entries (index_slab0 (w_data ?w1))) + k < 2 ^ 32"
    using slab_insert_length [OF ins] Suc.prems(5) by (simp add: set_data_def)
  from Suc.IH [OF l0 r1 c1 wf1 len1] obtain w' hs
    where run: "guest_run dtor ?w1 (replicate k (CallClone h0)) = Inr (w', hs)"
      and len: "length hs = k" and dist: "distinct hs"
      and new: "\<forall>h\<in>set hs. slab_lookup (index_slab0 (w_data ?w1)) (unat h) = None
                   \<and> slab_lookup (index_slab0 (w_data w')) (unat h) = Some ri"
      and keep: "\<forall>x. slab_lookup (index_slab0 (w_data ?w1)) x \<noteq> None \<longrightarrow>
              slab_lookup (index_slab0 (w_data w')) x = slab_lookup (index_slab0 (w_data ?w1)) x"
      and rl: "rs_lookup (resource_slab0 (w_data w')) (unat ri) = Some (v, n + 1 + of_nat k)"
      and g: "w_guest w' = w_guest ?w1" and dt: "dtor0 (w_data w') = dtor0 (w_data ?w1)"
    by blast
  have is1: "index_slab0 (w_data ?w1) = is1" by (simp add: set_data_def)
  have hnot: "h \<notin> set hs"
    using new by (auto simp: is1 lk)
  have old: "\<forall>h'\<in>set hs. slab_lookup ?idx (unat h') = None"
    using new by (auto simp: is1 lk split: if_splits)
  have hw': "slab_lookup (index_slab0 (w_data w')) (unat h) = Some ri"
    using keep by (auto simp: is1 lk)
  have keep0: "\<forall>x. slab_lookup ?idx x \<noteq> None \<longrightarrow>
                 slab_lookup (index_slab0 (w_data w')) x = slab_lookup ?idx x"
    using keep fresh by (auto simp: is1 lk)
  have "n + 1 + of_nat k = n + (of_nat (Suc k) :: u32)" by (simp add: ac_simps)
  with run step len dist new hnot old hw' keep0 rl g dt fresh show ?case
    by (auto simp: set_data_def)
qed

end
