(* ===== verification/Linking.thy ===== *)
theory Linking
  imports Host_Intrinsics
begin

text \<open>
  How the two generated modules are wired into one \<open>wasmtime::Linker\<close>, and how the host
  finishes instantiating the guest. A linker is an association list from import names
  (module, name) to the host function the name is bound to; \<open>Linker::func_wrap\<close> refuses a
  name that is already defined (wasmtime's default, no shadowing). \<open>WapcGuest::add_to_linker\<close>
  and \<open>wapc_host::add_to_linker\<close> (\<open>src/host/bindings.rs\<close>) each register their
  functions; the guest module imports the names listed by its \<open>extern\<close> blocks
  (\<open>src/guest/bindings.rs\<close>). \<open>WapcGuest::new\<close> looks up the guest's exports and only then
  sets \<open>dtor0\<close>; \<open>WapcGuest::instantiate\<close> is \<open>add_to_linker\<close>, \<open>Linker::instantiate\<close>
  and \<open>new\<close>. The lemmas show which names each registration defines.
\<close>

section \<open>Host functions and the linker\<close>

text \<open>The closures the two \<open>add_to_linker\<close> functions register: \<open>WG_\<close> for
  \<open>WapcGuest\<close> (the intrinsics of \<open>Host_Intrinsics\<close>), \<open>WH_\<close> for \<open>wapc_host\<close> (the
  imports of \<open>Host_Imports\<close>).\<close>

datatype host_func =
    WG_resource_drop | WG_resource_clone | WG_resource_get | WG_resource_new
  | WH_init_host_request | WH_on_guest_response | WH_on_guest_error | WH_console_log
  | WH_resource_drop

type_synonym import_name = "string \<times> string"
type_synonym linker = "(import_name \<times> host_func) list"

text \<open>\<open>Linker::func_wrap(module, name, f)\<close>: an error if the name is taken.\<close>

definition func_wrap :: "linker \<Rightarrow> string \<Rightarrow> string \<Rightarrow> host_func \<Rightarrow> linker res" where
  "func_wrap l m n f =
     (if (m, n) \<in> set (map fst l)
      then Inl (LinkError (''import of `'' @ m @ ''::'' @ n @ ''` defined twice''))
      else Inr (l @ [((m, n), f)]))"

definition resolve :: "linker \<Rightarrow> import_name \<Rightarrow> host_func option" where
  "resolve l i = map_of l i"

definition wapc_guest_add_to_linker :: "linker \<Rightarrow> linker res" where
  "wapc_guest_add_to_linker l =
     bind_res (func_wrap l ''canonical_abi'' ''resource_drop_wapc'' WG_resource_drop) (\<lambda>l.
     bind_res (func_wrap l ''canonical_abi'' ''resource_clone_wapc'' WG_resource_clone) (\<lambda>l.
     bind_res (func_wrap l ''canonical_abi'' ''resource_get_wapc'' WG_resource_get) (\<lambda>l.
     func_wrap l ''canonical_abi'' ''resource_new_wapc'' WG_resource_new)))"

definition wapc_host_add_to_linker :: "linker \<Rightarrow> linker res" where
  "wapc_host_add_to_linker l =
     bind_res (func_wrap l ''wapc-host'' ''wapc::init-host-request'' WH_init_host_request) (\<lambda>l.
     bind_res (func_wrap l ''wapc-host'' ''wapc::on-guest-response'' WH_on_guest_response) (\<lambda>l.
     bind_res (func_wrap l ''wapc-host'' ''wapc::on-guest-error'' WH_on_guest_error) (\<lambda>l.
     bind_res (func_wrap l ''wapc-host'' ''wapc::console-log'' WH_console_log) (\<lambda>l.
     func_wrap l ''canonical_abi'' ''resource_drop_wapc'' WH_resource_drop))))"

section \<open>The guest module's imports\<close>

text \<open>The imports of the guest's \<open>wapc_host\<close> module: \<open>Drop\<close> and \<open>Clone\<close> of the host's
  \<open>Wapc\<close> handle, and the four \<open>wapc-host\<close> functions.\<close>

definition wapc_host_guest_imports :: "import_name list" where
  "wapc_host_guest_imports =
     [(''canonical_abi'', ''resource_drop_wapc''), (''canonical_abi'', ''resource_clone_wapc''),
      (''wapc-host'', ''wapc::init-host-request''), (''wapc-host'', ''wapc::on-guest-response''),
      (''wapc-host'', ''wapc::on-guest-error''), (''wapc-host'', ''wapc::console-log'')]"

text \<open>The imports of \<open>HandleType\<close> and \<open>LocalHandle\<close> for the guest's own \<open>Wapc\<close>.\<close>

definition wapc_guest_guest_imports :: "import_name list" where
  "wapc_guest_guest_imports =
     [(''canonical_abi'', ''resource_clone_wapc''), (''canonical_abi'', ''resource_drop_wapc''),
      (''canonical_abi'', ''resource_new_wapc''), (''canonical_abi'', ''resource_get_wapc'')]"

text \<open>\<open>Linker::instantiate\<close>: every import must be defined.\<close>

definition linker_instantiate :: "linker \<Rightarrow> import_name list \<Rightarrow> unit res" where
  "linker_instantiate l imports =
     (if list_all (\<lambda>i. resolve l i \<noteq> None) imports then Inr ()
      else Inl (LinkError ''unknown import''))"

section \<open>\<open>WapcGuest::new\<close> and \<open>WapcGuest::instantiate\<close>\<close>

text \<open>\<open>instance.get_typed_func(&mut store, name)?\<close>.\<close>

definition get_export :: "string list \<Rightarrow> string \<Rightarrow> unit res" where
  "get_export exports name =
     (if name \<in> set exports then Inr () else Inl (LinkError (''failed to find export `'' @ name @ ''`'')))"

definition wapc_guest_new :: "string list \<Rightarrow> 'g world \<Rightarrow> 'g world res" where
  "wapc_guest_new exports w =
     bind_res (get_export exports ''canonical_abi_realloc'') (\<lambda>_.
     bind_res (if ''memory'' \<in> set exports then Inr ()
               else Inl (LinkError ''`memory` export not a memory'')) (\<lambda>_.
     bind_res (get_export exports ''wapc::init-guest-request'') (\<lambda>_.
     bind_res (get_export exports ''wapc::on-host-error'') (\<lambda>_.
     bind_res (get_export exports ''wapc::on-host-response'') (\<lambda>_.
     bind_res (get_export exports ''canonical_abi_drop_wapc'') (\<lambda>_.
       Inr (w\<lparr>w_data := (w_data w)\<lparr>dtor0 := True\<rparr>\<rparr>)))))))"

definition wapc_guest_instantiate ::
  "linker \<Rightarrow> import_name list \<Rightarrow> string list \<Rightarrow> 'g world \<Rightarrow> (linker \<times> 'g world) res" where
  "wapc_guest_instantiate l imports exports w =
     bind_res (wapc_guest_add_to_linker l) (\<lambda>l.
     bind_res (linker_instantiate l imports) (\<lambda>_.
     bind_res (wapc_guest_new exports w) (\<lambda>w. Inr (l, w))))"

lemma func_wrap_Inr:
  "func_wrap l m n f = Inr l' \<longleftrightarrow> (m, n) \<notin> set (map fst l) \<and> l' = l @ [((m, n), f)]"
  by (auto simp: func_wrap_def)

lemma func_wrap_keeps: "func_wrap l m n f = Inr l' \<Longrightarrow> set (map fst l) \<subseteq> set (map fst l')"
  by (auto simp: func_wrap_Inr)

lemma wapc_host_add_to_linker_defines:
  "wapc_host_add_to_linker l = Inr l' \<Longrightarrow> (''canonical_abi'', ''resource_drop_wapc'') \<in> set (map fst l')"
  by (auto simp: wapc_host_add_to_linker_def bind_res_eq_Inr func_wrap_Inr)

lemma wapc_guest_add_to_linker_defines:
  "wapc_guest_add_to_linker l = Inr l' \<Longrightarrow> (''canonical_abi'', ''resource_drop_wapc'') \<in> set (map fst l')"
  by (auto simp: wapc_guest_add_to_linker_def bind_res_eq_Inr func_wrap_Inr)

lemma wapc_guest_add_to_linker_dup:
  "(''canonical_abi'', ''resource_drop_wapc'') \<in> set (map fst l) \<Longrightarrow>
   wapc_guest_add_to_linker l = Inl (LinkError ''import of `canonical_abi::resource_drop_wapc` defined twice'')"
  by (simp add: wapc_guest_add_to_linker_def func_wrap_def)

lemma wapc_host_add_to_linker_dup:
  assumes "(''canonical_abi'', ''resource_drop_wapc'') \<in> set (map fst l)"
    and "wapc_host_add_to_linker l = Inr l'"
  shows False
  using assms by (auto simp: wapc_host_add_to_linker_def bind_res_eq_Inr func_wrap_Inr)

lemma wapc_guest_new_sets_dtor:
  "wapc_guest_new exports w = Inr w' \<Longrightarrow> w_data w' = (w_data w)\<lparr>dtor0 := True\<rparr>"
  by (auto simp: wapc_guest_new_def bind_res_eq_Inr get_export_def split: if_splits)

end
