(* ===== verification/Intrinsics_Spec.thy ===== *)
theory Intrinsics_Spec
  imports Host_Intrinsics
begin

text \<open>
  The contract of the guest's four \<open>canonical_abi\<close> calls, stated on the abstraction of
  \<open>WapcGuestData\<close> to two partial maps: handles to resource indices (the \<open>IndexSlab\<close>,
  spec 4.1) and resource indices to value and reference count (the \<open>ResourceSlab\<close>,
  spec 4.2). \<open>intrinsic_spec\<close> is the step relation of the contract: a new resource gets
  a fresh handle and a fresh index with count 1; get reads; clone adds a fresh handle and
  a reference; drop removes the handle and a reference and frees the resource with its
  last reference. One lemma per intrinsic shows that the code takes a step of the contract.
\<close>

text \<open>Handles and resources as partial maps, indexed by \<open>usize\<close>.\<close>

type_synonym intr_abs = "(nat \<rightharpoonup> resource_index) \<times> (nat \<rightharpoonup> i32 \<times> u32)"

definition abs_data :: "wapc_guest_data \<Rightarrow> intr_abs" where
  "abs_data d = (slab_lookup (index_slab0 d), rs_lookup (resource_slab0 d))"

inductive intrinsic_spec :: "guest_call \<Rightarrow> intr_abs \<Rightarrow> i32 \<Rightarrow> intr_abs \<Rightarrow> bool" where
  spec_new: "H (unat h) = None \<Longrightarrow> R (unat ri) = None \<Longrightarrow>
     intrinsic_spec (CallNew v) (H, R) h (H(unat h \<mapsto> ri), R(unat ri \<mapsto> (v, 1)))"
| spec_get: "H (unat h) = Some ri \<Longrightarrow> R (unat ri) = Some (v, n) \<Longrightarrow>
     intrinsic_spec (CallGet h) (H, R) v (H, R)"
| spec_clone: "H (unat h) = Some ri \<Longrightarrow> R (unat ri) = Some (v, n) \<Longrightarrow> n \<noteq> - 1 \<Longrightarrow>
     H (unat h') = None \<Longrightarrow>
     intrinsic_spec (CallClone h) (H, R) h' (H(unat h' \<mapsto> ri), R(unat ri \<mapsto> (v, n + 1)))"
| spec_drop: "H (unat h) = Some ri \<Longrightarrow> R (unat ri) = Some (v, n) \<Longrightarrow> n \<noteq> 1 \<Longrightarrow>
     intrinsic_spec (CallDrop h) (H, R) 0 (H(unat h := None), R(unat ri \<mapsto> (v, n - 1)))"
| spec_drop_last: "H (unat h) = Some ri \<Longrightarrow> R (unat ri) = Some (v, 1) \<Longrightarrow>
     intrinsic_spec (CallDrop h) (H, R) 0 (H(unat h := None), R(unat ri := None))"

inductive_cases intrinsic_spec_dropE: "intrinsic_spec (CallDrop h) A r A'"
inductive_cases intrinsic_spec_getE: "intrinsic_spec (CallGet h) A r A'"

lemma new_refines:
  assumes wf: "gd_wf (w_data w)" and cap: "Suc (length (rs_slab (resource_slab0 (w_data w)))) < 2 ^ 31"
    and ok: "resource_new_wapc w v = Inr (w', h)"
  shows "intrinsic_spec (CallNew v) (abs_data (w_data w)) h (abs_data (w_data w'))"
proof -
  from ok obtain ri rs is1 where ins: "rs_insert (resource_slab0 (w_data w)) v = Inr (ri, rs)"
    and ix: "slab_insert (index_slab0 (w_data w)) ri = Inr (h, is1)" and w': "w' = set_data w is1 rs"
    by (auto simp: resource_new_wapc_def bind_res_eq_Inr)
  from rs_insert_lookup [OF gd_wfD(2) [OF wf] cap ins] slab_insert_lookup [OF ix] show ?thesis
    by (auto simp: abs_data_def w' set_data_def intro: spec_new)
qed

lemma get_refines:
  assumes wf: "gd_wf (w_data w)" and ok: "resource_get_wapc w h = Inr v"
  shows "intrinsic_spec (CallGet h) (abs_data (w_data w)) v (abs_data (w_data w))"
proof -
  from ok obtain ri where g: "slab_get (index_slab0 (w_data w)) h = Inr ri"
    and r: "rs_get (resource_slab0 (w_data w)) ri = Inr v"
    by (auto simp: resource_get_wapc_def bind_res_eq_Inr)
  from backed_live [OF gd_wfD(3) [OF wf] g] obtain v' n
    where lk: "rs_lookup (resource_slab0 (w_data w)) (unat ri) = Some (v', n)" by blast
  with r have "v' = v" by (simp add: rs_get_def rs_slot_live)
  with lk g show ?thesis by (auto simp: abs_data_def slab_get_Inr intro: spec_get)
qed

lemma clone_refines:
  assumes wf: "gd_wf (w_data w)" and ok: "resource_clone_wapc w h = Inr (w', h')"
  shows "intrinsic_spec (CallClone h) (abs_data (w_data w)) h' (abs_data (w_data w'))"
proof -
  from ok obtain ri rs is1 where g: "slab_get (index_slab0 (w_data w)) h = Inr ri"
    and cl: "rs_clone (resource_slab0 (w_data w)) ri = Inr rs"
    and ix: "slab_insert (index_slab0 (w_data w)) ri = Inr (h', is1)" and w': "w' = set_data w is1 rs"
    by (auto simp: resource_clone_wapc_def bind_res_eq_Inr)
  from backed_live [OF gd_wfD(3) [OF wf] g] obtain v n
    where lk: "rs_lookup (resource_slab0 (w_data w)) (unat ri) = Some (v, n)" by blast
  have nmax: "n \<noteq> - 1" using cl lk rs_clone_overflow by force
  from rs_clone_lookup [OF lk nmax cl] slab_insert_lookup [OF ix] g lk nmax show ?thesis
    by (auto simp: abs_data_def w' set_data_def slab_get_Inr intro: spec_clone)
qed

lemma drop_refines:
  assumes wf: "gd_wf (w_data w)" and kd: "keeps_data dtor" and ok: "resource_drop_wapc dtor w h = Inr w'"
  shows "intrinsic_spec (CallDrop h) (abs_data (w_data w)) 0 (abs_data (w_data w'))"
proof -
  from resource_drop_wapc_Inr [OF kd ok] obtain ri is1 fin rs
    where rm: "slab_remove (index_slab0 (w_data w)) h = Inr (ri, is1)"
      and dr: "rs_drop (resource_slab0 (w_data w)) ri = Inr (fin, rs)"
      and d: "w_data w' = (w_data w)\<lparr>index_slab0 := is1, resource_slab0 := rs\<rparr>" .
  from rm have hl: "slab_lookup (index_slab0 (w_data w)) (unat h) = Some ri"
    and is1: "is1 = slab_release (index_slab0 (w_data w)) (unat h)"
    by (simp_all add: slab_remove_Inr)
  then have g: "slab_get (index_slab0 (w_data w)) h = Inr ri" by (simp add: slab_get_Inr)
  from backed_live [OF gd_wfD(3) [OF wf] g] obtain v n
    where lk: "rs_lookup (resource_slab0 (w_data w)) (unat ri) = Some (v, n)" by blast
  show ?thesis
  proof (cases "n = 1")
    case True
    from rs_drop_last_lookup [OF gd_wfD(2) [OF wf] lk [unfolded True] dr] hl lk True show ?thesis
      by (auto simp: abs_data_def d is1 slab_lookup_release intro: spec_drop_last)
  next
    case False
    from rs_drop_shared_lookup [OF lk False dr] hl lk False show ?thesis
      by (auto simp: abs_data_def d is1 slab_lookup_release intro: spec_drop)
  qed
qed

end
