(* ===== verification/Spec2Isabelle.thy ===== *)
theory Spec2Isabelle
  imports Host_Imports Guest_Calls Lifecycle Linking Intrinsics_Spec
begin

text \<open>
  \<^bold>\<open>A verification library for the waPC bindings of jsoverson/wit-example.\<close>

  The repository holds the bindings that \<open>wit-bindgen\<close> generated for one interface with a
  resource type \<open>wapc\<close>, in both directions between a wasmtime host and a wasm guest:
  \<open>src/host/bindings.rs\<close> (module \<open>wapc_guest\<close>: the host's side of the guest-exported
  resource; module \<open>wapc_host\<close>: the host-exported functions) and \<open>src/guest/bindings.rs\<close>
  (the guest's import stubs, handle wrappers and export shims). The guest holds a host-side
  resource only through a \<open>u32\<close> handle: an index into the host's \<open>IndexSlab\<close>, which names
  a slot of the refcounted \<open>ResourceSlab\<close>. Both tables, the \<open>Table\<close> of host-exported
  resources, the \<open>BorrowChecker\<close> and \<open>RawMem\<close> live in the runtime crate
  \<open>wit_bindgen_wasmtime\<close>, which is not part of the repository; they are modelled from the
  spec (sections 4.1 to 4.3) with the layout of the crate.

  Model. Machine integers are \<open>32 word\<close> and \<open>8 word\<close>; every trap, panic and \<open>?\<close> of the
  code is a value of \<open>error + 'a\<close>. The store the host threads through a call is a record
  \<open>'g world\<close> (guest memory, \<open>WapcGuestData\<close>, the guest's own state) passed explicitly;
  a call into wasm returns the store with its result, so a trap keeps the effects before it.
  Guest code (allocator, destructor, the user's trait methods) and the host's \<open>WapcHost\<close>
  implementation are parameters of the definitions.

  Theories, leaf first:
  \<^item> \<open>Prelude\<close>: \<open>u32\<close>/\<open>i32\<close> as \<open>32 word\<close>, bytes, the \<open>as\<close> casts (\<open>host_usize_of_i32\<close>
    sign-extends on the 64-bit host), \<open>checked_add(1)\<close>, the \<open>error\<close> values, \<open>bind_res\<close>.
  \<^item> \<open>Slab\<close>: the free-list table (\<open>IndexSlab\<close>, \<open>Table\<close>): insert, get, remove;
    \<open>slab_wf\<close> (the free list visits exactly the empty entries, once; checked with fuel
    equal to the length, which \<open>slab_wf_iff\<close> shows is enough); \<open>slab_step_refines\<close>:
    every call refines the contract \<open>table_spec\<close> of spec 4.1 and keeps \<open>slab_wf\<close>.
  \<^item> \<open>Resource_Slab\<close>: \<open>ResourceSlab\<close> insert, get, clone, drop, seen through \<open>rs_view\<close>
    as a slab of (value, count) pairs; clone and drop change exactly the count; the last
    drop frees the slot and returns the value for the destructor.
  \<^item> \<open>Host_Intrinsics\<close>: \<open>WapcGuestData\<close>, the four \<open>canonical_abi\<close> closures
    \<open>resource_{new,get,clone,drop}_wapc\<close> of \<open>WapcGuest::add_to_linker\<close>, the host's
    \<open>WapcGuest::drop_wapc\<close>, the guest's calls into them (\<open>guest_intrinsic\<close>, from
    \<open>HandleType\<close>/\<open>LocalHandle\<close>), the invariant \<open>gd_wf\<close> and its preservation, and the
    traps each intrinsic can raise.
  \<^item> \<open>Intrinsics_Spec\<close>: the abstract contract \<open>intrinsic_spec\<close> of the four intrinsics
    on (handle map, resource map) and one refinement lemma per intrinsic.
  \<^item> \<open>Lifecycle\<close>: runs of clones and drops; a logging destructor records finalisation.
  \<^item> \<open>Guest_Memory\<close>: \<open>BorrowChecker::slice\<close>/\<open>slice_str\<close> with the UTF-8 check of
    \<open>std::str::from_utf8\<close>, \<open>RawMem::store_many\<close>, wasm loads; write/read round trips.
  \<^item> \<open>Host_Imports\<close>: \<open>wapc_host::add_to_linker\<close>'s five imports over the host state
    (\<open>WapcHost\<close> as a record of functions, \<open>WapcHostTables\<close>) and the guest stubs of
    \<open>wapc_host::Wapc\<close> that call them.
  \<^item> \<open>Guest_Calls\<close>: \<open>WapcGuest::wapc_init_guest_request\<close>, \<open>wapc_on_host_response\<close>,
    \<open>wapc_on_host_error\<close> (lend a handle, copy the buffers, call the export) and the guest's
    export shims (read the buffers, call the user's method, return the lent handle).
  \<^item> \<open>Linking\<close>: the linker as a map from import names, both \<open>add_to_linker\<close>
    registrations, the guest's import lists, \<open>WapcGuest::new\<close> and \<open>instantiate\<close>.
  \<^item> this theory: the properties C1 to C17 that span components, each with a witness on
    a concrete state; sections follow the components above.

  What the properties show: the handle invariant is kept by every guest call (C1) and the
  calls refine the contract of spec 4.1/4.2 (C17); a resource is finalised exactly once,
  at its last drop, in any drop order (C2); once \<open>WapcGuest::new\<close> has set the destructor,
  the runtime never panics on any handle value (C3); lending a handle to the guest for a host-to-guest call is undone when the call
  completes (C4, C8) and leaks when it traps (C7); stale handles trap before memory is
  read (C5) but a freed guest handle is reissued and then reads the new resource (C6);
  bytes and ids cross the boundary unchanged (C9, C10, C16), out-of-range and ill-formed
  input is rejected whole (C14, C15); host handles are dropped at most once (C11); the
  two generated modules cannot share a linker (C12); a drop before \<open>new\<close> panics (C13).

  Bounds and assumptions: the handle table holds fewer than \<open>2^32\<close> entries (beyond,
  \<open>insert\<close> panics on \<open>u32::try_from\<close>), the resource slab fewer than \<open>2^31\<close> (its free
  links are stored as \<open>i32\<close> and sign-extended on the host), guest memory fewer than
  \<open>2^32\<close> bytes (wasm32). Where a property needs it, guest code is assumed to leave the
  host's tables alone (\<open>keeps_data\<close>, \<open>realloc_keeps_data\<close>, \<open>request_keeps_data\<close>,
  \<open>response_keeps_data\<close>): it may still call the intrinsics, but then the property is
  about the combined run. The only fuel of the model is that of the free-list walk
  \<open>free_walk\<close> inside \<open>slab_wf\<close>; the length of the table is enough (\<open>slab_wf_iff\<close>).

  Not modelled: the correlation of invocation ids (no code in the repository does it; the
  bindings pass ids through, C10); \<open>Wapc::from_raw\<close>/\<open>into_raw\<close>/\<open>as_raw\<close>, which only
  move an \<open>i32\<close>; the types of exports checked by \<open>get_typed_func\<close>; the mutable-borrow
  bookkeeping of the \<open>BorrowChecker\<close> (the bindings take shared slices only); the guest's
  allocator beyond its contract; that the operation string of \<open>init_guest_request\<close>
  survives the allocation of the payload buffer (it depends on the allocator not reusing
  the first buffer, which the model leaves to the allocator).
\<close>

section \<open>Handles\<close>

abbreviation one_handle_world :: "unit world" where
  "one_handle_world \<equiv>
     \<lparr>w_mem = [],
      w_data = \<lparr>index_slab0 = \<lparr>slab_entries = [Taken 0], slab_next = 1\<rparr>,
                resource_slab0 = \<lparr>rs_slab = [\<lparr>wasm = 42, refcnt = 1\<rparr>], rs_next = 1\<rparr>,
                dtor0 = True\<rparr>,
      w_guest = ()\<rparr>"

abbreviation demo_host :: "(nat, nat) wapc_host_impl" where
  "demo_host \<equiv>
     \<lparr>init_host_request_impl = (\<lambda>h r b n op p. (h + 1, word_of_nat (length p))),
      on_guest_response_impl = (\<lambda>h r i p. h + unat i),
      on_guest_error_impl = (\<lambda>h r i p. h + 2 * unat i),
      console_log_impl = (\<lambda>h r m. h + length m),
      drop_wapc_impl = (\<lambda>h r. h + r)\<rparr>"

abbreviation demo_host_state :: "(nat, nat) host_state" where
  "demo_host_state \<equiv>
     \<lparr>hs_mem = [0x61, 0x62, 1, 2], hs_host = 0,
      hs_tables = \<lparr>wapc_table = \<lparr>slab_entries = [Taken 7, Empty 2], slab_next = 1\<rparr>\<rparr>\<rparr>"

abbreviation echo_guest :: "unit wapc_guest_impl" where
  "echo_guest \<equiv>
     \<lparr>init_guest_request_impl = (\<lambda>w h op pl. (w, Inr (word_of_nat (length op + length pl)))),
      on_host_response_impl = (\<lambda>w h i c b. (w, Inr ())),
      on_host_error_impl = (\<lambda>w h i b. (w, Inr ())),
      drop_wapc_guest_impl = (\<lambda>w v. (w, Inr ()))\<rparr>"

abbreviation bump_guest :: "unit wapc_guest" where
  "bump_guest \<equiv>
     \<lparr>canonical_abi_realloc = (\<lambda>w a b c n.
        (w\<lparr>w_mem := w_mem w @ replicate (unat n) 0\<rparr>, Inr (word_of_nat (length (w_mem w))))),
      wapc_init_guest_request_fn = export_init_guest_request echo_guest (export_drop_wapc echo_guest),
      wapc_on_host_error_fn = export_on_host_error echo_guest (export_drop_wapc echo_guest),
      wapc_on_host_response_fn = export_on_host_response echo_guest (export_drop_wapc echo_guest)\<rparr>"

abbreviation lent_world :: "bytes \<Rightarrow> unit world" where
  "lent_world m \<equiv>
     \<lparr>w_mem = m,
      w_data = \<lparr>index_slab0 = \<lparr>slab_entries = [Taken 0, Empty 2], slab_next = 1\<rparr>,
                resource_slab0 = \<lparr>rs_slab = [\<lparr>wasm = 42, refcnt = 1\<rparr>], rs_next = 1\<rparr>,
                dtor0 = True\<rparr>,
      w_guest = ()\<rparr>"

abbreviation log_world :: "i32 list world" where
  "log_world \<equiv>
     \<lparr>w_mem = [],
      w_data = \<lparr>index_slab0 = \<lparr>slab_entries = [Taken 0], slab_next = 1\<rparr>,
                resource_slab0 = \<lparr>rs_slab = [\<lparr>wasm = 42, refcnt = 1\<rparr>], rs_next = 1\<rparr>,
                dtor0 = True\<rparr>,
      w_guest = []\<rparr>"

text \<open>
  C1. Every handle the guest holds names a live resource whose reference count covers all
  handles naming it, and both tables stay well formed: each of the guest's four
  \<open>canonical_abi\<close> calls keeps this invariant (for a destructor that leaves the tables
  alone and a resource table below \<open>2^31\<close> slots). A handle never outlives its resource.
\<close>

theorem guest_intrinsic_preserves_wf:
  assumes "gd_wf (w_data w)" and "keeps_data dtor"
    and "Suc (length (rs_slab (resource_slab0 (w_data w)))) < 2 ^ 31"
    and "guest_intrinsic dtor w c = Inr (w', r)"
  shows "gd_wf (w_data w')"
proof (cases c)
  case (CallNew v)
  with assms show ?thesis by (auto intro: resource_new_wapc_wf simp: guest_intrinsic_def)
next
  case (CallGet h)
  with assms show ?thesis by (auto simp: guest_intrinsic_def bind_res_eq_Inr)
next
  case (CallClone h)
  with assms show ?thesis by (auto intro: resource_clone_wapc_wf simp: guest_intrinsic_def)
next
  case (CallDrop h)
  with assms show ?thesis
    by (auto intro: resource_drop_wapc_wf simp: guest_intrinsic_def bind_res_eq_Inr)
qed

theorem guest_intrinsic_preserves_wf_witness:
  "gd_wf (w_data one_handle_world) \<and> keeps_data (\<lambda>w v. Inr w :: unit world res)
   \<and> Suc (length (rs_slab (resource_slab0 (w_data one_handle_world)))) < 2 ^ 31
   \<and> guest_intrinsic (\<lambda>w v. Inr w) one_handle_world (CallClone 0) =
        Inr (one_handle_world\<lparr>w_data := \<lparr>index_slab0 = \<lparr>slab_entries = [Taken 0, Taken 0], slab_next = 2\<rparr>,
               resource_slab0 = \<lparr>rs_slab = [\<lparr>wasm = 42, refcnt = 2\<rparr>], rs_next = 1\<rparr>, dtor0 = True\<rparr>\<rparr>, 1)
   \<and> gd_wf \<lparr>index_slab0 = \<lparr>slab_entries = [Taken 0, Taken 0], slab_next = 2\<rparr>,
               resource_slab0 = \<lparr>rs_slab = [\<lparr>wasm = 42, refcnt = 2\<rparr>], rs_next = 1\<rparr>, dtor0 = True\<rparr>"
proof -
  have wf: "gd_wf (w_data one_handle_world)" by code_simp
  have kd: "keeps_data (\<lambda>w v. Inr w :: unit world res)" by (simp add: keeps_data_def)
  have cap: "Suc (length (rs_slab (resource_slab0 (w_data one_handle_world)))) < 2 ^ 31" by simp
  have run: "guest_intrinsic (\<lambda>w v. Inr w) one_handle_world (CallClone 0) =
        Inr (one_handle_world\<lparr>w_data := \<lparr>index_slab0 = \<lparr>slab_entries = [Taken 0, Taken 0], slab_next = 2\<rparr>,
               resource_slab0 = \<lparr>rs_slab = [\<lparr>wasm = 42, refcnt = 2\<rparr>], rs_next = 1\<rparr>, dtor0 = True\<rparr>\<rparr>, 1)"
    by code_simp
  from guest_intrinsic_preserves_wf [OF wf kd cap run] wf kd cap run show ?thesis by simp
qed

text \<open>
  C3. Once \<open>WapcGuest::new\<close> has set the destructor (\<open>dtor0\<close>), under that invariant the
  runtime's assertions never fire: a guest call on any handle value, stale or forged,
  either succeeds or traps with \<open>InvalidHandle\<close>, with \<open>ResourceOverflow\<close> (a count at
  \<open>u32::MAX\<close>), or with the trap of the guest's own destructor; it never panics (within the
  capacity bounds). Without \<open>dtor0\<close> a drop panics instead (C13).
\<close>

theorem guest_intrinsic_no_panic:
  assumes wf: "gd_wf (w_data w)" and set: "dtor0 (w_data w)"
    and cap: "Suc (length (rs_slab (resource_slab0 (w_data w)))) < 2 ^ 31"
    and hcap: "length (slab_entries (index_slab0 (w_data w))) < 2 ^ 32"
    and err: "guest_intrinsic dtor w c = Inl e"
  shows "e = InvalidHandle \<or> e = ResourceOverflow \<or> (\<exists>w' v. dtor w' v = Inl e)"
proof (cases c)
  case (CallNew v)
  with err resource_new_wapc_total [OF wf cap hcap, of v] show ?thesis
    by (auto simp: guest_intrinsic_def)
next
  case (CallGet h)
  with err resource_get_wapc_Inl [OF gd_wfD(3) [OF wf]] show ?thesis
    by (auto simp: guest_intrinsic_def bind_res_eq_Inl)
next
  case (CallClone h)
  with err resource_clone_wapc_Inl [OF gd_wfD(3,1) [OF wf] hcap] show ?thesis
    by (auto simp: guest_intrinsic_def)
next
  case (CallDrop h)
  with err resource_drop_wapc_Inl [OF gd_wfD(3) [OF wf] set] show ?thesis
    by (auto simp: guest_intrinsic_def bind_res_eq_Inl)
qed

theorem guest_intrinsic_no_panic_witness:
  "guest_intrinsic (\<lambda>w v. Inr w) one_handle_world (CallGet 5) = Inl InvalidHandle
   \<and> (InvalidHandle = InvalidHandle \<or> InvalidHandle = ResourceOverflow
      \<or> (\<exists>w' v. ((\<lambda>w v. Inr w) :: unit dtor_fn) w' v = Inl InvalidHandle))"
proof -
  have wf: "gd_wf (w_data one_handle_world)" by code_simp
  have set: "dtor0 (w_data one_handle_world)" by simp
  have cap: "Suc (length (rs_slab (resource_slab0 (w_data one_handle_world)))) < 2 ^ 31" by simp
  have hcap: "length (slab_entries (index_slab0 (w_data one_handle_world))) < 2 ^ 32" by simp
  have err: "guest_intrinsic (\<lambda>w v. Inr w) one_handle_world (CallGet 5) = Inl InvalidHandle"
    by code_simp
  from guest_intrinsic_no_panic [OF wf set cap hcap err] err show ?thesis by simp
qed

text \<open>
  C6. Handle values are reused at once and without generation: after the guest drops
  handle \<open>h\<close>, the next \<open>resource_new_wapc\<close> hands out \<open>h\<close> again, and a stale copy of
  \<open>h\<close> now reads the new resource instead of failing with \<open>InvalidHandle\<close>.
\<close>

theorem stale_handle_reused:
  assumes "rs_wf (resource_slab0 (w_data w))" and "keeps_data dtor"
    and "resource_drop_wapc dtor w h = Inr w1"
    and "resource_new_wapc w1 v = Inr (w2, h')"
  shows "h' = h \<and> resource_get_wapc w2 h = Inr v"
proof -
  from assms(2,3) obtain ri isl fin rs
    where rm: "slab_remove (index_slab0 (w_data w)) h = Inr (ri, isl)"
      and dr: "rs_drop (resource_slab0 (w_data w)) ri = Inr (fin, rs)"
      and d1: "w_data w1 = (w_data w)\<lparr>index_slab0 := isl, resource_slab0 := rs\<rparr>"
    by (rule resource_drop_wapc_Inr)
  from assms(4) d1 obtain ri' rs' isl'
    where ins: "rs_insert rs v = Inr (ri', rs')"
      and ix: "slab_insert isl ri' = Inr (h', isl')"
      and d2: "w_data w2 = (w_data w1)\<lparr>index_slab0 := isl', resource_slab0 := rs'\<rparr>"
    by (auto simp: resource_new_wapc_def bind_res_eq_Inr set_data_def)
  from slab_remove_reinsert [OF rm ix] have h': "h' = h" and g: "slab_get isl' h = Inr ri'"
    by simp_all
  have "length (rs_slab rs) < 2 ^ 31"
    using assms(1) rs_drop_length [OF dr] by (simp add: rs_wf_def)
  then have "rs_get rs' ri' = Inr v" using ins by (simp add: rs_insert_get)
  with g h' d2 show ?thesis by (simp add: resource_get_wapc_def)
qed

theorem stale_handle_reused_witness:
  "\<exists>w1 w2. resource_drop_wapc (\<lambda>w v. Inr w) one_handle_world 0 = Inr w1
     \<and> resource_new_wapc w1 99 = Inr (w2, 0) \<and> resource_get_wapc w2 0 = Inr 99"
proof -
  let ?w1 = "one_handle_world\<lparr>w_data := \<lparr>index_slab0 = \<lparr>slab_entries = [Empty 1], slab_next = 0\<rparr>,
               resource_slab0 = \<lparr>rs_slab = [\<lparr>wasm = 1, refcnt = 0\<rparr>], rs_next = 0\<rparr>, dtor0 = True\<rparr>\<rparr>"
  let ?w2 = "one_handle_world\<lparr>w_data := \<lparr>index_slab0 = \<lparr>slab_entries = [Taken 0], slab_next = 1\<rparr>,
               resource_slab0 = \<lparr>rs_slab = [\<lparr>wasm = 99, refcnt = 1\<rparr>], rs_next = 1\<rparr>, dtor0 = True\<rparr>\<rparr>"
  have wf: "rs_wf (resource_slab0 (w_data one_handle_world))" by code_simp
  have kd: "keeps_data (\<lambda>w v. Inr w :: unit world res)" by (simp add: keeps_data_def)
  have d: "resource_drop_wapc (\<lambda>w v. Inr w) one_handle_world 0 = Inr ?w1" by code_simp
  have n: "resource_new_wapc ?w1 99 = Inr (?w2, 0)" by code_simp
  from stale_handle_reused [OF wf kd d n] have "resource_get_wapc ?w2 0 = Inr 99" by simp
  with d n show ?thesis by blast
qed


section \<open>The host-exported interface \<open>wapc-host\<close>\<close>

text \<open>
  C5. A stale or forged host handle is rejected before anything else: each import of
  \<open>wapc_host::add_to_linker\<close> looks the handle up in \<open>wapc_table\<close> before it reads guest
  memory, so for any memory and any address arguments it traps with
  \<open>invalid handle index\<close> (\<open>failed to remove handle\<close> for the drop) and the host's
  implementation is not called. This includes \<open>console-log\<close>, which the spec says never
  fails.
\<close>

theorem wapc_host_imports_stale_handle:
  assumes "table_get (wapc_table (hs_tables st)) h = None"
  shows "import_init_host_request H st h a1 a2 a3 a4 a5 a6 a7 a8 = Inl InvalidHandleIndex
       \<and> import_on_guest_response H st h a1 a2 a3 = Inl InvalidHandleIndex
       \<and> import_on_guest_error H st h a1 a2 a3 = Inl InvalidHandleIndex
       \<and> import_console_log H st h a1 a2 = Inl InvalidHandleIndex
       \<and> import_resource_drop H st h = Inl RemoveHandleFailed"
  using assms
  by (simp add: import_init_host_request_def import_on_guest_response_def host_lookup_stale
                import_on_guest_error_def import_console_log_def import_resource_drop_def
                table_remove_None)

theorem wapc_host_imports_stale_handle_witness:
  "import_init_host_request demo_host demo_host_state 1 (-1) 5 0 0 0 0 0 0 = Inl InvalidHandleIndex
   \<and> import_on_guest_response demo_host demo_host_state 1 (-1) 5 0 = Inl InvalidHandleIndex
   \<and> import_on_guest_error demo_host demo_host_state 1 (-1) 5 0 = Inl InvalidHandleIndex
   \<and> import_console_log demo_host demo_host_state 1 (-1) 5 = Inl InvalidHandleIndex
   \<and> import_resource_drop demo_host demo_host_state 1 = Inl RemoveHandleFailed"
proof -
  have "table_get (wapc_table (hs_tables demo_host_state)) 1 = None" by code_simp
  from wapc_host_imports_stale_handle [OF this] show ?thesis .
qed

text \<open>
  C9. What the guest passes reaches the host unchanged: when the guest calls
  \<open>Wapc::init_host_request\<close> on a live handle with strings and a payload that lie in its
  memory, the host's \<open>wapc_init_host_request\<close> receives the resource of the handle and
  exactly those four byte sequences, and the guest gets back exactly the host's status
  code.
\<close>

theorem init_host_request_passes_bytes:
  assumes "table_get (wapc_table (hs_tables st)) self0 = Some r"
    and "length (hs_mem st) < 2 ^ 32"
    and "slice_at (hs_mem st) p0 s0" and "slice_at (hs_mem st) p1 s1"
    and "slice_at (hs_mem st) p2 s2" and "slice_at (hs_mem st) p3 s3"
    and "utf8_valid s0" and "utf8_valid s1" and "utf8_valid s2"
  shows "guest_init_host_request H st self0 (p0, s0) (p1, s1) (p2, s2) (p3, s3) =
           Inr (st\<lparr>hs_host := fst (init_host_request_impl H (hs_host st) r s0 s1 s2 s3)\<rparr>,
                snd (init_host_request_impl H (hs_host st) r s0 s1 s2 s3))"
  using assms
  by (simp add: guest_init_host_request_def import_init_host_request_def host_lookup_def
                slice_at_bc_slice slice_at_bc_slice_str split: prod.split)

theorem init_host_request_passes_bytes_witness:
  "guest_init_host_request demo_host demo_host_state 0 (0, [0x61]) (1, [0x62]) (0, [0x61, 0x62])
     (2, [1, 2]) = Inr (demo_host_state\<lparr>hs_host := 1\<rparr>, 2)"
proof -
  have t: "table_get (wapc_table (hs_tables demo_host_state)) 0 = Some 7" by code_simp
  have m: "length (hs_mem demo_host_state) < 2 ^ 32" by simp
  have a0: "slice_at (hs_mem demo_host_state) 0 [0x61]" by code_simp
  have a1: "slice_at (hs_mem demo_host_state) 1 [0x62]" by code_simp
  have a2: "slice_at (hs_mem demo_host_state) 0 [0x61, 0x62]" by code_simp
  have a3: "slice_at (hs_mem demo_host_state) 2 [1, 2]" by code_simp
  have u0: "utf8_valid [0x61]" and u1: "utf8_valid [0x62]" and u2: "utf8_valid [0x61, 0x62]"
    by code_simp+
  from init_host_request_passes_bytes [OF t m a0 a1 a2 a3 u0 u1 u2, of demo_host] show ?thesis
    by simp
qed

text \<open>
  C10. The invocation id and the payload of \<open>on_guest_response\<close> and \<open>on_guest_error\<close>
  are passed to the host unmodified (spec 4.4: the layer passes the id through; the host
  correlates it).
\<close>

theorem guest_callbacks_pass_id:
  assumes "table_get (wapc_table (hs_tables st)) self0 = Some r"
    and "length (hs_mem st) < 2 ^ 32" and "slice_at (hs_mem st) p bs"
  shows "guest_on_guest_response H st self0 id0 (p, bs) =
           Inr (st\<lparr>hs_host := on_guest_response_impl H (hs_host st) r id0 bs\<rparr>)
       \<and> guest_on_guest_error H st self0 id0 (p, bs) =
           Inr (st\<lparr>hs_host := on_guest_error_impl H (hs_host st) r id0 bs\<rparr>)"
  using assms
  by (simp add: guest_on_guest_response_def guest_on_guest_error_def host_lookup_def
                import_on_guest_response_def import_on_guest_error_def slice_at_bc_slice)

theorem guest_callbacks_pass_id_witness:
  "guest_on_guest_response demo_host demo_host_state 0 7 (2, [1, 2]) = Inr (demo_host_state\<lparr>hs_host := 7\<rparr>)
   \<and> guest_on_guest_error demo_host demo_host_state 0 7 (2, [1, 2]) = Inr (demo_host_state\<lparr>hs_host := 14\<rparr>)"
proof -
  have t: "table_get (wapc_table (hs_tables demo_host_state)) 0 = Some 7" by code_simp
  have m: "length (hs_mem demo_host_state) < 2 ^ 32" by simp
  have a: "slice_at (hs_mem demo_host_state) 2 [1, 2]" by code_simp
  from guest_callbacks_pass_id [OF t m a, of demo_host 7] show ?thesis by simp
qed

text \<open>
  C11. A host resource handle is dropped at most once: the \<open>canonical_abi\<close> drop import of
  \<open>wapc_host\<close> hands the handle's resource to \<open>WapcHost::drop_wapc\<close> and unmaps the
  handle, so every later use of it traps and a second drop fails.
\<close>

theorem host_resource_drop_once:
  assumes "import_resource_drop H st h = Inr st'"
  shows "(\<exists>r. table_get (wapc_table (hs_tables st)) h = Some r
              \<and> hs_host st' = drop_wapc_impl H (hs_host st) r)
       \<and> import_resource_drop H st' h = Inl RemoveHandleFailed
       \<and> host_lookup st' h = Inl InvalidHandleIndex"
  using assms
  by (auto simp: import_resource_drop_def bind_res_eq_Inr table_remove_Inr table_remove_None
                 host_lookup_stale)

theorem host_resource_drop_once_witness:
  "import_resource_drop demo_host demo_host_state 0 =
     Inr (demo_host_state\<lparr>hs_host := 7,
            hs_tables := \<lparr>wapc_table = \<lparr>slab_entries = [Empty 1, Empty 2], slab_next = 0\<rparr>\<rparr>\<rparr>)
   \<and> import_resource_drop demo_host (demo_host_state\<lparr>hs_host := 7,
            hs_tables := \<lparr>wapc_table = \<lparr>slab_entries = [Empty 1, Empty 2], slab_next = 0\<rparr>\<rparr>\<rparr>) 0
       = Inl RemoveHandleFailed"
proof -
  have d: "import_resource_drop demo_host demo_host_state 0 =
     Inr (demo_host_state\<lparr>hs_host := 7,
            hs_tables := \<lparr>wapc_table = \<lparr>slab_entries = [Empty 1, Empty 2], slab_next = 0\<rparr>\<rparr>\<rparr>)"
    by code_simp
  from host_resource_drop_once [OF d] d show ?thesis by simp
qed


section \<open>The guest-exported interface: lending a handle to the guest\<close>

text \<open>
  C4. A host call \<open>wapc_init_guest_request\<close> that completes leaves both tables as it found
  them: the handle lent to the guest for the call is returned by the guest's export shim,
  the resource's reference count is back where it was and no destructor runs; the
  guest's method saw a handle naming the resource and exactly the payload, and the host
  gets exactly the id that method returned (for an allocator and a method that do not
  touch the handle tables).
\<close>

theorem init_guest_request_lends_handle:
  assumes live: "rs_lookup (resource_slab0 (w_data w)) (unat ri) = Some (v, n)" and nmax: "n \<noteq> - 1"
    and rk: "realloc_keeps_data G" and uk: "request_keeps_data U"
    and ex: "wapc_init_guest_request_fn G = export_init_guest_request U dtor"
    and len: "length payload < 2 ^ 32"
    and ok: "wapc_init_guest_request G w ri operation payload = (w', Inr r)"
  shows "resource_slab0 (w_data w') = resource_slab0 (w_data w)
       \<and> slab_lookup (index_slab0 (w_data w')) = slab_lookup (index_slab0 (w_data w))
       \<and> (\<exists>wu h op wr. slab_get (index_slab0 (w_data wu)) h = Inr ri
              \<and> init_guest_request_impl U wu h op payload = (wr, Inr r))"
proof -
  from ok obtain w1 h w2 p1 w3 p2 where l: "lend_handle w ri = (w1, Inr h)"
    and wb1: "write_bytes G w1 operation = (w2, Inr p1)"
    and wb2: "write_bytes G w2 payload = (w3, Inr p2)"
    and call: "export_init_guest_request U dtor w3 h p1 (i32_of_usize (length operation))
                 p2 (i32_of_usize (length payload)) = (w', Inr r)"
    unfolding wapc_init_guest_request_def ex by (auto elim!: bind_out_eq_Inr)
  from l live nmax obtain is1 where ins: "slab_insert (index_slab0 (w_data w)) ri = Inr (h, is1)"
    and w1: "w1 = set_data w is1 (count_up (resource_slab0 (w_data w)) ri v (n + 1))"
    by (rule lend_handle_live_Inr)
  from write_bytes_Inr [OF wb1 rk] write_bytes_Inr [OF wb2 rk] have d3: "w_data w3 = w_data w1"
    and ld: "wasm_load (w_mem w3) p2 (length payload) = Inr payload" by auto
  from call ld unat_len_i32 [OF len] obtain op w4
    where u: "init_guest_request_impl U w3 h op payload = (w4, Inr r)"
      and rel: "release_handle dtor w4 h r = (w', Inr r)"
    unfolding export_init_guest_request_def
    by (auto elim!: bind_out_eq_Inr simp: release_handle_Inr)
  have "w_data w4 = w_data w3"
    using uk u unfolding request_keeps_data_def by (metis fst_conv)
  with d3 w1 have d: "w_data w4 = w_data (set_data w is1 (count_up (resource_slab0 (w_data w)) ri v (n + 1)))"
    by simp
  from rel release_lent_handle [OF live nmax ins d, of dtor r]
  have "w' = set_data w4 (slab_release is1 (unat h)) (resource_slab0 (w_data w))" by simp
  with restored_tables [OF ins] lent_handle_names [OF ins, of w3] d3 w1 u show ?thesis by blast
qed

theorem init_guest_request_lends_handle_witness:
  "wapc_init_guest_request bump_guest one_handle_world 0 [0x65, 0x63, 0x68, 0x6f] [1, 2, 3] =
     (lent_world [0x65, 0x63, 0x68, 0x6f, 1, 2, 3], Inr 7)
   \<and> (\<exists>wu h op wr. slab_get (index_slab0 (w_data wu)) h = Inr 0
        \<and> init_guest_request_impl echo_guest wu h op [1, 2, 3] = (wr, Inr 7))"
proof -
  have run: "wapc_init_guest_request bump_guest one_handle_world 0 [0x65, 0x63, 0x68, 0x6f] [1, 2, 3] =
     (lent_world [0x65, 0x63, 0x68, 0x6f, 1, 2, 3], Inr 7)" by code_simp
  have live: "rs_lookup (resource_slab0 (w_data one_handle_world)) (unat (0 :: u32)) = Some (42, 1)"
    by code_simp
  have rk: "realloc_keeps_data bump_guest" by (simp add: realloc_keeps_data_def)
  have uk: "request_keeps_data echo_guest" by (simp add: request_keeps_data_def)
  have ex: "wapc_init_guest_request_fn bump_guest =
              export_init_guest_request echo_guest (export_drop_wapc echo_guest)" by simp
  have len: "length [1, 2, 3 :: byte] < 2 ^ 32" by simp
  from init_guest_request_lends_handle [OF live _ rk uk ex len run] run show ?thesis by simp
qed

text \<open>
  C8. The same for \<open>wapc_on_host_response\<close> (spec section 8, the response scenario): the
  guest's \<open>on_host_response\<close> receives a handle naming the resource, the invocation id,
  the status code and exactly the payload, and the lent handle is returned afterwards.
\<close>

theorem on_host_response_lends_handle:
  assumes live: "rs_lookup (resource_slab0 (w_data w)) (unat ri) = Some (v, n)" and nmax: "n \<noteq> - 1"
    and rk: "realloc_keeps_data G" and uk: "response_keeps_data U"
    and ex: "wapc_on_host_response_fn G = export_on_host_response U dtor"
    and len: "length bytes < 2 ^ 32"
    and ok: "wapc_on_host_response G w ri id0 code bytes = (w', Inr ())"
  shows "resource_slab0 (w_data w') = resource_slab0 (w_data w)
       \<and> slab_lookup (index_slab0 (w_data w')) = slab_lookup (index_slab0 (w_data w))
       \<and> (\<exists>wu h wr. slab_get (index_slab0 (w_data wu)) h = Inr ri
              \<and> on_host_response_impl U wu h id0 code bytes = (wr, Inr ()))"
proof -
  from ok obtain w1 h w2 p where l: "lend_handle w ri = (w1, Inr h)"
    and wb: "write_bytes G w1 bytes = (w2, Inr p)"
    and call: "export_on_host_response U dtor w2 h id0 code p (i32_of_usize (length bytes)) = (w', Inr ())"
    unfolding wapc_on_host_response_def ex by (auto elim!: bind_out_eq_Inr)
  from l live nmax obtain is1 where ins: "slab_insert (index_slab0 (w_data w)) ri = Inr (h, is1)"
    and w1: "w1 = set_data w is1 (count_up (resource_slab0 (w_data w)) ri v (n + 1))"
    by (rule lend_handle_live_Inr)
  from write_bytes_Inr [OF wb rk] have d2: "w_data w2 = w_data w1"
    and ld: "wasm_load (w_mem w2) p (length bytes) = Inr bytes" by auto
  from call ld unat_len_i32 [OF len] obtain w3 where u: "on_host_response_impl U w2 h id0 code bytes = (w3, Inr ())"
    and rel: "release_handle dtor w3 h () = (w', Inr ())"
    unfolding export_on_host_response_def by (auto elim: bind_out_eq_Inr)
  have d3: "w_data w3 = w_data w2"
    using uk u unfolding response_keeps_data_def by (metis fst_conv)
  have d: "w_data w3 = w_data (set_data w is1 (count_up (resource_slab0 (w_data w)) ri v (n + 1)))"
    using d3 d2 w1 by simp
  from rel release_lent_handle [OF live nmax ins d, of dtor "()"]
  have "w' = set_data w3 (slab_release is1 (unat h)) (resource_slab0 (w_data w))" by simp
  with restored_tables [OF ins] lent_handle_names [OF ins, of w2] d2 w1 u show ?thesis by blast
qed

theorem on_host_response_lends_handle_witness:
  "wapc_on_host_response bump_guest one_handle_world 0 7 0 [1, 2, 3] = (lent_world [1, 2, 3], Inr ())
   \<and> (\<exists>wu h wr. slab_get (index_slab0 (w_data wu)) h = Inr 0
        \<and> on_host_response_impl echo_guest wu h 7 0 [1, 2, 3] = (wr, Inr ()))"
proof -
  have run: "wapc_on_host_response bump_guest one_handle_world 0 7 0 [1, 2, 3] =
               (lent_world [1, 2, 3], Inr ())" by code_simp
  have live: "rs_lookup (resource_slab0 (w_data one_handle_world)) (unat (0 :: u32)) = Some (42, 1)"
    by code_simp
  have rk: "realloc_keeps_data bump_guest" by (simp add: realloc_keeps_data_def)
  have uk: "response_keeps_data echo_guest" by (simp add: response_keeps_data_def)
  have ex: "wapc_on_host_response_fn bump_guest =
              export_on_host_response echo_guest (export_drop_wapc echo_guest)" by simp
  have len: "length [1, 2, 3 :: byte] < 2 ^ 32" by simp
  from on_host_response_lends_handle [OF live _ rk uk ex len run] run show ?thesis by simp
qed

text \<open>
  C7. A trap after the handle is lent leaks it: when the guest's allocator traps (or the
  copy into its memory fails), \<open>wapc_init_guest_request\<close> returns the trap but keeps the
  incremented reference count and the new handle-table entry, which no one holds and
  no call will remove. The spec asks that a transport fault not corrupt the tables of the
  side that did not fault.
\<close>

theorem init_guest_request_trap_leaks:
  assumes live: "rs_lookup (resource_slab0 (w_data w)) (unat ri) = Some (v, n)" and nmax: "n \<noteq> - 1"
    and wf: "slab_wf (index_slab0 (w_data w))"
    and cap: "length (slab_entries (index_slab0 (w_data w))) < 2 ^ 32"
    and trap: "\<And>w0. canonical_abi_realloc G w0 0 0 1 (i32_of_usize (length operation)) = (w0, Inl e)"
  shows "\<exists>w'. wapc_init_guest_request G w ri operation payload = (w', Inl e)
       \<and> rs_lookup (resource_slab0 (w_data w')) (unat ri) = Some (v, n + 1)
       \<and> handle_count (index_slab0 (w_data w')) ri = Suc (handle_count (index_slab0 (w_data w)) ri)"
proof -
  from slab_insert_total [OF wf cap] obtain h is1
    where ins: "slab_insert (index_slab0 (w_data w)) ri = Inr (h, is1)" by blast
  let ?w1 = "set_data w is1 (count_up (resource_slab0 (w_data w)) ri v (n + 1))"
  have l: "lend_handle w ri = (?w1, Inr h)" by (rule lend_handle_live [OF live nmax ins])
  have "wapc_init_guest_request G w ri operation payload = (?w1, Inl e)"
    by (simp add: wapc_init_guest_request_def l write_bytes_def trap)
  moreover have "rs_lookup (resource_slab0 (w_data ?w1)) (unat ri) = Some (v, n + 1)"
    using rs_set_count [OF live u32_inc_nonzero [OF nmax] refl] by (simp add: set_data_def)
  moreover have "handle_count (index_slab0 (w_data ?w1)) ri = Suc (handle_count (index_slab0 (w_data w)) ri)"
    using slab_insert_count [OF ins, of ri] by (simp add: set_data_def handle_count_def)
  ultimately show ?thesis by blast
qed

theorem init_guest_request_trap_leaks_witness:
  "\<exists>w'. wapc_init_guest_request
          (bump_guest\<lparr>canonical_abi_realloc := (\<lambda>w a b c n. (w, Inl (GuestTrap ''unreachable'')))\<rparr>)
          one_handle_world 0 [0x65] [1] = (w', Inl (GuestTrap ''unreachable''))
     \<and> rs_lookup (resource_slab0 (w_data w')) (unat (0 :: u32)) = Some (42, 1 + 1)
     \<and> handle_count (index_slab0 (w_data w')) 0
         = Suc (handle_count (index_slab0 (w_data one_handle_world)) 0)"
proof (rule init_guest_request_trap_leaks)
  show "rs_lookup (resource_slab0 (w_data one_handle_world)) (unat (0 :: u32)) = Some (42, 1)"
    by code_simp
  show "slab_wf (index_slab0 (w_data one_handle_world))" by code_simp
qed simp_all


section \<open>Finalisation\<close>

text \<open>
  C2. The destructor of a resource runs exactly once, when its last reference goes
  (spec section 8): starting from a resource with one handle and one reference, after
  the guest clones the handle \<open>k\<close> times, dropping the \<open>k + 1\<close> handles in any order runs
  the guest's destructor once, on the resource's value, at the last drop; no shorter
  prefix of the drops runs it, and afterwards the resource is gone.
\<close>

theorem clone_drop_finalize_once:
  assumes lk: "rs_lookup (resource_slab0 (w_data w)) (unat ri) = Some (v, 1)"
    and h0: "slab_lookup (index_slab0 (w_data w)) (unat h0) = Some ri"
    and wf: "slab_wf (index_slab0 (w_data w))"
    and cap: "length (slab_entries (index_slab0 (w_data w))) + k < 2 ^ 32"
    and set: "dtor0 (w_data w)"
  shows "\<exists>w1 hs. guest_run log_dtor w (replicate k (CallClone h0)) = Inr (w1, hs)
           \<and> w_guest w1 = w_guest w
           \<and> (\<forall>ds. distinct ds \<and> set ds = set (h0 # hs) \<longrightarrow>
                 (\<exists>w2 rs. guest_run log_dtor w1 (map CallDrop ds) = Inr (w2, rs)
                    \<and> w_guest w2 = w_guest w @ [v]
                    \<and> rs_lookup (resource_slab0 (w_data w2)) (unat ri) = None)
               \<and> (\<forall>j<length ds. \<exists>w2 rs. guest_run log_dtor w1 (map CallDrop (take j ds)) = Inr (w2, rs)
                    \<and> w_guest w2 = w_guest w))"
proof -
  have pos: "0 < length (slab_entries (index_slab0 (w_data w)))"
    using slab_lookup_Some_lt [OF h0] by linarith
  with cap have kb: "k < 2 ^ 32 - 1" by linarith
  then have c: "unat (1 :: u32) + k < 2 ^ 32" by simp
  from clones_run [OF h0 lk c wf cap, of log_dtor] obtain w1 hs
    where run: "guest_run log_dtor w (replicate k (CallClone h0)) = Inr (w1, hs)"
      and len: "length hs = k" and dist: "distinct hs"
      and new: "\<forall>h\<in>set hs. slab_lookup (index_slab0 (w_data w)) (unat h) = None
                   \<and> slab_lookup (index_slab0 (w_data w1)) (unat h) = Some ri"
      and keep: "\<forall>x. slab_lookup (index_slab0 (w_data w)) x \<noteq> None \<longrightarrow>
              slab_lookup (index_slab0 (w_data w1)) x = slab_lookup (index_slab0 (w_data w)) x"
      and rl: "rs_lookup (resource_slab0 (w_data w1)) (unat ri) = Some (v, 1 + of_nat k)"
      and g: "w_guest w1 = w_guest w" and dt: "dtor0 (w_data w1) = dtor0 (w_data w)"
    by blast
  have h0new: "h0 \<notin> set hs" using new h0 by auto
  have all: "\<forall>h\<in>set (h0 # hs). slab_lookup (index_slab0 (w_data w1)) (unat h) = Some ri"
    using new keep h0 by auto
  have "\<forall>ds. distinct ds \<and> set ds = set (h0 # hs) \<longrightarrow>
          (\<exists>w2 rs. guest_run log_dtor w1 (map CallDrop ds) = Inr (w2, rs)
             \<and> w_guest w2 = w_guest w @ [v] \<and> rs_lookup (resource_slab0 (w_data w2)) (unat ri) = None)
        \<and> (\<forall>j<length ds. \<exists>w2 rs. guest_run log_dtor w1 (map CallDrop (take j ds)) = Inr (w2, rs)
             \<and> w_guest w2 = w_guest w)"
  proof (intro allI impI)
    fix ds assume ds: "distinct ds \<and> set ds = set (h0 # hs)"
    then have "length ds = card (set (h0 # hs))" using distinct_card by metis
    also have "\<dots> = Suc k" using dist h0new len by (simp add: distinct_card)
    finally have "unat (1 + of_nat k :: u32) = length ds" using unat_count [OF kb] by simp
    from drops_finalize_once [OF rl this] ds all set dt g show "(\<exists>w2 rs. guest_run log_dtor w1 (map CallDrop ds) = Inr (w2, rs)
             \<and> w_guest w2 = w_guest w @ [v] \<and> rs_lookup (resource_slab0 (w_data w2)) (unat ri) = None)
        \<and> (\<forall>j<length ds. \<exists>w2 rs. guest_run log_dtor w1 (map CallDrop (take j ds)) = Inr (w2, rs)
             \<and> w_guest w2 = w_guest w)"
      by simp
  qed
  with run g show ?thesis by blast
qed

theorem clone_drop_finalize_once_witness:
  "\<exists>w1 hs. guest_run log_dtor log_world (replicate 1 (CallClone 0)) = Inr (w1, hs)
      \<and> w_guest w1 = w_guest log_world
      \<and> (\<forall>ds. distinct ds \<and> set ds = set (0 # hs) \<longrightarrow>
            (\<exists>w2 rs. guest_run log_dtor w1 (map CallDrop ds) = Inr (w2, rs)
               \<and> w_guest w2 = w_guest log_world @ [42]
               \<and> rs_lookup (resource_slab0 (w_data w2)) (unat (0 :: u32)) = None)
          \<and> (\<forall>j<length ds. \<exists>w2 rs. guest_run log_dtor w1 (map CallDrop (take j ds)) = Inr (w2, rs)
               \<and> w_guest w2 = w_guest log_world))"
proof (rule clone_drop_finalize_once)
  show "rs_lookup (resource_slab0 (w_data log_world)) (unat (0 :: u32)) = Some (42, 1)" by code_simp
  show "slab_lookup (index_slab0 (w_data log_world)) (unat (0 :: u32)) = Some 0" by code_simp
  show "slab_wf (index_slab0 (w_data log_world))" by code_simp
qed simp_all


section \<open>Linking and instantiation\<close>

text \<open>
  C12. The two generated modules cannot share a linker: both \<open>WapcGuest::add_to_linker\<close>
  and \<open>wapc_host::add_to_linker\<close> define \<open>canonical_abi::resource_drop_wapc\<close>, so
  whichever runs second fails with "defined twice", and \<open>WapcGuest::instantiate\<close> fails on a
  linker that already holds the \<open>wapc-host\<close> imports. The guest's drops of host handles
  and of its own resources go through that one import name.
\<close>

theorem bindings_collide:
  assumes "wapc_host_add_to_linker l0 = Inr l"
  shows "wapc_guest_add_to_linker l =
           Inl (LinkError ''import of `canonical_abi::resource_drop_wapc` defined twice'')
       \<and> wapc_guest_instantiate l imports exports w =
           Inl (LinkError ''import of `canonical_abi::resource_drop_wapc` defined twice'')
       \<and> (\<forall>l'. wapc_guest_add_to_linker l0 = Inr l' \<longrightarrow> (\<exists>e. wapc_host_add_to_linker l' = Inl e))"
proof -
  have dup: "wapc_guest_add_to_linker l =
               Inl (LinkError ''import of `canonical_abi::resource_drop_wapc` defined twice'')"
    by (rule wapc_guest_add_to_linker_dup [OF wapc_host_add_to_linker_defines [OF assms]])
  have "\<exists>e. wapc_host_add_to_linker l' = Inl e" if "wapc_guest_add_to_linker l0 = Inr l'" for l'
    using wapc_host_add_to_linker_dup [OF wapc_guest_add_to_linker_defines [OF that]]
    by (cases "wapc_host_add_to_linker l'") auto
  with dup show ?thesis by (simp add: wapc_guest_instantiate_def)
qed

theorem bindings_collide_witness:
  "\<exists>l. wapc_host_add_to_linker [] = Inr l
     \<and> wapc_guest_add_to_linker l =
           Inl (LinkError ''import of `canonical_abi::resource_drop_wapc` defined twice'')
     \<and> wapc_guest_instantiate l wapc_guest_guest_imports [] one_handle_world =
           Inl (LinkError ''import of `canonical_abi::resource_drop_wapc` defined twice'')
     \<and> (\<forall>l'. wapc_guest_add_to_linker [] = Inr l' \<longrightarrow> (\<exists>e. wapc_host_add_to_linker l' = Inl e))"
proof -
  have "\<exists>l. wapc_host_add_to_linker [] = Inr l"
    by (simp add: wapc_host_add_to_linker_def func_wrap_def)
  then obtain l where l: "wapc_host_add_to_linker [] = Inr l" by blast
  from bindings_collide [OF l, of wapc_guest_guest_imports "[]" one_handle_world] l show ?thesis
    by blast
qed

text \<open>
  C13. The destructor is only known once \<open>WapcGuest::new\<close> has run, after the module is
  instantiated: on fresh \<open>WapcGuestData\<close> (its \<open>Default\<close>), a guest that creates a
  resource and drops its handle, as a start function or any code run before \<open>new\<close> can,
  makes the host panic with "destructor not set yet" instead of a trap.
\<close>

theorem drop_before_new_panics:
  assumes "w_data w = wapc_guest_data_default"
  shows "\<exists>w1 h. guest_intrinsic dtor w (CallNew v) = Inr (w1, h)
           \<and> guest_intrinsic dtor w1 (CallDrop h) = Inl (Panic ''destructor not set yet'')"
  using assms
  by (simp add: guest_intrinsic_def resource_new_wapc_def resource_drop_wapc_def
      wapc_guest_data_default_def slab_default_def resource_slab_default_def rs_insert_def
      slab_insert_def slab_remove_def slab_get_def slab_lookup_def rs_drop_def rs_slot_def set_data_def
      host_usize_of_i32_def i32_of_usize_def u32_of_usize_def)

theorem drop_before_new_panics_witness:
  "\<exists>w1 h. guest_intrinsic (\<lambda>w v. Inr w) (one_handle_world\<lparr>w_data := wapc_guest_data_default\<rparr>)
             (CallNew 42) = Inr (w1, h)
       \<and> guest_intrinsic (\<lambda>w v. Inr w) w1 (CallDrop h) = Inl (Panic ''destructor not set yet'')"
  by (rule drop_before_new_panics) simp


section \<open>Marshaling bounds and encodings\<close>

text \<open>
  C14. Reads of guest memory fail fast at the boundary and are never clamped (spec 4.3 and
  section 8): for a live handle, \<open>on-guest-response\<close> traps \<open>out of bounds\<close> exactly when
  \<open>[ptr, ptr+len)\<close> passes the end of memory; with \<open>len = 0\<close> exactly when \<open>ptr\<close> lies beyond
  the end, and an empty payload at the very end is delivered.
\<close>

theorem on_guest_response_bounds:
  assumes "table_get (wapc_table (hs_tables st)) h = Some r" and "length (hs_mem st) < 2 ^ 32"
  shows "(import_on_guest_response H st h id0 ptr len = Inl OutOfBounds
            \<longleftrightarrow> length (hs_mem st) < unat ptr + unat len)
       \<and> (import_on_guest_response H st h id0 ptr 0 = Inl OutOfBounds
            \<longleftrightarrow> length (hs_mem st) < unat ptr)
       \<and> import_on_guest_response H st h id0 (word_of_nat (length (hs_mem st))) 0 =
            Inr (st\<lparr>hs_host := on_guest_response_impl H (hs_host st) r id0 []\<rparr>)"
proof -
  have lk: "host_lookup st h = Inr r" using assms(1) by (simp add: host_lookup_def)
  have u: "unat (word_of_nat (length (hs_mem st)) :: i32) = length (hs_mem st)"
    using assms(2) by (simp add: unat_of_nat)
  have gen: "import_on_guest_response H st h id0 ptr len = Inl OutOfBounds
          \<longleftrightarrow> length (hs_mem st) < unat ptr + unat len" for ptr len
    using assms(2) by (auto simp: import_on_guest_response_def lk bc_slice_def Let_def)
  show ?thesis
  proof (intro conjI)
    show "import_on_guest_response H st h id0 ptr len = Inl OutOfBounds
            \<longleftrightarrow> length (hs_mem st) < unat ptr + unat len" by (rule gen)
    show "import_on_guest_response H st h id0 ptr 0 = Inl OutOfBounds
            \<longleftrightarrow> length (hs_mem st) < unat ptr" using gen [of ptr 0] by simp
    show "import_on_guest_response H st h id0 (word_of_nat (length (hs_mem st))) 0 =
            Inr (st\<lparr>hs_host := on_guest_response_impl H (hs_host st) r id0 []\<rparr>)"
      using assms(2) u by (simp add: import_on_guest_response_def lk bc_slice_def)
  qed
qed

theorem on_guest_response_bounds_witness:
  "(import_on_guest_response demo_host demo_host_state 0 7 3 2 = Inl OutOfBounds
      \<longleftrightarrow> length (hs_mem demo_host_state) < unat (3 :: i32) + unat (2 :: i32))
   \<and> (import_on_guest_response demo_host demo_host_state 0 7 5 0 = Inl OutOfBounds
      \<longleftrightarrow> length (hs_mem demo_host_state) < unat (5 :: i32))
   \<and> import_on_guest_response demo_host demo_host_state 0 7 (word_of_nat (length (hs_mem demo_host_state))) 0 =
      Inr (demo_host_state\<lparr>hs_host := on_guest_response_impl demo_host (hs_host demo_host_state) 7 7 []\<rparr>)"
proof -
  have t: "table_get (wapc_table (hs_tables demo_host_state)) 0 = Some 7" by code_simp
  have m: "length (hs_mem demo_host_state) < 2 ^ 32" by simp
  from on_guest_response_bounds [OF t m] show ?thesis by blast
qed

text \<open>
  C15. A string argument that is not well-formed UTF-8 is rejected whole (spec section 8):
  for a live handle and a range inside memory, \<open>console-log\<close> and the \<open>binding\<close> of
  \<open>init-host-request\<close> trap \<open>invalid utf-8\<close> and the host's implementation is not called.
\<close>

theorem imports_reject_invalid_utf8:
  assumes "table_get (wapc_table (hs_tables st)) h = Some r" and "length (hs_mem st) < 2 ^ 32"
    and "slice_at (hs_mem st) p bs" and "\<not> utf8_valid bs"
  shows "import_console_log H st h p (i32_of_usize (length bs)) = Inl InvalidUtf8
       \<and> import_init_host_request H st h p (i32_of_usize (length bs)) a3 a4 a5 a6 a7 a8 = Inl InvalidUtf8"
proof -
  have lk: "host_lookup st h = Inr r" using assms(1) by (simp add: host_lookup_def)
  have "bc_slice_str (hs_mem st) p (i32_of_usize (length bs)) = Inl InvalidUtf8"
    using slice_at_bc_slice [OF assms(3,2)] assms(4) by (simp add: bc_slice_str_def)
  then show ?thesis by (simp add: import_console_log_def import_init_host_request_def lk)
qed

theorem imports_reject_invalid_utf8_witness:
  "import_console_log demo_host (demo_host_state\<lparr>hs_mem := [0x61, 0xC0, 0x80]\<rparr>) 0 0
     (i32_of_usize (length [0x61, 0xC0, 0x80 :: byte])) = Inl InvalidUtf8
   \<and> import_init_host_request demo_host (demo_host_state\<lparr>hs_mem := [0x61, 0xC0, 0x80]\<rparr>) 0 0
       (i32_of_usize (length [0x61, 0xC0, 0x80 :: byte])) 0 0 0 0 0 0 = Inl InvalidUtf8"
proof -
  let ?st = "demo_host_state\<lparr>hs_mem := [0x61, 0xC0, 0x80]\<rparr>"
  have t: "table_get (wapc_table (hs_tables ?st)) 0 = Some 7" by code_simp
  have m: "length (hs_mem ?st) < 2 ^ 32" by simp
  have a: "slice_at (hs_mem ?st) 0 [0x61, 0xC0, 0x80]" by code_simp
  have u: "\<not> utf8_valid [0x61, 0xC0, 0x80]" by code_simp
  from imports_reject_invalid_utf8 [OF t m a u, of demo_host 0 0 0 0 0 0] show ?thesis .
qed

text \<open>
  C16. Writing host bytes into guest memory (spec section 8, the marshaling round trip):
  when the guest's allocator returns an address whose range fits in memory, the bytes are
  copied there, nothing else of memory changes length, and reading the range back, by a
  wasm load or by the host's \<open>BorrowChecker\<close>, gives exactly those bytes; when the range
  does not fit, the copy traps \<open>out of bounds write\<close> and writes nothing.
\<close>

theorem write_bytes_exact:
  assumes "canonical_abi_realloc G w 0 0 1 (i32_of_usize (length vec)) = (w1, Inr p)"
  shows "(unat p + length vec \<le> length (w_mem w1) \<longrightarrow>
            (\<exists>m. write_bytes G w vec = (w1\<lparr>w_mem := m\<rparr>, Inr p)
               \<and> length m = length (w_mem w1) \<and> wasm_load m p (length vec) = Inr vec
               \<and> (unat p + length vec < 2 ^ 32 \<longrightarrow> bc_slice m p (i32_of_usize (length vec)) = Inr vec)))
       \<and> (length (w_mem w1) < unat p + length vec \<longrightarrow> write_bytes G w vec = (w1, Inl OutOfBoundsWrite))"
proof (intro conjI impI)
  assume fit: "unat p + length vec \<le> length (w_mem w1)"
  let ?m = "take (unat p) (w_mem w1) @ vec @ drop (unat p + length vec) (w_mem w1)"
  have st: "store_many (w_mem w1) p vec = Inr ?m" using fit by (simp add: store_many_Inr)
  have "unat p + length vec < 2 ^ 32 \<longrightarrow> bc_slice ?m p (i32_of_usize (length vec)) = Inr vec"
    using store_many_slice [OF st] by (simp add: i32_of_usize_def)
  with st fit assms show "\<exists>m. write_bytes G w vec = (w1\<lparr>w_mem := m\<rparr>, Inr p)
               \<and> length m = length (w_mem w1) \<and> wasm_load m p (length vec) = Inr vec
               \<and> (unat p + length vec < 2 ^ 32 \<longrightarrow> bc_slice m p (i32_of_usize (length vec)) = Inr vec)"
    by (intro exI [of _ ?m]) (simp add: write_bytes_def store_many_load store_many_length)
next
  assume "length (w_mem w1) < unat p + length vec"
  then have "store_many (w_mem w1) p vec = Inl OutOfBoundsWrite" by (auto simp: store_many_def)
  with assms show "write_bytes G w vec = (w1, Inl OutOfBoundsWrite)" by (simp add: write_bytes_def)
qed

theorem write_bytes_exact_witness:
  "\<exists>m. write_bytes bump_guest one_handle_world [1, 2, 3] =
          ((one_handle_world\<lparr>w_mem := [0, 0, 0]\<rparr>)\<lparr>w_mem := m\<rparr>, Inr 0)
      \<and> length m = length [0, 0, 0 :: byte] \<and> wasm_load m 0 (length [1, 2, 3 :: byte]) = Inr [1, 2, 3]
      \<and> bc_slice m 0 3 = Inr [1, 2, 3]"
proof -
  have r: "canonical_abi_realloc bump_guest one_handle_world 0 0 1 (i32_of_usize (length [1, 2, 3 :: byte])) =
          (one_handle_world\<lparr>w_mem := [0, 0, 0]\<rparr>, Inr 0)"
    by code_simp
  have c: "unat (0 :: i32) + length [1, 2, 3 :: byte] \<le> length (w_mem (one_handle_world\<lparr>w_mem := [0, 0, 0]\<rparr>))"
    by simp
  from conjunct1 [OF write_bytes_exact [OF r]] c obtain m
    where w: "write_bytes bump_guest one_handle_world [1, 2, 3] =
                ((one_handle_world\<lparr>w_mem := [0, 0, 0]\<rparr>)\<lparr>w_mem := m\<rparr>, Inr 0)"
      and l: "length m = length (w_mem (one_handle_world\<lparr>w_mem := [0, 0, 0]\<rparr>))"
      and ld: "wasm_load m 0 (length [1, 2, 3 :: byte]) = Inr [1, 2, 3]"
      and bc: "unat (0 :: i32) + length [1, 2, 3 :: byte] < 2 ^ 32 \<longrightarrow>
                 bc_slice m 0 (i32_of_usize (length [1, 2, 3 :: byte])) = Inr [1, 2, 3]"
    by blast
  have three: "i32_of_usize (length [1, 2, 3 :: byte]) = 3" by (simp add: i32_of_usize_def)
  have "bc_slice m 0 3 = Inr [1, 2, 3]" using bc by (simp only: three) simp
  with w l ld show ?thesis by auto
qed


section \<open>The contract of the handle intrinsics\<close>

text \<open>
  C17. The guest's \<open>canonical_abi\<close> calls implement the handle-table and resource-slab
  contract of spec 4.1 and 4.2: on a well-formed state, every call that succeeds is a step
  of \<open>intrinsic_spec\<close> between the abstractions of the states before and after (fresh
  handles on new and clone, counts up by one on clone and down by one on drop, the
  resource freed with its last reference), for a destructor that leaves the tables alone.
\<close>

theorem guest_intrinsic_refines:
  assumes wf: "gd_wf (w_data w)" and kd: "keeps_data dtor"
    and cap: "Suc (length (rs_slab (resource_slab0 (w_data w)))) < 2 ^ 31"
    and ok: "guest_intrinsic dtor w c = Inr (w', r)"
  shows "intrinsic_spec c (abs_data (w_data w)) r (abs_data (w_data w'))"
proof (cases c)
  case (CallNew v)
  with ok new_refines [OF wf cap] show ?thesis by (simp add: guest_intrinsic_def)
next
  case (CallGet h)
  with ok get_refines [OF wf] show ?thesis by (auto simp: guest_intrinsic_def bind_res_eq_Inr)
next
  case (CallClone h)
  with ok clone_refines [OF wf] show ?thesis by (simp add: guest_intrinsic_def)
next
  case (CallDrop h)
  with ok drop_refines [OF wf kd] show ?thesis by (auto simp: guest_intrinsic_def bind_res_eq_Inr)
qed

theorem guest_intrinsic_refines_witness:
  "intrinsic_spec (CallClone 0) (abs_data (w_data one_handle_world)) 1
     (abs_data \<lparr>index_slab0 = \<lparr>slab_entries = [Taken 0, Taken 0], slab_next = 2\<rparr>,
               resource_slab0 = \<lparr>rs_slab = [\<lparr>wasm = 42, refcnt = 2\<rparr>], rs_next = 1\<rparr>, dtor0 = True\<rparr>)"
proof -
  have wf: "gd_wf (w_data one_handle_world)" by code_simp
  have kd: "keeps_data (\<lambda>w v. Inr w :: unit world res)" by (simp add: keeps_data_def)
  have cap: "Suc (length (rs_slab (resource_slab0 (w_data one_handle_world)))) < 2 ^ 31" by simp
  have run: "guest_intrinsic (\<lambda>w v. Inr w) one_handle_world (CallClone 0) =
        Inr (one_handle_world\<lparr>w_data := \<lparr>index_slab0 = \<lparr>slab_entries = [Taken 0, Taken 0], slab_next = 2\<rparr>,
               resource_slab0 = \<lparr>rs_slab = [\<lparr>wasm = 42, refcnt = 2\<rparr>], rs_next = 1\<rparr>, dtor0 = True\<rparr>\<rparr>, 1)"
    by code_simp
  from guest_intrinsic_refines [OF wf kd cap run] show ?thesis by simp
qed

end
